theory Spec2Isabelle
  imports Main
begin

section \<open>Bulk dispatch engine: the background path and the synchronous route\<close>

text \<open>
  The development embeds the bulk messaging code of the backend:
  \<^item> \<open>services/csvProcessor.ts\<close>: \<open>formatMobileNumber\<close>;
  \<^item> \<open>services/bulkMessaging.ts\<close> (the second file of the listing of
    \<open>csvProcessor.ts\<close>): \<open>getOptimalConfig\<close>, \<open>processBulkMessage\<close>,
    \<open>processBulkMessagesInBackground\<close>, \<open>processBatchWithConcurrency\<close>;
  \<^item> \<open>services/whatsapp.ts\<close>: the gateway wrappers \<open>sendText\<close>, \<open>sendImage\<close>,
    \<open>sendDocument\<close>, \<open>sendDocumentByMediaId\<close>;
  \<^item> \<open>routes/send.ts\<close>: the loop of the route \<open>/csv-bulk-document\<close>;
  \<^item> \<open>models/MessageLog.ts\<close>, \<open>models/BulkOperation.ts\<close>: the two documents.
\<close>

subsection \<open>The concurrency plan\<close>

record config =
  CONCURRENCY_LIMIT :: nat
  BATCH_SIZE :: nat
  RATE_LIMIT_DELAY :: nat

text \<open>\<open>getOptimalConfig\<close>, an if-chain on the message count, first match wins.\<close>

definition getOptimalConfig :: "int \<Rightarrow> config" where
  "getOptimalConfig messageCount =
     (if messageCount \<le> 20 then
        \<lparr>CONCURRENCY_LIMIT = 2, BATCH_SIZE = 5, RATE_LIMIT_DELAY = 200\<rparr>
      else if messageCount \<le> 50 then
        \<lparr>CONCURRENCY_LIMIT = 3, BATCH_SIZE = 8, RATE_LIMIT_DELAY = 150\<rparr>
      else if messageCount \<le> 200 then
        \<lparr>CONCURRENCY_LIMIT = 5, BATCH_SIZE = 15, RATE_LIMIT_DELAY = 100\<rparr>
      else if messageCount \<le> 500 then
        \<lparr>CONCURRENCY_LIMIT = 8, BATCH_SIZE = 25, RATE_LIMIT_DELAY = 75\<rparr>
      else if messageCount \<le> 1000 then
        \<lparr>CONCURRENCY_LIMIT = 10, BATCH_SIZE = 40, RATE_LIMIT_DELAY = 50\<rparr>
      else
        \<lparr>CONCURRENCY_LIMIT = 12, BATCH_SIZE = 60, RATE_LIMIT_DELAY = 25\<rparr>)"

subsection \<open>Batching\<close>

text \<open>
  \<open>Array.prototype.slice(i, j)\<close> for \<open>0 \<le> i \<le> j\<close>: the elements at the indices
  \<open>i, ..., j - 1\<close> that exist; both ends are clamped to the length.
\<close>

definition slice :: "'a list \<Rightarrow> nat \<Rightarrow> nat \<Rightarrow> 'a list" where
  "slice xs i j = drop i (take j xs)"

text \<open>
  The loop
  \<^verbatim>\<open>for (let i = 0; i < xs.length; i += b) { batches.push(xs.slice(i, i + b)); }\<close>
  started at index \<open>i\<close>. It is used with \<open>b = config.BATCH_SIZE\<close> for the batches and
  with \<open>b = config.CONCURRENCY_LIMIT\<close> for the concurrency chunks of a batch (and with the
  constants 10 and 5 in the route). With \<open>b = 0\<close> the index never advances: that case is
  decided in \<open>batches\<close> below, and the recursion here stops.
\<close>

function batch_loop :: "'a list \<Rightarrow> nat \<Rightarrow> nat \<Rightarrow> 'a list list" where
  "batch_loop xs b i =
     (if i < length xs \<and> 0 < b then slice xs i (i + b) # batch_loop xs b (i + b) else [])"
  by pat_completeness auto
termination
  by (relation "measure (\<lambda>(xs, b, i). length xs - i)") auto

declare batch_loop.simps [simp del]

text \<open>
  The whole loop. \<open>None\<close> stands for the run that never returns: a step of \<open>0\<close> on a
  non-empty array pushes empty slices for ever.
\<close>

definition batches :: "'a list \<Rightarrow> nat \<Rightarrow> 'a list list option" where
  "batches xs b = (if b = 0 \<and> xs \<noteq> [] then None else Some (batch_loop xs b 0))"

subsection \<open>JavaScript values\<close>

text \<open>
  An optional string (\<open>string | undefined\<close>) is a \<open>string option\<close>. In a condition
  \<open>undefined\<close> and the empty string are falsy; \<open>a || b\<close> is \<open>a\<close> when \<open>a\<close> is truthy and
  \<open>b\<close> otherwise.
\<close>

definition truthy :: "string option \<Rightarrow> bool" where
  "truthy v = (case v of None \<Rightarrow> False | Some s \<Rightarrow> s \<noteq> [])"

text \<open>The value of a truthy optional string, for a branch taken under \<open>if (v)\<close>.\<close>

definition truthy_string :: "string option \<Rightarrow> string option" where
  "truthy_string v = (if truthy v then v else None)"

definition js_or :: "string option \<Rightarrow> string option \<Rightarrow> string option" where
  "js_or a b = (if truthy a then a else b)"

text \<open>\<open>xs[i]\<close>: \<open>undefined\<close> out of range.\<close>

definition at_index :: "'a list \<Rightarrow> nat \<Rightarrow> 'a option" where
  "at_index xs i = (if i < length xs then Some (xs ! i) else None)"

text \<open>\<open>xs.indexOf(x)\<close>: the first index holding \<open>x\<close>; \<open>None\<close> stands for \<open>-1\<close>.\<close>

fun indexOf :: "'a list \<Rightarrow> 'a \<Rightarrow> nat option" where
  "indexOf [] x = None"
| "indexOf (y # ys) x =
     (if y = x then Some 0 else (case indexOf ys x of None \<Rightarrow> None | Some k \<Rightarrow> Some (Suc k)))"

subsection \<open>Thrown values\<close>

text \<open>
  A thrown value is an \<open>Error\<close> object: its class (which gives \<open>error.name\<close>), its
  message and, for a rejection of the HTTP client that carries a response, the body
  \<open>error.response.data\<close>. A body is a JSON object, of which the member \<open>error\<close> (the
  gateway's error object, when it is there) and the text of the members are kept, or a
  string. \<open>JSON.stringify\<close> prints an object between braces and a string between double
  quotes (escapes are not modelled).
\<close>

datatype error_class = Error | TypeError | AxiosError | MongoError

fun class_name :: "error_class \<Rightarrow> string" where
  "class_name Error = ''Error''"
| "class_name TypeError = ''TypeError''"
| "class_name AxiosError = ''AxiosError''"
| "class_name MongoError = ''MongoError''"

record wa_api_error =
  wa_code :: int
  wa_message :: "string option"

datatype error_body = JsonObject "wa_api_error option" string | JsonString string

fun body_truthy :: "error_body \<Rightarrow> bool" where
  "body_truthy (JsonObject waError members) = True"
| "body_truthy (JsonString s) = (s \<noteq> [])"

fun body_error :: "error_body \<Rightarrow> wa_api_error option" where
  "body_error (JsonObject waError members) = waError"
| "body_error (JsonString s) = None"

fun JSON_stringify :: "error_body \<Rightarrow> string" where
  "JSON_stringify (JsonObject waError members) = ''{'' @ members @ ''}''"
| "JSON_stringify (JsonString s) = CHR 0x22 # s @ [CHR 0x22]"

record js_error =
  err_class :: error_class
  err_message :: string
  err_response :: "error_body option"

definition new_Error :: "string \<Rightarrow> js_error" where
  "new_Error msg = \<lparr>err_class = Error, err_message = msg, err_response = None\<rparr>"

text \<open>\<open>String(error)\<close>, that is \<open>Error.prototype.toString\<close> for a non-empty name.\<close>

definition String_error :: "js_error \<Rightarrow> string" where
  "String_error e =
     (if err_message e = [] then class_name (err_class e)
      else class_name (err_class e) @ '': '' @ err_message e)"

text \<open>
  The detail both paths store on a failed record:
  \<^verbatim>\<open>error?.response?.data ? JSON.stringify(error.response.data) : String(error)\<close>
\<close>

definition error_detail :: "js_error \<Rightarrow> string" where
  "error_detail e =
     (case err_response e of
        None \<Rightarrow> String_error e
      | Some d \<Rightarrow> if body_truthy d then JSON_stringify d else String_error e)"

subsection \<open>The gateway wrappers (\<open>services/whatsapp.ts\<close>)\<close>

text \<open>
  What a wrapper posts. Every request carries the recipient \<open>to\<close> it was called with.
\<close>

datatype request =
    TextRequest string "string option"
  | ImageIdRequest string string string
  | ImageLinkRequest string string string
  | DocumentRequest string "string option" "string option"
  | TemplateRequest string string

fun request_to :: "request \<Rightarrow> string" where
  "request_to (TextRequest to body) = to"
| "request_to (ImageIdRequest to mediaId caption) = to"
| "request_to (ImageLinkRequest to imageUrl caption) = to"
| "request_to (DocumentRequest to documentUrl caption) = to"
| "request_to (TemplateRequest to mediaId) = to"

text \<open>
  The body of a 2xx response (\<open>res.data\<close>, \<open>None\<close> when falsy): its member \<open>messages\<close>
  (\<open>None\<close> when absent), each message with its member \<open>id\<close>. The HTTP client either
  resolves with such a body or rejects with an error.
\<close>

record wa_message =
  msg_id :: "string option"

record response_data =
  messages :: "wa_message list option"

datatype axios_result = Resolved "response_data option" | Rejected js_error

text \<open>
  The check every wrapper makes on a resolved response:
  \<^verbatim>\<open>
  if (res.data && res.data.messages && res.data.messages.length > 0) {
    const message = res.data.messages[0];
    if (message.id) { return res.data; }
    else { throw new Error("WhatsApp API returned no message ID - ..."); }
  } else { throw new Error("WhatsApp API returned invalid response - ..."); }
  \<close>
\<close>

definition check_response :: "response_data option \<Rightarrow> js_error + response_data" where
  "check_response data =
     (case data of
        None \<Rightarrow> Inl (new_Error
          ''WhatsApp API returned invalid response - number may not be registered on WhatsApp'')
      | Some d \<Rightarrow>
          (case messages d of
             None \<Rightarrow> Inl (new_Error
               ''WhatsApp API returned invalid response - number may not be registered on WhatsApp'')
           | Some [] \<Rightarrow> Inl (new_Error
               ''WhatsApp API returned invalid response - number may not be registered on WhatsApp'')
           | Some (message # rest) \<Rightarrow>
               if truthy (msg_id message) then Inr d
               else Inl (new_Error
                 ''WhatsApp API returned no message ID - number may not be registered on WhatsApp'')))"

text \<open>
  The \<open>catch\<close> block every wrapper has around the post and the check: what it throws for
  the error it caught. An error with \<open>error.response.data.error\<close> is replaced by an
  \<open>Error\<close> chosen by the gateway's code; any other error is thrown again as it is.
\<close>

definition catch_send :: "js_error \<Rightarrow> js_error" where
  "catch_send e =
     (case (case err_response e of None \<Rightarrow> None | Some d \<Rightarrow> body_error d) of
        Some waError \<Rightarrow>
          if wa_code waError = 131026 then
            new_Error ''Phone number is not registered on WhatsApp''
          else if wa_code waError = 131021 then
            new_Error ''Invalid phone number format''
          else if wa_code waError = 131047 then
            new_Error ''Phone number is not a WhatsApp number''
          else if wa_code waError = 100 then
            new_Error
              ''Invalid parameter - phone number may not be valid or registered on WhatsApp''
          else
            new_Error (''WhatsApp API Error: '' @
              (case js_or (wa_message waError) (Some ''Unknown error'') of
                 Some m \<Rightarrow> m | None \<Rightarrow> []))
      | None \<Rightarrow> e)"

text \<open>
  \<open>try { post; check } catch { ... }\<close>, the body the four wrappers share word for word;
  \<open>post\<close> is the HTTP client at this call. \<open>Inl\<close> is a thrown error.
\<close>

definition post_and_check :: "(request \<Rightarrow> axios_result) \<Rightarrow> request \<Rightarrow> js_error + response_data" where
  "post_and_check post req =
     (case post req of
        Rejected e \<Rightarrow> Inl (catch_send e)
      | Resolved data \<Rightarrow>
          (case check_response data of
             Inl e \<Rightarrow> Inl (catch_send e)
           | Inr d \<Rightarrow> Inr d))"

definition sendText ::
  "(request \<Rightarrow> axios_result) \<Rightarrow> string \<Rightarrow> string option \<Rightarrow> js_error + response_data" where
  "sendText post to body = post_and_check post (TextRequest to body)"

text \<open>
  \<open>sendImage\<close> builds the image member before its \<open>try\<close>, and throws there when it has
  neither a media id nor a link; the caption defaults to the empty string.
\<close>

definition sendImage ::
  "(request \<Rightarrow> axios_result) \<Rightarrow> string \<Rightarrow> string option \<Rightarrow> string option \<Rightarrow> string option \<Rightarrow>
   js_error + response_data" where
  "sendImage post to imageUrl mediaId caption =
     (let cap = (case caption of None \<Rightarrow> [] | Some c \<Rightarrow> c) in
      case truthy_string mediaId of
        Some m \<Rightarrow> post_and_check post (ImageIdRequest to m cap)
      | None \<Rightarrow>
          (case truthy_string imageUrl of
             Some u \<Rightarrow> post_and_check post (ImageLinkRequest to u cap)
           | None \<Rightarrow> Inl (new_Error ''Either mediaId or imageUrl must be provided'')))"

definition sendDocument ::
  "(request \<Rightarrow> axios_result) \<Rightarrow> string \<Rightarrow> string option \<Rightarrow> string option \<Rightarrow>
   js_error + response_data" where
  "sendDocument post to documentUrl caption =
     post_and_check post (DocumentRequest to documentUrl caption)"

definition sendDocumentByMediaId ::
  "(request \<Rightarrow> axios_result) \<Rightarrow> string \<Rightarrow> string \<Rightarrow> js_error + response_data" where
  "sendDocumentByMediaId post to mediaId = post_and_check post (TemplateRequest to mediaId)"

subsection \<open>Recipient normalisation (\<open>services/csvProcessor.ts\<close>)\<close>

text \<open>
  \<open>number.replace(/\D/g, '')\<close> keeps the characters \<open>0\<close> to \<open>9\<close>; when exactly ten are
  left, \<open>1\<close> is put in front.
\<close>

definition is_digit :: "char \<Rightarrow> bool" where
  "is_digit c = (c \<in> set ''0123456789'')"

definition formatMobileNumber :: "string \<Rightarrow> string" where
  "formatMobileNumber number =
     (let cleanNumber = filter is_digit number in
      if length cleanNumber = 10 then CHR ''1'' # cleanNumber else cleanNumber)"

subsection \<open>The documents (\<open>models/MessageLog.ts\<close>, \<open>models/BulkOperation.ts\<close>)\<close>

text \<open>
  Of a message log the recipient, the type, the status, the gateway's message id, the
  error and the retry count are kept (payload, department and sender are copied from the
  request and never read by the engine). \<open>retryCount\<close> has the schema default 0. The
  \<open>_id\<close> of a log is its position in the collection.
\<close>

datatype message_type = TEXT | IMAGE | DOCUMENT

datatype log_status = QUEUED | SENT | FAILED | DELIVERED | READ | UPLOADED

record MessageLog =
  log_to :: string
  log_type :: message_type
  log_status :: log_status
  waMessageId :: "string option"
  log_error :: "string option"
  retryCount :: nat

text \<open>The document \<open>insertMany\<close> makes of \<open>{to, type, payload, status: 'QUEUED', ...}\<close>.\<close>

definition queued_log :: "string \<Rightarrow> message_type \<Rightarrow> MessageLog" where
  "queued_log recipient t =
     \<lparr>log_to = recipient, log_type = t, log_status = QUEUED, waMessageId = None,
      log_error = None, retryCount = 0\<rparr>"

datatype operation_status = PENDING | PROCESSING | COMPLETED | OPERATION_FAILED

record BulkOperation =
  totalRecipients :: nat
  processedCount :: nat
  successCount :: nat
  failedCount :: nat
  op_status :: operation_status
  op_error :: "string option"
  completedAt :: "nat option"

text \<open>
  The two updates the engine prepares, each an \<open>updateOne\<close> with the filter
  \<open>{_id: messageLog._id}\<close>:
  \<open>$set: {status: 'SENT', waMessageId}\<close> and \<open>$set: {status: 'FAILED', error}\<close>.
\<close>

datatype log_change = SetSent "string option" | SetFailed string

datatype update = UpdateOne nat log_change

fun change_log :: "log_change \<Rightarrow> MessageLog \<Rightarrow> MessageLog" where
  "change_log (SetSent wid) l = l\<lparr>log_status := SENT, waMessageId := wid\<rparr>"
| "change_log (SetFailed detail) l = l\<lparr>log_status := FAILED, log_error := Some detail\<rparr>"

text \<open>An update whose filter matches no document changes nothing.\<close>

fun apply_update :: "update \<Rightarrow> MessageLog list \<Rightarrow> MessageLog list" where
  "apply_update (UpdateOne i c) ls = (if i < length ls then ls[i := change_log c (ls ! i)] else ls)"

subsection \<open>The environment and the state\<close>

text \<open>
  What the run does not decide is read from an environment:
  \<^item> \<open>gateway p k req\<close>: the HTTP client's result for the request \<open>req\<close>, posted in attempt
    number \<open>k\<close> (from 0) for the recipient at position \<open>p\<close> of the operation's list;
  \<^item> the faults of the store: of \<open>BulkOperationModel.create\<close>, of the \<open>n\<close>-th call of
    \<open>bulkOperation.save()\<close>, and, for the batch that starts at position \<open>p\<close>, of
    \<open>insertMany\<close>, of \<open>bulkWrite\<close> (with the number of updates applied before the fault)
    and of the \<open>j\<close>-th \<open>findByIdAndUpdate\<close> of the fallback;
  \<^item> \<open>now n\<close>: the clock read by \<open>new Date()\<close> after \<open>n\<close> calls of \<open>save\<close>.
\<close>

record env =
  gateway :: "nat \<Rightarrow> nat \<Rightarrow> request \<Rightarrow> axios_result"
  create_fault :: "js_error option"
  save_fault :: "nat \<Rightarrow> js_error option"
  insertMany_fault :: "nat \<Rightarrow> js_error option"
  bulkWrite_fault :: "nat \<Rightarrow> (nat \<times> js_error) option"
  findByIdAndUpdate_fault :: "nat \<Rightarrow> nat \<Rightarrow> js_error option"
  now :: "nat \<Rightarrow> nat"

text \<open>
  What is observed of a run: each call of a gateway wrapper (position and the recipient
  handed to it), each pause (milliseconds), and the two error lines of the batch update.
\<close>

datatype event =
    Attempt nat string
  | Wait nat
  | BatchUpdateError js_error
  | IndividualUpdateFailed nat js_error

text \<open>
  The state: the collection of message logs, the stored document of the operation, every
  call of \<open>create\<close> or \<open>save\<close> on it so far (the document handed over, and whether the
  store took it), and the events.
\<close>

record world =
  logs :: "MessageLog list"
  operation :: "BulkOperation option"
  save_calls :: "(BulkOperation \<times> bool) list"
  events :: "event list"

text \<open>The documents the store took, in order: what a poller can have seen.\<close>

definition checkpoints :: "world \<Rightarrow> BulkOperation list" where
  "checkpoints w = map fst (filter snd (save_calls w))"

text \<open>How a call ends: it returns, it throws, or it never returns.\<close>

datatype 'a outcome = Return 'a | Throw js_error | Hang

definition save :: "env \<Rightarrow> BulkOperation \<Rightarrow> world \<Rightarrow> js_error option \<times> world" where
  "save ev doc w =
     (case save_fault ev (length (save_calls w)) of
        None \<Rightarrow> (None, w\<lparr>operation := Some doc, save_calls := save_calls w @ [(doc, True)]\<rparr>)
      | Some e \<Rightarrow> (Some e, w\<lparr>save_calls := save_calls w @ [(doc, False)]\<rparr>))"

definition insertMany ::
  "env \<Rightarrow> nat \<Rightarrow> MessageLog list \<Rightarrow> world \<Rightarrow> js_error + (nat list \<times> world)" where
  "insertMany ev key docs w =
     (case insertMany_fault ev key of
        Some e \<Rightarrow> Inl e
      | None \<Rightarrow> Inr ([length (logs w) ..< length (logs w) + length docs],
                      w\<lparr>logs := logs w @ docs\<rparr>))"

definition add_events :: "event list \<Rightarrow> world \<Rightarrow> world" where
  "add_events evs w = w\<lparr>events := events w @ evs\<rparr>"

subsection \<open>One recipient (\<open>processBatchWithConcurrency\<close>, the callback of \<open>chunk.map\<close>)\<close>

record BulkMessageData =
  data_type :: message_type
  messageContent :: "string option"
  mediaUrl :: "string option"
  imageUrl :: "string option"
  documentUrl :: "string option"
  mediaId :: "string option"
  caption :: "string option"
  mobileNumbers :: "string list"

text \<open>The \<open>switch (type)\<close> of the retry loop: which wrapper is called, with what.\<close>

definition send_by_type ::
  "BulkMessageData \<Rightarrow> (request \<Rightarrow> axios_result) \<Rightarrow> string \<Rightarrow> js_error + response_data" where
  "send_by_type md post mobileNumber =
     (case data_type md of
        TEXT \<Rightarrow> sendText post mobileNumber (messageContent md)
      | IMAGE \<Rightarrow> sendImage post mobileNumber (js_or (imageUrl md) (mediaUrl md)) None (caption md)
      | DOCUMENT \<Rightarrow>
          (case truthy_string (mediaId md) of
             Some m \<Rightarrow> sendDocumentByMediaId post mobileNumber m
           | None \<Rightarrow>
               sendDocument post mobileNumber (js_or (documentUrl md) (mediaUrl md)) (caption md)))"

definition maxRetries :: nat where
  "maxRetries = 2"

text \<open>
  The retry loop, entered with the current value of \<open>retries\<close>:
  \<^verbatim>\<open>
  while (retries <= maxRetries) {
    try { result = await send...; break; }
    catch (retryError) {
      retries++;
      if (retries > maxRetries) { throw retryError; }
      await new Promise(resolve => setTimeout(resolve, Math.pow(2, retries) * 1000));
    }
  }
  \<close>
  \<open>send k\<close> is the call of the wrapper in attempt \<open>k\<close>. The loop gives the error it throws
  or the value of \<open>result\<close> (\<open>None\<close>: still \<open>undefined\<close>), with the events in order.
\<close>

function retry_loop ::
  "(nat \<Rightarrow> js_error + response_data) \<Rightarrow> nat \<Rightarrow> string \<Rightarrow> nat \<Rightarrow>
   (js_error + response_data option) \<times> event list" where
  "retry_loop send p mobileNumber retries =
     (if retries \<le> maxRetries then
        (case send retries of
           Inr result \<Rightarrow> (Inr (Some result), [Attempt p mobileNumber])
         | Inl retryError \<Rightarrow>
             if maxRetries < retries + 1 then (Inl retryError, [Attempt p mobileNumber])
             else
               (case retry_loop send p mobileNumber (retries + 1) of
                  (r, evs) \<Rightarrow>
                    (r, Attempt p mobileNumber # Wait (2 ^ (retries + 1) * 1000) # evs)))
      else (Inr None, []))"
  by pat_completeness auto
termination
  by (relation "measure (\<lambda>(send, p, mobileNumber, retries). 3 - retries)")
    (auto simp: maxRetries_def)

declare retry_loop.simps [simp del]

text \<open>\<open>result?.messages?.[0]?.id\<close>\<close>

definition first_message_id :: "response_data option \<Rightarrow> string option" where
  "first_message_id result =
     (case result of
        None \<Rightarrow> None
      | Some d \<Rightarrow>
          (case messages d of None \<Rightarrow> None | Some [] \<Rightarrow> None | Some (m # rest) \<Rightarrow> msg_id m))"

text \<open>
  What the promise of one recipient settles to, \<open>{success: true, mobileNumber,
  waMessageId}\<close> or \<open>{success: false, mobileNumber, error}\<close>, or a rejection.
\<close>

datatype worker_result = Sent string "string option" | NotSent string string

datatype promise_result = Fulfilled worker_result | PromiseRejected js_error

fun is_success :: "promise_result \<Rightarrow> bool" where
  "is_success (Fulfilled (Sent mobileNumber wid)) = True"
| "is_success (Fulfilled (NotSent mobileNumber detail)) = False"
| "is_success (PromiseRejected e) = False"

text \<open>
  Reading \<open>messageLog._id\<close> of an \<open>undefined\<close> message log throws a \<open>TypeError\<close>; in the
  callback it is read in the \<open>try\<close> and again in the \<open>catch\<close>, so the promise rejects
  and no update is pushed.
\<close>

definition undefined_id_error :: js_error where
  "undefined_id_error =
     \<lparr>err_class = TypeError, err_message = ''Cannot read properties of undefined'',
      err_response = None\<rparr>"

text \<open>
  The callback for the recipient at position \<open>p\<close> of the operation, at \<open>index\<close> of its
  chunk: the settled promise, the updates pushed to \<open>bulkUpdates\<close>, the events.
  \<open>createdLogs\<close> holds the ids \<open>insertMany\<close> returned, in the order of the batch. The
  message log is \<open>createdLogs[index]\<close>, with the index \<open>map\<close> passes: the index in the
  chunk.
\<close>

definition run_worker ::
  "env \<Rightarrow> BulkMessageData \<Rightarrow> nat list \<Rightarrow> nat \<Rightarrow> nat \<Rightarrow> string \<Rightarrow>
   promise_result \<times> update list \<times> event list" where
  "run_worker ev md createdLogs p index mobileNumber =
     (let messageLog = at_index createdLogs index in
      case retry_loop (\<lambda>retries. send_by_type md (gateway ev p retries) mobileNumber)
             p mobileNumber 0 of
        (Inr result, evs) \<Rightarrow>
          (case messageLog of
             Some i \<Rightarrow>
               (Fulfilled (Sent mobileNumber (first_message_id result)),
                [UpdateOne i (SetSent (first_message_id result))], evs)
           | None \<Rightarrow> (PromiseRejected undefined_id_error, [], evs))
      | (Inl err, evs) \<Rightarrow>
          (case messageLog of
             Some i \<Rightarrow>
               (Fulfilled (NotSent mobileNumber (error_detail err)),
                [UpdateOne i (SetFailed (error_detail err))], evs)
           | None \<Rightarrow> (PromiseRejected undefined_id_error, [], evs)))"

subsection \<open>One batch (\<open>processBatchWithConcurrency\<close>)\<close>

text \<open>
  \<open>chunk.map(async (mobileNumber, index) => ...)\<close> followed by \<open>Promise.allSettled\<close>: the
  callbacks of a chunk, in the order of the chunk; \<open>p\<close> is the position of the chunk's first
  recipient. The callbacks of a chunk run interleaved and push their updates as they
  complete; here they are listed in the order of the chunk. They have different indices,
  so their updates are for different message logs, and the gateway's answers are fixed by
  the environment: the order inside a chunk changes neither the counters nor, when the
  updates are written, the message logs.
\<close>

definition run_chunk ::
  "(nat \<Rightarrow> nat \<Rightarrow> string \<Rightarrow> promise_result \<times> update list \<times> event list) \<Rightarrow> nat \<Rightarrow> string list \<Rightarrow>
   (promise_result \<times> update list \<times> event list) list" where
  "run_chunk worker p chunk =
     map (\<lambda>(index, mobileNumber). worker (p + index) index mobileNumber) (enumerate 0 chunk)"

text \<open>
  \<open>for (const chunk of concurrencyChunks)\<close>, on the counters \<open>successCount\<close> and
  \<open>failedCount\<close>, the array \<open>bulkUpdates\<close> and the events: the chunk's promises, the count
  of the results, and the pause of 25 ms after every chunk but the last.
\<close>

fun chunk_loop ::
  "(nat \<Rightarrow> nat \<Rightarrow> string \<Rightarrow> promise_result \<times> update list \<times> event list) \<Rightarrow> nat \<Rightarrow>
   string list list \<Rightarrow> nat \<times> nat \<times> update list \<times> event list \<Rightarrow>
   nat \<times> nat \<times> update list \<times> event list" where
  "chunk_loop worker p [] acc = acc"
| "chunk_loop worker p (chunk # rest) (s, f, bulkUpdates, evs) =
     (let results = run_chunk worker p chunk in
      chunk_loop worker (p + length chunk) rest
        (s + length (filter is_success (map fst results)),
         f + length (filter (\<lambda>r. \<not> is_success r) (map fst results)),
         bulkUpdates @ concat (map (\<lambda>r. fst (snd r)) results),
         evs @ concat (map (\<lambda>r. snd (snd r)) results) @ (if rest \<noteq> [] then [Wait 25] else [])))"

text \<open>
  \<open>MessageLogModel.bulkWrite(bulkUpdates)\<close>: the updates in order; on a fault the updates
  before it stay applied and the call throws.
\<close>

definition bulkWrite ::
  "env \<Rightarrow> nat \<Rightarrow> update list \<Rightarrow> world \<Rightarrow> js_error option \<times> world" where
  "bulkWrite ev key bulkUpdates w =
     (case bulkWrite_fault ev key of
        None \<Rightarrow> (None, w\<lparr>logs := fold apply_update bulkUpdates (logs w)\<rparr>)
      | Some (k, e) \<Rightarrow> (Some e, w\<lparr>logs := fold apply_update (take k bulkUpdates) (logs w)\<rparr>))"

text \<open>
  The fallback: \<open>findByIdAndUpdate\<close> for each update in turn, from the \<open>j\<close>-th; a failing
  one is logged and the loop goes on.
\<close>

fun fallback_loop :: "env \<Rightarrow> nat \<Rightarrow> nat \<Rightarrow> update list \<Rightarrow> world \<Rightarrow> world" where
  "fallback_loop ev key j [] w = w"
| "fallback_loop ev key j (UpdateOne i c # rest) w =
     fallback_loop ev key (Suc j) rest
       (case findByIdAndUpdate_fault ev key j of
          None \<Rightarrow> w\<lparr>logs := apply_update (UpdateOne i c) (logs w)\<rparr>
        | Some individualError \<Rightarrow> add_events [IndividualUpdateFailed i individualError] w)"

text \<open>
  \<^verbatim>\<open>
  if (bulkUpdates.length > 0) {
    try { await MessageLogModel.bulkWrite(bulkUpdates); }
    catch (error) { console.error(...); for (const update of bulkUpdates) { try { await
      MessageLogModel.findByIdAndUpdate(...) } catch (individualError) { console.error(...) } } }
  }
  \<close>
\<close>

definition write_updates :: "env \<Rightarrow> nat \<Rightarrow> update list \<Rightarrow> world \<Rightarrow> world" where
  "write_updates ev key bulkUpdates w =
     (if bulkUpdates \<noteq> [] then
        (case bulkWrite ev key bulkUpdates w of
           (None, w') \<Rightarrow> w'
         | (Some e, w') \<Rightarrow> fallback_loop ev key 0 bulkUpdates (add_events [BatchUpdateError e] w'))
      else w)"

record batch_result =
  processed :: nat
  success :: nat
  failed :: nat

text \<open>
  \<open>processBatchWithConcurrency(mobileNumbers, messageData, operationId, startIndex, config)\<close>.
  The message logs are created with \<open>to: formatMobileNumber(mobileNumbers[i])\<close>; the
  chunks are cut from \<open>mobileNumbers\<close> itself. \<open>startIndex\<close> is the position of the batch's
  first recipient (\<open>batchIndex * config.BATCH_SIZE\<close>).
\<close>

definition processBatchWithConcurrency ::
  "env \<Rightarrow> string list \<Rightarrow> BulkMessageData \<Rightarrow> nat \<Rightarrow> config \<Rightarrow> world \<Rightarrow> batch_result outcome \<times> world" where
  "processBatchWithConcurrency ev numbers md startIndex cfg w =
     (case insertMany ev startIndex
             (map (\<lambda>n. queued_log (formatMobileNumber n) (data_type md)) numbers) w of
        Inl e \<Rightarrow> (Throw e, w)
      | Inr (createdLogs, w1) \<Rightarrow>
          (case batches numbers (CONCURRENCY_LIMIT cfg) of
             None \<Rightarrow> (Hang, w1)
           | Some concurrencyChunks \<Rightarrow>
               (case chunk_loop (run_worker ev md createdLogs) startIndex concurrencyChunks
                       (0, 0, [], []) of
                  (s, f, bulkUpdates, evs) \<Rightarrow>
                    (Return \<lparr>processed = length numbers, success = s, failed = f\<rparr>,
                     write_updates ev startIndex bulkUpdates (add_events evs w1)))))"

subsection \<open>The operation (\<open>processBulkMessagesInBackground\<close>, \<open>processBulkMessage\<close>)\<close>

text \<open>
  The batch loop, from \<open>batchIndex\<close> on, over the batches still to do; \<open>n\<close> is
  \<open>batches.length\<close>, \<open>doc\<close> the document \<open>bulkOperation\<close> in memory, and the triple the local
  counters \<open>processedCount\<close>, \<open>successCount\<close>, \<open>failedCount\<close>. A throw leaves the loop with
  the document as it is then. The tests \<open>batchIndex === batches.length - 1\<close> and
  \<open>batchIndex < batches.length - 1\<close> are written without the subtraction.
\<close>

fun run_batches ::
  "env \<Rightarrow> BulkMessageData \<Rightarrow> config \<Rightarrow> nat \<Rightarrow> nat \<Rightarrow> string list list \<Rightarrow> BulkOperation \<Rightarrow>
   nat \<times> nat \<times> nat \<Rightarrow> world \<Rightarrow> unit outcome \<times> BulkOperation \<times> world" where
  "run_batches ev md cfg n batchIndex [] doc counters w = (Return (), doc, w)"
| "run_batches ev md cfg n batchIndex (batch # rest) doc (pc, sc, fc) w =
     (case processBatchWithConcurrency ev batch md (batchIndex * BATCH_SIZE cfg) cfg w of
        (Throw e, w1) \<Rightarrow> (Throw e, doc, w1)
      | (Hang, w1) \<Rightarrow> (Hang, doc, w1)
      | (Return batchResults, w1) \<Rightarrow>
          (let pc' = pc + processed batchResults;
               sc' = sc + success batchResults;
               fc' = fc + failed batchResults;
               doc' = doc\<lparr>processedCount := pc', successCount := sc', failedCount := fc'\<rparr>
           in
           case (if batchIndex mod 3 = 0 \<or> batchIndex + 1 = n then save ev doc' w1
                 else (None, w1)) of
             (Some e, w2) \<Rightarrow> (Throw e, doc', w2)
           | (None, w2) \<Rightarrow>
               run_batches ev md cfg n (batchIndex + 1) rest doc' (pc', sc', fc')
                 (if batchIndex + 1 < n then add_events [Wait (RATE_LIMIT_DELAY cfg)] w2
                  else w2)))"

text \<open>
  The \<open>catch\<close> block of \<open>processBulkMessagesInBackground\<close>: the operation is marked
  failed and saved; a fault of that save leaves the function as a rejection.
\<close>

definition mark_failed :: "env \<Rightarrow> js_error \<Rightarrow> BulkOperation \<Rightarrow> world \<Rightarrow> unit outcome \<times> world" where
  "mark_failed ev e doc w =
     (case save ev
             (doc\<lparr>op_status := OPERATION_FAILED, op_error := Some (String_error e),
                  completedAt := Some (now ev (length (save_calls w)))\<rparr>) w of
        (None, w') \<Rightarrow> (Return (), w')
      | (Some e', w') \<Rightarrow> (Throw e', w'))"

text \<open>
  \<open>processBulkMessagesInBackground(operationId, mobileNumbers, messageData)\<close>; the stored
  document of the operation is what \<open>findById\<close> returns.
\<close>

definition processBulkMessagesInBackground ::
  "env \<Rightarrow> string list \<Rightarrow> BulkMessageData \<Rightarrow> world \<Rightarrow> unit outcome \<times> world" where
  "processBulkMessagesInBackground ev numbers md w =
     (case operation w of
        None \<Rightarrow> (Return (), w)
      | Some bulkOperation \<Rightarrow>
          (case save ev (bulkOperation\<lparr>op_status := PROCESSING\<rparr>) w of
             (Some e, w1) \<Rightarrow> (Throw e, w1)
           | (None, w1) \<Rightarrow>
               (let cfg = getOptimalConfig (int (length numbers)) in
                case batches numbers (BATCH_SIZE cfg) of
                  None \<Rightarrow> (Hang, w1)
                | Some bs \<Rightarrow>
                    (case run_batches ev md cfg (length bs) 0 bs
                            (bulkOperation\<lparr>op_status := PROCESSING\<rparr>) (0, 0, 0) w1 of
                       (Hang, doc, w2) \<Rightarrow> (Hang, w2)
                     | (Throw e, doc, w2) \<Rightarrow> mark_failed ev e doc w2
                     | (Return u, doc, w2) \<Rightarrow>
                         (case save ev
                                 (doc\<lparr>op_status := COMPLETED,
                                      completedAt := Some (now ev (length (save_calls w2)))\<rparr>)
                                 w2 of
                            (None, w3) \<Rightarrow> (Return (), w3)
                          | (Some e, w3) \<Rightarrow>
                              mark_failed ev e
                                (doc\<lparr>op_status := COMPLETED,
                                     completedAt := Some (now ev (length (save_calls w2)))\<rparr>)
                                w3)))))"

text \<open>
  \<open>processBulkMessage(data)\<close>: the operation is created with \<open>totalRecipients:
  mobileNumbers.length\<close>, the counters 0 and the status \<open>PENDING\<close>, then processed. (The
  source does not await the processing; the state is taken when it has ended.)
\<close>

definition processBulkMessage :: "env \<Rightarrow> BulkMessageData \<Rightarrow> world \<Rightarrow> unit outcome \<times> world" where
  "processBulkMessage ev md w =
     (case create_fault ev of
        Some e \<Rightarrow> (Throw e, w)
      | None \<Rightarrow>
          (let doc = \<lparr>totalRecipients = length (mobileNumbers md), processedCount = 0,
                      successCount = 0, failedCount = 0, op_status = PENDING,
                      op_error = None, completedAt = None\<rparr>
           in processBulkMessagesInBackground ev (mobileNumbers md) md
                (w\<lparr>operation := Some doc, save_calls := save_calls w @ [(doc, True)]\<rparr>)))"

text \<open>The state before an operation: no message log, no operation, nothing observed.\<close>

definition empty_world :: world where
  "empty_world = \<lparr>logs = [], operation = None, save_calls = [], events = []\<rparr>"

subsection \<open>The route \<open>/csv-bulk-document\<close> (\<open>routes/send.ts\<close>)\<close>

text \<open>
  The callback of the route for the recipient at position \<open>p\<close>: one call of
  \<open>sendDocumentByMediaId\<close>, no retry. The message log is
  \<open>createdLogs[batch.indexOf(mobileNumber)]\<close>.
\<close>

definition route_worker ::
  "env \<Rightarrow> string \<Rightarrow> nat list \<Rightarrow> string list \<Rightarrow> nat \<Rightarrow> nat \<Rightarrow> string \<Rightarrow>
   promise_result \<times> update list \<times> event list" where
  "route_worker ev media createdLogs batch p index mobileNumber =
     (let messageLog =
            (case indexOf batch mobileNumber of
               None \<Rightarrow> None
             | Some batchIndex \<Rightarrow> at_index createdLogs batchIndex)
      in
      case sendDocumentByMediaId (gateway ev p 0) mobileNumber media of
        Inr d \<Rightarrow>
          (case messageLog of
             Some i \<Rightarrow>
               (Fulfilled (Sent mobileNumber (first_message_id (Some d))),
                [UpdateOne i (SetSent (first_message_id (Some d)))], [Attempt p mobileNumber])
           | None \<Rightarrow> (PromiseRejected undefined_id_error, [], [Attempt p mobileNumber]))
      | Inl err \<Rightarrow>
          (case messageLog of
             Some i \<Rightarrow>
               (Fulfilled (NotSent mobileNumber (error_detail err)),
                [UpdateOne i (SetFailed (error_detail err))], [Attempt p mobileNumber])
           | None \<Rightarrow> (PromiseRejected undefined_id_error, [], [Attempt p mobileNumber])))"

text \<open>
  The batch update of the route: a fault of \<open>bulkWrite\<close> is logged, nothing else.
  \<^verbatim>\<open>
  if (bulkUpdates.length > 0) {
    try { await MessageLogModel.bulkWrite(bulkUpdates); }
    catch (error) { console.error('Error in batch update:', error); }
  }
  \<close>
\<close>

definition route_write_updates :: "env \<Rightarrow> nat \<Rightarrow> update list \<Rightarrow> world \<Rightarrow> world" where
  "route_write_updates ev key bulkUpdates w =
     (if bulkUpdates \<noteq> [] then
        (case bulkWrite ev key bulkUpdates w of
           (None, w') \<Rightarrow> w'
         | (Some e, w') \<Rightarrow> add_events [BatchUpdateError e] w')
      else w)"

text \<open>
  The batch loop of the route, with \<open>BATCH_SIZE = 10\<close>, \<open>CONCURRENCY_LIMIT = 5\<close> and
  \<open>RATE_LIMIT_DELAY = 50\<close>. The counters \<open>successCount\<close> and \<open>failedCount\<close> run over the
  whole operation; \<open>bulkUpdates\<close> is new in every batch.
\<close>

fun route_batches ::
  "env \<Rightarrow> string \<Rightarrow> nat \<Rightarrow> nat \<Rightarrow> string list list \<Rightarrow> BulkOperation \<Rightarrow> nat \<times> nat \<times> nat \<Rightarrow> world \<Rightarrow>
   unit outcome \<times> BulkOperation \<times> world" where
  "route_batches ev media n batchIndex [] doc counters w = (Return (), doc, w)"
| "route_batches ev media n batchIndex (batch # rest) doc (pc, sc, fc) w =
     (case insertMany ev (batchIndex * 10) (map (\<lambda>m. queued_log m DOCUMENT) batch) w of
        Inl e \<Rightarrow> (Throw e, doc, w)
      | Inr (createdLogs, w1) \<Rightarrow>
          (case batches batch 5 of
             None \<Rightarrow> (Hang, doc, w1)
           | Some concurrencyChunks \<Rightarrow>
               (case chunk_loop (route_worker ev media createdLogs batch) (batchIndex * 10)
                       concurrencyChunks (sc, fc, [], []) of
                  (sc', fc', bulkUpdates, evs) \<Rightarrow>
                    (let w2 = route_write_updates ev (batchIndex * 10) bulkUpdates
                                (add_events evs w1);
                         pc' = pc + length batch;
                         doc' = doc\<lparr>processedCount := pc', successCount := sc',
                                    failedCount := fc'\<rparr>
                     in
                     case (if batchIndex mod 3 = 0 \<or> batchIndex + 1 = n then save ev doc' w2
                           else (None, w2)) of
                       (Some e, w3) \<Rightarrow> (Throw e, doc', w3)
                     | (None, w3) \<Rightarrow>
                         route_batches ev media n (batchIndex + 1) rest doc' (pc', sc', fc')
                           (if batchIndex + 1 < n then add_events [Wait 50] w3 else w3)))))"

text \<open>
  The route from the check of the parsed CSV file to the last save of the operation, for
  the mobile numbers of the file and the media id of the uploaded document. A file without
  mobile numbers is refused with a \<open>ValidationError\<close> (whose name is \<open>Error\<close>) before the
  operation is created. Every throw is caught by the
  handler's \<open>catch\<close>, which answers 500 and does not touch the operation. (The clean-up of
  files after the last save is left out.)
\<close>

definition csv_bulk_document :: "env \<Rightarrow> string list \<Rightarrow> string \<Rightarrow> world \<Rightarrow> unit outcome \<times> world" where
  "csv_bulk_document ev numbers media w =
     (if numbers = [] then
        (Throw (new_Error ''No valid mobile numbers found in CSV file''), w)
      else
      case create_fault ev of
        Some e \<Rightarrow> (Throw e, w)
      | None \<Rightarrow>
          (let doc = \<lparr>totalRecipients = length numbers, processedCount = 0,
                      successCount = 0, failedCount = 0, op_status = PENDING,
                      op_error = None, completedAt = None\<rparr>;
               w0 = w\<lparr>operation := Some doc, save_calls := save_calls w @ [(doc, True)]\<rparr>
           in
           case save ev (doc\<lparr>op_status := PROCESSING\<rparr>) w0 of
             (Some e, w1) \<Rightarrow> (Throw e, w1)
           | (None, w1) \<Rightarrow>
               (case batches numbers 10 of
                  None \<Rightarrow> (Hang, w1)
                | Some bs \<Rightarrow>
                    (case route_batches ev media (length bs) 0 bs (doc\<lparr>op_status := PROCESSING\<rparr>)
                            (0, 0, 0) w1 of
                       (Hang, doc', w2) \<Rightarrow> (Hang, w2)
                     | (Throw e, doc', w2) \<Rightarrow> (Throw e, w2)
                     | (Return u, doc', w2) \<Rightarrow>
                         (case save ev
                                 (doc'\<lparr>op_status := COMPLETED,
                                       completedAt := Some (now ev (length (save_calls w2)))\<rparr>)
                                 w2 of
                            (None, w3) \<Rightarrow> (Return (), w3)
                          | (Some e, w3) \<Rightarrow> (Throw e, w3))))))"

subsection \<open>States of the operation document\<close>

text \<open>
  A fault of the store that the \<open>try\<close> block of \<open>processBulkMessagesInBackground\<close> can
  meet, the fields a checkpoint leaves alone, and the three shapes of the document: before
  the end, completed, and failed with the text of an error.
\<close>

abbreviation store_fault :: "env \<Rightarrow> js_error \<Rightarrow> bool" where
  "store_fault ev e \<equiv>
     (\<exists>k. save_fault ev k = Some e) \<or> (\<exists>s. insertMany_fault ev s = Some e)"

abbreviation unchanged_state :: "BulkOperation \<Rightarrow> BulkOperation \<Rightarrow> bool" where
  "unchanged_state d doc \<equiv>
     op_status d = op_status doc \<and> op_error d = op_error doc \<and> completedAt d = completedAt doc"

abbreviation running :: "BulkOperation \<Rightarrow> bool" where
  "running d \<equiv>
     (op_status d = PENDING \<or> op_status d = PROCESSING) \<and> op_error d = None \<and>
     completedAt d = None"

abbreviation completed :: "BulkOperation \<Rightarrow> bool" where
  "completed d \<equiv> op_status d = COMPLETED \<and> op_error d = None \<and> completedAt d \<noteq> None"

abbreviation failed_with :: "BulkOperation \<Rightarrow> js_error \<Rightarrow> bool" where
  "failed_with d e \<equiv>
     op_status d = OPERATION_FAILED \<and> op_error d = Some (String_error e) \<and>
     String_error e \<noteq> [] \<and> completedAt d \<noteq> None"

subsection \<open>Runs used as examples\<close>

text \<open>An environment whose store never faults, around a given gateway.\<close>

definition no_faults :: "(nat \<Rightarrow> nat \<Rightarrow> request \<Rightarrow> axios_result) \<Rightarrow> env" where
  "no_faults g =
     \<lparr>gateway = g, create_fault = None, save_fault = (\<lambda>n. None),
      insertMany_fault = (\<lambda>p. None), bulkWrite_fault = (\<lambda>p. None),
      findByIdAndUpdate_fault = (\<lambda>p j. None), now = (\<lambda>n. n)\<rparr>"

text \<open>A well-formed answer of the gateway, with the message id \<open>wid\<close>.\<close>

definition delivered :: "string \<Rightarrow> axios_result" where
  "delivered wid = Resolved (Some \<lparr>messages = Some [\<lparr>msg_id = Some wid\<rparr>]\<rparr>)"

text \<open>
  Two rejections of the HTTP client: a timeout (no response), and the gateway's answer for
  a number that is not registered (code 131026).
\<close>

definition timeout_error :: js_error where
  "timeout_error =
     \<lparr>err_class = AxiosError, err_message = ''timeout of 10000ms exceeded'',
      err_response = None\<rparr>"

definition unregistered_error :: js_error where
  "unregistered_error =
     \<lparr>err_class = AxiosError, err_message = ''Request failed with status code 400'',
      err_response = Some (JsonObject
        (Some \<lparr>wa_code = 131026, wa_message = Some ''Message undeliverable''\<rparr>)
        ''error: code 131026'')\<rparr>"

definition storage_error :: js_error where
  "storage_error =
     \<lparr>err_class = MongoError, err_message = ''connection closed'', err_response = None\<rparr>"

definition text_message :: "string list \<Rightarrow> BulkMessageData" where
  "text_message numbers =
     \<lparr>data_type = TEXT, messageContent = Some ''hello'', mediaUrl = None, imageUrl = None,
      documentUrl = None, mediaId = None, caption = None, mobileNumbers = numbers\<rparr>"

text \<open>A gateway that answers every request with a message id made of its recipient.\<close>

definition echo :: "nat \<Rightarrow> nat \<Rightarrow> request \<Rightarrow> axios_result" where
  "echo p k req = delivered (''wamid.'' @ request_to req)"

text \<open>A store whose \<open>bulkWrite\<close> always throws before its first update, and nothing else.\<close>

definition bulkWrite_down :: "(nat \<Rightarrow> nat \<Rightarrow> request \<Rightarrow> axios_result) \<Rightarrow> env" where
  "bulkWrite_down g = (no_faults g)\<lparr>bulkWrite_fault := (\<lambda>key. Some (0, storage_error))\<rparr>"



text \<open>A gateway that rejects every request, with an error that names its recipient.\<close>

definition no_route :: "string \<Rightarrow> js_error" where
  "no_route m = \<lparr>err_class = AxiosError, err_message = ''no route to '' @ m, err_response = None\<rparr>"

definition refuse :: "nat \<Rightarrow> nat \<Rightarrow> request \<Rightarrow> axios_result" where
  "refuse p k req = Rejected (no_route (request_to req))"

section \<open>Properties\<close>

subsection \<open>The concurrency plan\<close>

text \<open>
  C4. The plan is a function of the recipient count alone, defined for every integer:
  the six tiers give the batch size, the concurrency width and the delay of the table,
  and the product of batch size and concurrency width is positive for every count.
\<close>

theorem getOptimalConfig_tiers:
  "(n \<le> 20 \<longrightarrow>
      getOptimalConfig n = \<lparr>CONCURRENCY_LIMIT = 2, BATCH_SIZE = 5, RATE_LIMIT_DELAY = 200\<rparr>) \<and>
   (20 < n \<and> n \<le> 50 \<longrightarrow>
      getOptimalConfig n = \<lparr>CONCURRENCY_LIMIT = 3, BATCH_SIZE = 8, RATE_LIMIT_DELAY = 150\<rparr>) \<and>
   (50 < n \<and> n \<le> 200 \<longrightarrow>
      getOptimalConfig n = \<lparr>CONCURRENCY_LIMIT = 5, BATCH_SIZE = 15, RATE_LIMIT_DELAY = 100\<rparr>) \<and>
   (200 < n \<and> n \<le> 500 \<longrightarrow>
      getOptimalConfig n = \<lparr>CONCURRENCY_LIMIT = 8, BATCH_SIZE = 25, RATE_LIMIT_DELAY = 75\<rparr>) \<and>
   (500 < n \<and> n \<le> 1000 \<longrightarrow>
      getOptimalConfig n = \<lparr>CONCURRENCY_LIMIT = 10, BATCH_SIZE = 40, RATE_LIMIT_DELAY = 50\<rparr>) \<and>
   (1000 < n \<longrightarrow>
      getOptimalConfig n = \<lparr>CONCURRENCY_LIMIT = 12, BATCH_SIZE = 60, RATE_LIMIT_DELAY = 25\<rparr>) \<and>
   0 < BATCH_SIZE (getOptimalConfig n) * CONCURRENCY_LIMIT (getOptimalConfig n)"
  by (simp add: getOptimalConfig_def)

theorem getOptimalConfig_tiers_witness:
  "getOptimalConfig 20 = \<lparr>CONCURRENCY_LIMIT = 2, BATCH_SIZE = 5, RATE_LIMIT_DELAY = 200\<rparr> \<and>
   getOptimalConfig 21 = \<lparr>CONCURRENCY_LIMIT = 3, BATCH_SIZE = 8, RATE_LIMIT_DELAY = 150\<rparr> \<and>
   getOptimalConfig 200 = \<lparr>CONCURRENCY_LIMIT = 5, BATCH_SIZE = 15, RATE_LIMIT_DELAY = 100\<rparr> \<and>
   getOptimalConfig 201 = \<lparr>CONCURRENCY_LIMIT = 8, BATCH_SIZE = 25, RATE_LIMIT_DELAY = 75\<rparr> \<and>
   getOptimalConfig 1000 = \<lparr>CONCURRENCY_LIMIT = 10, BATCH_SIZE = 40, RATE_LIMIT_DELAY = 50\<rparr> \<and>
   getOptimalConfig 1001 = \<lparr>CONCURRENCY_LIMIT = 12, BATCH_SIZE = 60, RATE_LIMIT_DELAY = 25\<rparr> \<and>
   0 < BATCH_SIZE (getOptimalConfig (-3)) * CONCURRENCY_LIMIT (getOptimalConfig (-3))"
  using getOptimalConfig_tiers [of 20] getOptimalConfig_tiers [of 21]
    getOptimalConfig_tiers [of 200] getOptimalConfig_tiers [of 201]
    getOptimalConfig_tiers [of 1000] getOptimalConfig_tiers [of 1001]
    getOptimalConfig_tiers [of "-3"]
  by simp

subsection \<open>Batching\<close>

lemma batch_loop_step:
  "i < length xs \<Longrightarrow> 0 < b \<Longrightarrow>
   batch_loop xs b i = slice xs i (i + b) # batch_loop xs b (i + b)"
  by (subst batch_loop.simps) simp

lemma batch_loop_stop: "\<not> (i < length xs \<and> 0 < b) \<Longrightarrow> batch_loop xs b i = []"
  by (subst batch_loop.simps) simp

lemma slice_take_drop: "slice xs i (i + b) = take b (drop i xs)"
  by (simp add: slice_def drop_take)

lemma concat_batch_loop: "0 < b \<Longrightarrow> concat (batch_loop xs b i) = drop i xs"
proof (induction xs b i rule: batch_loop.induct)
  case (1 xs b i)
  show ?case
  proof (cases "i < length xs")
    case True
    with 1 have "concat (batch_loop xs b (i + b)) = drop (i + b) xs" by simp
    moreover have "take b (drop i xs) @ drop (i + b) xs = drop i xs"
      by (metis add.commute append_take_drop_id drop_drop)
    ultimately show ?thesis using True 1(2)
      by (simp add: batch_loop_step slice_take_drop)
  next
    case False
    then show ?thesis by (simp add: batch_loop_stop)
  qed
qed

lemma batch_loop_sizes:
  "0 < b \<Longrightarrow> batch \<in> set (batch_loop xs b i) \<Longrightarrow>
   1 \<le> length batch \<and> length batch \<le> b"
proof (induction xs b i rule: batch_loop.induct)
  case (1 xs b i)
  show ?case
  proof (cases "i < length xs")
    case True
    from 1(3) True 1(2)
    have "batch = slice xs i (i + b) \<or> batch \<in> set (batch_loop xs b (i + b))"
      by (simp add: batch_loop_step)
    then show ?thesis
    proof
      assume "batch = slice xs i (i + b)"
      then show ?thesis using True 1(2) by (simp add: slice_take_drop)
    next
      assume "batch \<in> set (batch_loop xs b (i + b))"
      then show ?thesis using 1(1) True 1(2) by simp
    qed
  next
    case False
    with 1(3) show ?thesis by (simp add: batch_loop_stop)
  qed
qed

lemma batch_loop_full:
  "0 < b \<Longrightarrow> Suc k < length (batch_loop xs b i) \<Longrightarrow>
   length (batch_loop xs b i ! k) = b"
proof (induction xs b i arbitrary: k rule: batch_loop.induct)
  case (1 xs b i)
  show ?case
  proof (cases "i < length xs")
    case True
    have unf: "batch_loop xs b i = slice xs i (i + b) # batch_loop xs b (i + b)"
      using True 1(2) by (simp add: batch_loop_step)
    show ?thesis
    proof (cases k)
      case 0
      with 1(3) unf have "batch_loop xs b (i + b) \<noteq> []" by auto
      then have "i + b < length xs"
        by (subst (asm) batch_loop.simps) (simp split: if_splits)
      then show ?thesis using 0 unf by (simp add: slice_take_drop)
    next
      case (Suc j)
      with 1(3) unf have "Suc j < length (batch_loop xs b (i + b))" by simp
      with 1(1) [of j] True 1(2) have "length (batch_loop xs b (i + b) ! j) = b" by simp
      then show ?thesis using Suc unf by simp
    qed
  next
    case False
    with 1(3) show ?thesis by (simp add: batch_loop_stop)
  qed
qed

text \<open>
  C5. For a batch size \<open>b > 0\<close> the batching loop returns, and its batches partition the
  recipient list: their concatenation is the list itself (order kept, every recipient in
  exactly one batch, the lengths summing to the length of the list), every batch but the
  last has exactly \<open>b\<close> elements, and every batch (so also the last) has between 1 and
  \<open>b\<close> elements. The route uses the same loop with the constant 10.
\<close>

theorem batches_partition:
  assumes "0 < b"
  shows "\<exists>bs. batches R b = Some bs \<and> concat bs = R \<and>
           sum_list (map length bs) = length R \<and>
           (\<forall>k. Suc k < length bs \<longrightarrow> length (bs ! k) = b) \<and>
           (\<forall>batch \<in> set bs. 1 \<le> length batch \<and> length batch \<le> b)"
proof -
  let ?bs = "batch_loop R b 0"
  have ret: "batches R b = Some ?bs"
    using assms by (simp add: batches_def)
  have cat: "concat ?bs = R"
    using assms by (simp add: concat_batch_loop)
  have "length (concat ?bs) = sum_list (map length ?bs)"
    by (simp add: length_concat)
  with cat have total: "sum_list (map length ?bs) = length R"
    by simp
  have full: "\<forall>k. Suc k < length ?bs \<longrightarrow> length (?bs ! k) = b"
    using assms by (simp add: batch_loop_full)
  have sizes: "\<forall>batch \<in> set ?bs. 1 \<le> length batch \<and> length batch \<le> b"
    using assms batch_loop_sizes by blast
  from ret cat total full sizes show ?thesis
    by blast
qed

theorem batches_partition_witness:
  "(0::nat) < 3 \<and>
   (\<exists>bs. batches ''abcdefg'' 3 = Some bs \<and> concat bs = ''abcdefg'' \<and>
      sum_list (map length bs) = length ''abcdefg'' \<and>
      (\<forall>k. Suc k < length bs \<longrightarrow> length (bs ! k) = 3) \<and>
      (\<forall>batch \<in> set bs. 1 \<le> length batch \<and> length batch \<le> 3))"
  using batches_partition [of 3 "''abcdefg''"] by simp

subsection \<open>The gateway wrappers\<close>

lemma lacks_id:
  assumes "data = None \<or> (\<exists>d. data = Some d \<and> (messages d = None \<or> messages d = Some [] \<or>
             (\<exists>m rest. messages d = Some (m # rest) \<and> \<not> truthy (msg_id m))))"
  shows "\<not> truthy (first_message_id data)"
  using assms by (auto simp: first_message_id_def truthy_def)

lemma check_response_malformed:
  "\<not> truthy (first_message_id data) \<Longrightarrow> \<exists>msg. check_response data = Inl (new_Error msg)"
  by (auto simp: check_response_def first_message_id_def split: option.splits list.splits)

lemma catch_send_new_Error [simp]: "catch_send (new_Error msg) = new_Error msg"
  by (simp add: catch_send_def new_Error_def)

lemma post_and_check_malformed:
  assumes "\<not> truthy (first_message_id data)"
  shows "\<exists>msg. post_and_check (\<lambda>req. Resolved data) req = Inl (new_Error msg)"
proof -
  from check_response_malformed [OF assms]
  obtain msg where "check_response data = Inl (new_Error msg)" ..
  then show ?thesis by (auto simp: post_and_check_def)
qed

lemma send_by_type_malformed:
  assumes "\<not> truthy (first_message_id data)"
  shows "\<exists>msg. send_by_type md (\<lambda>req. Resolved data) n = Inl (new_Error msg)"
  using post_and_check_malformed [OF assms]
  by (auto simp: send_by_type_def sendText_def sendImage_def sendDocument_def
      sendDocumentByMediaId_def Let_def split: message_type.splits option.splits)

lemma error_detail_nonempty: "error_detail e \<noteq> []"
proof -
  have c: "class_name k \<noteq> []" for k by (cases k) simp_all
  have s: "String_error e \<noteq> []" using c by (simp add: String_error_def)
  have j: "JSON_stringify d \<noteq> []" for d by (cases d) simp_all
  show ?thesis using s j by (simp add: error_detail_def split: option.splits)
qed

subsection \<open>The retry loop and the callback of one recipient\<close>

lemma retry_loop_success:
  "retries \<le> maxRetries \<Longrightarrow> send retries = Inr r \<Longrightarrow>
   retry_loop send p n retries = (Inr (Some r), [Attempt p n])"
  by (subst retry_loop.simps) simp

lemma retry_loop_last_failure:
  "retries = maxRetries \<Longrightarrow> send retries = Inl e \<Longrightarrow>
   retry_loop send p n retries = (Inl e, [Attempt p n])"
  by (subst retry_loop.simps) simp

lemma retry_loop_retry:
  "retries < maxRetries \<Longrightarrow> send retries = Inl e \<Longrightarrow>
   retry_loop send p n retries =
     (case retry_loop send p n (Suc retries) of
        (r, evs) \<Rightarrow> (r, Attempt p n # Wait (2 ^ Suc retries * 1000) # evs))"
  by (subst retry_loop.simps) simp

lemma retry_loop_all_fail:
  assumes "send 0 = Inl e0" "send 1 = Inl e1" "send 2 = Inl e2"
  shows "retry_loop send p n 0 =
     (Inl e2, [Attempt p n, Wait (2 ^ 1 * 1000), Attempt p n, Wait (2 ^ 2 * 1000), Attempt p n])"
proof -
  have third: "retry_loop send p n (Suc (Suc 0)) = (Inl e2, [Attempt p n])"
    using assms(3) by (simp add: retry_loop_last_failure maxRetries_def numeral_2_eq_2)
  have second: "retry_loop send p n (Suc 0) =
      (Inl e2, [Attempt p n, Wait (2 ^ 2 * 1000), Attempt p n])"
    using assms(2) third by (simp add: retry_loop_retry [where e = e1] maxRetries_def)
  show ?thesis
    using assms(1) second by (simp add: retry_loop_retry [where e = e0] maxRetries_def)
qed

lemma retry_loop_fail_fail_ok:
  assumes "send 0 = Inl e0" "send 1 = Inl e1" "send 2 = Inr r"
  shows "retry_loop send p n 0 =
     (Inr (Some r),
      [Attempt p n, Wait (2 ^ 1 * 1000), Attempt p n, Wait (2 ^ 2 * 1000), Attempt p n])"
proof -
  have third: "retry_loop send p n (Suc (Suc 0)) = (Inr (Some r), [Attempt p n])"
    using assms(3) by (simp add: retry_loop_success maxRetries_def numeral_2_eq_2)
  have second: "retry_loop send p n (Suc 0) =
      (Inr (Some r), [Attempt p n, Wait (2 ^ 2 * 1000), Attempt p n])"
    using assms(2) third by (simp add: retry_loop_retry [where e = e1] maxRetries_def)
  show ?thesis
    using assms(1) second by (simp add: retry_loop_retry [where e = e0] maxRetries_def)
qed

lemma retry_loop_second_attempt:
  assumes "send 0 = Inl e0"
  shows "\<exists>r evs. retry_loop send p n 0 =
           (r, Attempt p n # Wait (2 ^ 1 * 1000) # Attempt p n # evs)"
proof (cases "send (Suc 0)")
  case (Inr d)
  then have "retry_loop send p n (Suc 0) = (Inr (Some d), [Attempt p n])"
    by (simp add: retry_loop_success maxRetries_def)
  then show ?thesis
    using assms by (simp add: retry_loop_retry [where e = e0] maxRetries_def)
next
  case (Inl e1)
  obtain r evs where "retry_loop send p n (Suc (Suc 0)) = (r, evs)"
    by (cases "retry_loop send p n (Suc (Suc 0))")
  then have "retry_loop send p n (Suc 0) =
      (r, Attempt p n # Wait (2 ^ Suc (Suc 0) * 1000) # evs)"
    using Inl by (simp add: retry_loop_retry [where e = e1] maxRetries_def)
  then show ?thesis
    using assms by (simp add: retry_loop_retry [where e = e0] maxRetries_def)
qed

lemma run_worker_failure:
  assumes "retry_loop (\<lambda>retries. send_by_type md (gateway ev p retries) n) p n 0 = (Inl e, evs)"
  shows "run_worker ev md createdLogs p index n =
     (case at_index createdLogs index of
        Some i \<Rightarrow>
          (Fulfilled (NotSent n (error_detail e)), [UpdateOne i (SetFailed (error_detail e))], evs)
      | None \<Rightarrow> (PromiseRejected undefined_id_error, [], evs))"
  using assms by (simp add: run_worker_def)

lemma run_worker_success:
  assumes "retry_loop (\<lambda>retries. send_by_type md (gateway ev p retries) n) p n 0 = (Inr r, evs)"
  shows "run_worker ev md createdLogs p index n =
     (case at_index createdLogs index of
        Some i \<Rightarrow>
          (Fulfilled (Sent n (first_message_id r)), [UpdateOne i (SetSent (first_message_id r))],
           evs)
      | None \<Rightarrow> (PromiseRejected undefined_id_error, [], evs))"
  using assms by (simp add: run_worker_def)

lemma run_worker_events:
  "snd (snd (run_worker ev md createdLogs p index n)) =
   snd (retry_loop (\<lambda>retries. send_by_type md (gateway ev p retries) n) p n 0)"
  by (simp add: run_worker_def Let_def split: prod.splits sum.splits option.splits)

text \<open>
  C7. A resolved response whose body has no message identifier (no body, no
  \<open>messages\<close> array, an empty one, or a first message without a truthy \<open>id\<close>) makes each of
  the four wrappers throw an error, and the send is never counted as a success: the
  callback of the route, which calls the wrapper once, and the callback of the background
  path, when every attempt is answered so, do not settle to a success, and every update
  they push sets the status \<open>FAILED\<close>.
\<close>

theorem malformed_success_raises:
  assumes "data = None \<or> (\<exists>d. data = Some d \<and> (messages d = None \<or> messages d = Some [] \<or>
             (\<exists>m rest. messages d = Some (m # rest) \<and> \<not> truthy (msg_id m))))"
  shows "(\<exists>msg. sendText (\<lambda>req. Resolved data) to body = Inl (new_Error msg)) \<and>
         (\<exists>msg. sendImage (\<lambda>req. Resolved data) to url mid cap = Inl (new_Error msg)) \<and>
         (\<exists>msg. sendDocument (\<lambda>req. Resolved data) to url cap = Inl (new_Error msg)) \<and>
         (\<exists>msg. sendDocumentByMediaId (\<lambda>req. Resolved data) to media = Inl (new_Error msg)) \<and>
         (\<exists>res ups evs.
            route_worker (ev\<lparr>gateway := \<lambda>p k req. Resolved data\<rparr>) media createdLogs batch p
              index n = (res, ups, evs) \<and>
            \<not> is_success res \<and> (\<forall>u \<in> set ups. \<exists>i detail. u = UpdateOne i (SetFailed detail))) \<and>
         (\<exists>res ups evs.
            run_worker (ev\<lparr>gateway := \<lambda>p k req. Resolved data\<rparr>) md createdLogs p index n =
              (res, ups, evs) \<and>
            \<not> is_success res \<and> (\<forall>u \<in> set ups. \<exists>i detail. u = UpdateOne i (SetFailed detail)))"
proof -
  have bad: "\<not> truthy (first_message_id data)"
    using assms by (rule lacks_id)
  have post: "\<exists>msg. post_and_check (\<lambda>req. Resolved data) req = Inl (new_Error msg)" for req
    using bad by (rule post_and_check_malformed)
  have t: "\<exists>msg. sendText (\<lambda>req. Resolved data) to body = Inl (new_Error msg)"
    using post by (simp add: sendText_def)
  have i: "\<exists>msg. sendImage (\<lambda>req. Resolved data) to url mid cap = Inl (new_Error msg)"
    using post by (auto simp: sendImage_def Let_def split: option.splits)
  have d: "\<exists>msg. sendDocument (\<lambda>req. Resolved data) to url cap = Inl (new_Error msg)"
    using post by (simp add: sendDocument_def)
  have m: "\<exists>msg. sendDocumentByMediaId (\<lambda>req. Resolved data) to media = Inl (new_Error msg)"
    for to
    using post by (simp add: sendDocumentByMediaId_def)
  have r: "\<exists>res ups evs.
            route_worker (ev\<lparr>gateway := \<lambda>p k req. Resolved data\<rparr>) media createdLogs batch p
              index n = (res, ups, evs) \<and>
            \<not> is_success res \<and> (\<forall>u \<in> set ups. \<exists>i detail. u = UpdateOne i (SetFailed detail))"
  proof -
    from m [of n] obtain msg where
      "sendDocumentByMediaId (\<lambda>req. Resolved data) n media = Inl (new_Error msg)" ..
    then show ?thesis
      by (simp add: route_worker_def split: option.splits)
  qed
  have w: "\<exists>res ups evs.
            run_worker (ev\<lparr>gateway := \<lambda>p k req. Resolved data\<rparr>) md createdLogs p index n =
              (res, ups, evs) \<and>
            \<not> is_success res \<and> (\<forall>u \<in> set ups. \<exists>i detail. u = UpdateOne i (SetFailed detail))"
  proof -
    let ?ev = "ev\<lparr>gateway := \<lambda>p k req. Resolved data\<rparr>"
    from send_by_type_malformed [OF bad] obtain msg where
      s: "send_by_type md (\<lambda>req. Resolved data) n = Inl (new_Error msg)" by blast
    have "retry_loop (\<lambda>retries. send_by_type md (gateway ?ev p retries) n) p n 0 =
            (Inl (new_Error msg),
             [Attempt p n, Wait (2 ^ 1 * 1000), Attempt p n, Wait (2 ^ 2 * 1000), Attempt p n])"
      by (rule retry_loop_all_fail) (simp_all add: s)
    then show ?thesis
      by (simp add: run_worker_failure split: option.splits)
  qed
  from t i d m r w show ?thesis by blast
qed

theorem malformed_success_raises_witness:
  "(\<exists>msg. sendText (\<lambda>req. Resolved (Some \<lparr>messages = Some []\<rparr>)) ''919000000001''
             (Some ''hello'') = Inl (new_Error msg)) \<and>
   (\<exists>msg. sendImage (\<lambda>req. Resolved (Some \<lparr>messages = Some []\<rparr>)) ''919000000001''
             (Some ''https://example.org/file'') None None = Inl (new_Error msg)) \<and>
   (\<exists>msg. sendDocument (\<lambda>req. Resolved (Some \<lparr>messages = Some []\<rparr>)) ''919000000001''
             (Some ''https://example.org/file'') None = Inl (new_Error msg)) \<and>
   (\<exists>msg. sendDocumentByMediaId (\<lambda>req. Resolved (Some \<lparr>messages = Some []\<rparr>)) ''919000000001''
             ''media1'' = Inl (new_Error msg)) \<and>
   (\<exists>res ups evs.
      route_worker ((no_faults (\<lambda>p k req. delivered ''wamid.1''))
          \<lparr>gateway := \<lambda>p k req. Resolved (Some \<lparr>messages = Some []\<rparr>)\<rparr>)
        ''media1'' [0] [''919000000001''] 0 0 ''919000000001'' = (res, ups, evs) \<and>
      \<not> is_success res \<and> (\<forall>u \<in> set ups. \<exists>i detail. u = UpdateOne i (SetFailed detail))) \<and>
   (\<exists>res ups evs.
      run_worker ((no_faults (\<lambda>p k req. delivered ''wamid.1''))
          \<lparr>gateway := \<lambda>p k req. Resolved (Some \<lparr>messages = Some []\<rparr>)\<rparr>)
        (text_message [''919000000001'']) [0] 0 0 ''919000000001'' = (res, ups, evs) \<and>
      \<not> is_success res \<and> (\<forall>u \<in> set ups. \<exists>i detail. u = UpdateOne i (SetFailed detail)))"
  using malformed_success_raises [of "Some \<lparr>messages = Some []\<rparr>" "''919000000001''"
      "Some ''hello''" "Some ''https://example.org/file''" None None "''media1''"
      "no_faults (\<lambda>p k req. delivered ''wamid.1'')" "[0]" "[''919000000001'']" 0 0
      "''919000000001''" "text_message [''919000000001'']"]
  by simp

lemma send_text_timeout:
  "send_by_type (text_message ns) (\<lambda>req. Rejected timeout_error) n = Inl timeout_error"
  by (simp add: send_by_type_def text_message_def sendText_def post_and_check_def catch_send_def
      timeout_error_def)

lemma send_text_unregistered:
  "send_by_type (text_message ns) (\<lambda>req. Rejected unregistered_error) n =
     Inl (new_Error ''Phone number is not registered on WhatsApp'')"
  by (simp add: send_by_type_def text_message_def sendText_def post_and_check_def catch_send_def
      unregistered_error_def)

lemma send_text_delivered:
  "wid \<noteq> [] \<Longrightarrow>
   send_by_type (text_message ns) (\<lambda>req. delivered wid) n =
     Inr \<lparr>messages = Some [\<lparr>msg_id = Some wid\<rparr>]\<rparr>"
  by (simp add: send_by_type_def text_message_def sendText_def post_and_check_def delivered_def
      check_response_def truthy_def)

text \<open>
  C2, as the code has it. The retry loop does not look at the kind of the error: every
  failed attempt but the third is followed by a pause and another attempt.
  For the recipient at position \<open>p\<close> whose message log exists: when the first attempt
  fails, with whatever error, the callback pauses \<open>2 ^ 1\<close> seconds and makes a second
  attempt; when all three attempts fail, it makes exactly three attempts, pausing
  \<open>2 ^ 1\<close> seconds before the second and \<open>2 ^ 2\<close> seconds before the third, settles to a
  failure and pushes the update that sets \<open>FAILED\<close> with the detail of the last error.
\<close>

theorem every_failure_is_retried:
  assumes "send_by_type md (gateway ev p 0) n = Inl e0"
    and "index < length createdLogs"
  shows "(\<exists>res ups evs.
            run_worker ev md createdLogs p index n =
              (res, ups, Attempt p n # Wait (2 ^ 1 * 1000) # Attempt p n # evs)) \<and>
         (\<forall>e1 e2.
            send_by_type md (gateway ev p 1) n = Inl e1 \<and>
            send_by_type md (gateway ev p 2) n = Inl e2 \<longrightarrow>
            run_worker ev md createdLogs p index n =
              (Fulfilled (NotSent n (error_detail e2)),
               [UpdateOne (createdLogs ! index) (SetFailed (error_detail e2))],
               [Attempt p n, Wait (2 ^ 1 * 1000), Attempt p n, Wait (2 ^ 2 * 1000),
                Attempt p n]))"
proof (intro conjI allI impI)
  let ?send = "\<lambda>retries. send_by_type md (gateway ev p retries) n"
  from retry_loop_second_attempt [of ?send e0 p n, OF assms(1)]
  obtain r evs where
    "retry_loop ?send p n 0 = (r, Attempt p n # Wait (2 ^ 1 * 1000) # Attempt p n # evs)"
    by blast
  then have "snd (snd (run_worker ev md createdLogs p index n)) =
      Attempt p n # Wait (2 ^ 1 * 1000) # Attempt p n # evs"
    by (simp add: run_worker_events)
  then show "\<exists>res ups evs.
      run_worker ev md createdLogs p index n =
        (res, ups, Attempt p n # Wait (2 ^ 1 * 1000) # Attempt p n # evs)"
    by (cases "run_worker ev md createdLogs p index n") auto
next
  fix e1 e2
  assume a: "send_by_type md (gateway ev p 1) n = Inl e1 \<and>
             send_by_type md (gateway ev p 2) n = Inl e2"
  have "retry_loop (\<lambda>retries. send_by_type md (gateway ev p retries) n) p n 0 =
          (Inl e2,
           [Attempt p n, Wait (2 ^ 1 * 1000), Attempt p n, Wait (2 ^ 2 * 1000), Attempt p n])"
    using assms(1) a by (intro retry_loop_all_fail) simp_all
  then show "run_worker ev md createdLogs p index n =
      (Fulfilled (NotSent n (error_detail e2)),
       [UpdateOne (createdLogs ! index) (SetFailed (error_detail e2))],
       [Attempt p n, Wait (2 ^ 1 * 1000), Attempt p n, Wait (2 ^ 2 * 1000), Attempt p n])"
    using assms(2) by (simp add: run_worker_failure at_index_def)
qed

theorem every_failure_is_retried_witness:
  "send_by_type (text_message [''919000000001''])
     (gateway (no_faults (\<lambda>p k req. Rejected timeout_error)) 0 0) ''919000000001'' =
     Inl timeout_error \<and>
   (0::nat) < length [0::nat] \<and>
   run_worker (no_faults (\<lambda>p k req. Rejected timeout_error)) (text_message [''919000000001''])
     [0] 0 0 ''919000000001'' =
     (Fulfilled (NotSent ''919000000001'' (error_detail timeout_error)),
      [UpdateOne 0 (SetFailed (error_detail timeout_error))],
      [Attempt 0 ''919000000001'', Wait (2 ^ 1 * 1000), Attempt 0 ''919000000001'',
       Wait (2 ^ 2 * 1000), Attempt 0 ''919000000001''])"
  using every_failure_is_retried [of "text_message [''919000000001'']"
      "no_faults (\<lambda>p k req. Rejected timeout_error)" 0 "''919000000001''" timeout_error 0 "[0]"]
  by (simp add: send_text_timeout no_faults_def)

text \<open>
  The claim as the specification states it fails: the gateway answers every attempt with
  the error of a number that is not registered (code 131026, a permanent error), and the
  callback still makes three attempts, with both pauses, before it settles to a failure.
\<close>

theorem permanent_error_is_retried:
  "send_by_type (text_message [''919000000001''])
     (gateway (no_faults (\<lambda>p k req. Rejected unregistered_error)) 0 0) ''919000000001'' =
     Inl (new_Error ''Phone number is not registered on WhatsApp'') \<and>
   snd (snd (run_worker (no_faults (\<lambda>p k req. Rejected unregistered_error))
     (text_message [''919000000001'']) [0] 0 0 ''919000000001'')) =
     [Attempt 0 ''919000000001'', Wait 2000, Attempt 0 ''919000000001'', Wait 4000,
      Attempt 0 ''919000000001''] \<and>
   snd (snd (run_worker (no_faults (\<lambda>p k req. Rejected unregistered_error))
     (text_message [''919000000001'']) [0] 0 0 ''919000000001'')) \<noteq>
     [Attempt 0 ''919000000001'']"
proof -
  let ?ev = "no_faults (\<lambda>p k req. Rejected unregistered_error)"
  let ?md = "text_message [''919000000001'']"
  have s: "send_by_type ?md (gateway ?ev 0 k) ''919000000001'' =
      Inl (new_Error ''Phone number is not registered on WhatsApp'')" for k
    by (simp add: no_faults_def send_text_unregistered)
  have "retry_loop (\<lambda>retries. send_by_type ?md (gateway ?ev 0 retries) ''919000000001'') 0
          ''919000000001'' 0 =
        (Inl (new_Error ''Phone number is not registered on WhatsApp''),
         [Attempt 0 ''919000000001'', Wait (2 ^ 1 * 1000), Attempt 0 ''919000000001'',
          Wait (2 ^ 2 * 1000), Attempt 0 ''919000000001''])"
    by (rule retry_loop_all_fail) (rule s)+
  then have "snd (snd (run_worker ?ev ?md [0] 0 0 ''919000000001'')) =
      [Attempt 0 ''919000000001'', Wait 2000, Attempt 0 ''919000000001'', Wait 4000,
       Attempt 0 ''919000000001'']"
    by (simp add: run_worker_events)
  with s [of 0] show ?thesis by simp
qed

subsection \<open>An operation with one recipient\<close>

lemma batches_singleton: "0 < b \<Longrightarrow> batches [x] b = Some [[x]]"
  by (simp add: batches_def batch_loop_step batch_loop_stop slice_def)

lemma processBatch_single:
  assumes "insertMany_fault ev s = None" "bulkWrite_fault ev s = None"
    and "0 < CONCURRENCY_LIMIT cfg"
    and "run_worker ev md [length (logs w)] s 0 n = (res, [UpdateOne (length (logs w)) c], evs)"
  shows "processBatchWithConcurrency ev [n] md s cfg w =
     (Return \<lparr>processed = 1, success = (if is_success res then 1 else 0),
               failed = (if is_success res then 0 else 1)\<rparr>,
      w\<lparr>logs := logs w @ [change_log c (queued_log (formatMobileNumber n) (data_type md))],
        events := events w @ evs\<rparr>)"
  using assms
  by (simp add: processBatchWithConcurrency_def insertMany_def batches_singleton run_chunk_def
      write_updates_def bulkWrite_def add_events_def)

lemma getOptimalConfig_1:
  "getOptimalConfig 1 = \<lparr>CONCURRENCY_LIMIT = 2, BATCH_SIZE = 5, RATE_LIMIT_DELAY = 200\<rparr>"
  by (simp add: getOptimalConfig_def)

lemma processBulkMessage_single:
  assumes "create_fault ev = None" "\<forall>k. save_fault ev k = None"
    and "insertMany_fault ev 0 = None" "bulkWrite_fault ev 0 = None"
    and "mobileNumbers md = [n]"
    and "run_worker ev md [0] 0 0 n = (res, [UpdateOne 0 c], evs)"
  shows "\<exists>w. processBulkMessage ev md empty_world = (Return (), w) \<and>
     logs w = [change_log c (queued_log (formatMobileNumber n) (data_type md))] \<and>
     map_option op_status (operation w) = Some COMPLETED \<and>
     events w = evs"
proof -
  let ?doc = "\<lparr>totalRecipients = 1, processedCount = 0, successCount = 0, failedCount = 0,
      op_status = PENDING, op_error = None, completedAt = None\<rparr>"
  let ?w0 = "empty_world\<lparr>operation := Some ?doc,
      save_calls := save_calls empty_world @ [(?doc, True)]\<rparr>"
  let ?w1 = "snd (save ev (?doc\<lparr>op_status := PROCESSING\<rparr>) ?w0)"
  have w1: "save ev (?doc\<lparr>op_status := PROCESSING\<rparr>) ?w0 = (None, ?w1)"
    using assms(2) by (simp add: save_def)
  have l1: "logs ?w1 = []" "events ?w1 = []"
    using assms(2) by (simp_all add: save_def empty_world_def)
  have b: "processBatchWithConcurrency ev [n] md 0
      \<lparr>CONCURRENCY_LIMIT = 2, BATCH_SIZE = 5, RATE_LIMIT_DELAY = 200\<rparr> ?w1 =
     (Return \<lparr>processed = 1, success = (if is_success res then 1 else 0),
               failed = (if is_success res then 0 else 1)\<rparr>,
      ?w1\<lparr>logs := logs ?w1 @
               [change_log c (queued_log (formatMobileNumber n) (data_type md))],
        events := events ?w1 @ evs\<rparr>)"
    by (rule processBatch_single) (use assms l1 in simp_all)
  show ?thesis
    using assms(1,2,5) w1 b l1
    by (simp add: processBulkMessage_def processBulkMessagesInBackground_def batches_singleton
        getOptimalConfig_1 Let_def save_def empty_world_def)
qed

lemma format_example: "formatMobileNumber ''919000000001'' = ''919000000001''"
  by (simp add: formatMobileNumber_def is_digit_def)

text \<open>
  C8, as the code has it. The engine never writes \<open>retryCount\<close>: its updates set the
  status and the message id or the error, nothing else, so the record keeps the schema
  default 0. For an operation with one recipient and a store without faults, after two
  failed attempts: when the third attempt succeeds the record ends \<open>SENT\<close> with the
  message id of the answer and \<open>retryCount = 0\<close>; when the third attempt fails too the
  record ends \<open>FAILED\<close> with \<open>retryCount = 0\<close> and a non-empty error detail.
\<close>

theorem retry_count_stays_default:
  assumes "create_fault ev = None" "\<forall>k. save_fault ev k = None"
    and "insertMany_fault ev 0 = None" "bulkWrite_fault ev 0 = None"
    and "mobileNumbers md = [n]"
    and "send_by_type md (gateway ev 0 0) n = Inl e0"
    and "send_by_type md (gateway ev 0 1) n = Inl e1"
  shows "(\<forall>d. send_by_type md (gateway ev 0 2) n = Inr d \<longrightarrow>
            logs (snd (processBulkMessage ev md empty_world)) =
              [\<lparr>log_to = formatMobileNumber n, log_type = data_type md, log_status = SENT,
                waMessageId = first_message_id (Some d), log_error = None,
                retryCount = 0\<rparr>]) \<and>
         (\<forall>e2. send_by_type md (gateway ev 0 2) n = Inl e2 \<longrightarrow>
            logs (snd (processBulkMessage ev md empty_world)) =
              [\<lparr>log_to = formatMobileNumber n, log_type = data_type md, log_status = FAILED,
                waMessageId = None, log_error = Some (error_detail e2), retryCount = 0\<rparr>] \<and>
            error_detail e2 \<noteq> [])"
proof -
  have sent: "logs (snd (processBulkMessage ev md empty_world)) =
      [\<lparr>log_to = formatMobileNumber n, log_type = data_type md, log_status = SENT,
        waMessageId = first_message_id (Some d), log_error = None, retryCount = 0\<rparr>]"
    if ok: "send_by_type md (gateway ev 0 2) n = Inr d" for d
  proof -
    have "retry_loop (\<lambda>retries. send_by_type md (gateway ev 0 retries) n) 0 n 0 =
        (Inr (Some d),
         [Attempt 0 n, Wait (2 ^ 1 * 1000), Attempt 0 n, Wait (2 ^ 2 * 1000), Attempt 0 n])"
      using assms(6,7) ok by (intro retry_loop_fail_fail_ok) simp_all
    then have "run_worker ev md [0] 0 0 n =
        (Fulfilled (Sent n (first_message_id (Some d))),
         [UpdateOne 0 (SetSent (first_message_id (Some d)))],
         [Attempt 0 n, Wait (2 ^ 1 * 1000), Attempt 0 n, Wait (2 ^ 2 * 1000), Attempt 0 n])"
      by (simp add: run_worker_success at_index_def)
    from processBulkMessage_single [OF assms(1-5) this]
    obtain w where "processBulkMessage ev md empty_world = (Return (), w)"
      and "logs w = [change_log (SetSent (first_message_id (Some d)))
                       (queued_log (formatMobileNumber n) (data_type md))]"
      by blast
    then show ?thesis
      by (simp add: queued_log_def)
  qed
  have failed: "logs (snd (processBulkMessage ev md empty_world)) =
      [\<lparr>log_to = formatMobileNumber n, log_type = data_type md, log_status = FAILED,
        waMessageId = None, log_error = Some (error_detail e2), retryCount = 0\<rparr>] \<and>
      error_detail e2 \<noteq> []"
    if bad: "send_by_type md (gateway ev 0 2) n = Inl e2" for e2
  proof -
    have "retry_loop (\<lambda>retries. send_by_type md (gateway ev 0 retries) n) 0 n 0 =
        (Inl e2,
         [Attempt 0 n, Wait (2 ^ 1 * 1000), Attempt 0 n, Wait (2 ^ 2 * 1000), Attempt 0 n])"
      using assms(6,7) bad by (intro retry_loop_all_fail) simp_all
    then have "run_worker ev md [0] 0 0 n =
        (Fulfilled (NotSent n (error_detail e2)),
         [UpdateOne 0 (SetFailed (error_detail e2))],
         [Attempt 0 n, Wait (2 ^ 1 * 1000), Attempt 0 n, Wait (2 ^ 2 * 1000), Attempt 0 n])"
      by (simp add: run_worker_failure at_index_def)
    from processBulkMessage_single [OF assms(1-5) this]
    obtain w where "processBulkMessage ev md empty_world = (Return (), w)"
      and "logs w = [change_log (SetFailed (error_detail e2))
                       (queued_log (formatMobileNumber n) (data_type md))]"
      by blast
    then show ?thesis
      by (simp add: queued_log_def error_detail_nonempty)
  qed
  show ?thesis
    using sent failed by (intro conjI allI impI) simp_all
qed

lemma send_text_flaky:
  "send_by_type (text_message ns)
     (gateway (no_faults (\<lambda>p k req. if k < 2 then Rejected timeout_error
                                      else delivered ''wamid.1'')) p k) n =
     (if k < 2 then Inl timeout_error
      else Inr \<lparr>messages = Some [\<lparr>msg_id = Some ''wamid.1''\<rparr>]\<rparr>)"
  by (simp add: no_faults_def send_text_timeout send_text_delivered)

lemma no_faults_store:
  "create_fault (no_faults g) = None" "\<forall>k. save_fault (no_faults g) k = None"
  "insertMany_fault (no_faults g) s = None" "bulkWrite_fault (no_faults g) s = None"
  by (simp_all add: no_faults_def)

lemma text_message_fields:
  "mobileNumbers (text_message ns) = ns" "data_type (text_message ns) = TEXT"
  by (simp_all add: text_message_def)

theorem retry_count_stays_default_witness:
  "logs (snd (processBulkMessage
      (no_faults (\<lambda>p k req. if k < 2 then Rejected timeout_error else delivered ''wamid.1''))
      (text_message [''919000000001'']) empty_world)) =
     [\<lparr>log_to = ''919000000001'', log_type = TEXT, log_status = SENT,
       waMessageId = Some ''wamid.1'', log_error = None, retryCount = 0\<rparr>] \<and>
   logs (snd (processBulkMessage (no_faults (\<lambda>p k req. Rejected timeout_error))
      (text_message [''919000000001'']) empty_world)) =
     [\<lparr>log_to = ''919000000001'', log_type = TEXT, log_status = FAILED,
       waMessageId = None, log_error = Some (error_detail timeout_error), retryCount = 0\<rparr>] \<and>
   error_detail timeout_error \<noteq> []"
proof -
  let ?flaky = "no_faults (\<lambda>p k req. if k < 2 then Rejected timeout_error
                                      else delivered ''wamid.1'')"
  let ?down = "no_faults (\<lambda>p k req. Rejected timeout_error)"
  let ?md = "text_message [''919000000001'']"
  have f: "send_by_type ?md (gateway ?flaky 0 0) ''919000000001'' = Inl timeout_error"
    "send_by_type ?md (gateway ?flaky 0 1) ''919000000001'' = Inl timeout_error"
    "send_by_type ?md (gateway ?flaky 0 2) ''919000000001'' =
       Inr \<lparr>messages = Some [\<lparr>msg_id = Some ''wamid.1''\<rparr>]\<rparr>"
    by (simp_all add: send_text_flaky)
  have d: "send_by_type ?md (gateway ?down 0 k) ''919000000001'' = Inl timeout_error" for k
    by (simp add: no_faults_def send_text_timeout)
  from retry_count_stays_default [OF no_faults_store text_message_fields(1) f(1) f(2)] f(3)
  have one: "logs (snd (processBulkMessage ?flaky ?md empty_world)) =
     [\<lparr>log_to = ''919000000001'', log_type = TEXT, log_status = SENT,
       waMessageId = Some ''wamid.1'', log_error = None, retryCount = 0\<rparr>]"
    by (simp add: format_example first_message_id_def text_message_fields)
  from retry_count_stays_default [OF no_faults_store text_message_fields(1) d d] d [of 2]
  have two: "logs (snd (processBulkMessage ?down ?md empty_world)) =
     [\<lparr>log_to = ''919000000001'', log_type = TEXT, log_status = FAILED,
       waMessageId = None, log_error = Some (error_detail timeout_error), retryCount = 0\<rparr>] \<and>
     error_detail timeout_error \<noteq> []"
    by (simp add: format_example text_message_fields)
  from one two show ?thesis by simp
qed

text \<open>
  The claim as the specification states it fails: one recipient, two timeouts, then a
  well-formed answer; the record ends \<open>SENT\<close> and its \<open>retryCount\<close> is 0, not 2.
\<close>

theorem retry_count_is_not_two:
  "logs (snd (processBulkMessage
      (no_faults (\<lambda>p k req. if k < 2 then Rejected timeout_error else delivered ''wamid.1''))
      (text_message [''919000000001'']) empty_world)) =
     [\<lparr>log_to = ''919000000001'', log_type = TEXT, log_status = SENT,
       waMessageId = Some ''wamid.1'', log_error = None, retryCount = 0\<rparr>] \<and>
   retryCount (hd (logs (snd (processBulkMessage
      (no_faults (\<lambda>p k req. if k < 2 then Rejected timeout_error else delivered ''wamid.1''))
      (text_message [''919000000001'']) empty_world)))) \<noteq> 2"
proof -
  let ?ev = "no_faults (\<lambda>p k req. if k < 2 then Rejected timeout_error
                                   else delivered ''wamid.1'')"
  let ?md = "text_message [''919000000001'']"
  let ?d = "\<lparr>messages = Some [\<lparr>msg_id = Some ''wamid.1''\<rparr>]\<rparr>"
  have "retry_loop (\<lambda>retries. send_by_type ?md (gateway ?ev 0 retries) ''919000000001'') 0
          ''919000000001'' 0 =
      (Inr (Some ?d),
       [Attempt 0 ''919000000001'', Wait (2 ^ 1 * 1000), Attempt 0 ''919000000001'',
        Wait (2 ^ 2 * 1000), Attempt 0 ''919000000001''])"
    by (rule retry_loop_fail_fail_ok [where ?e0.0 = timeout_error and ?e1.0 = timeout_error])
      (simp_all add: send_text_flaky)
  then have rw: "run_worker ?ev ?md [0] 0 0 ''919000000001'' =
      (Fulfilled (Sent ''919000000001'' (first_message_id (Some ?d))),
       [UpdateOne 0 (SetSent (first_message_id (Some ?d)))],
       [Attempt 0 ''919000000001'', Wait (2 ^ 1 * 1000), Attempt 0 ''919000000001'',
        Wait (2 ^ 2 * 1000), Attempt 0 ''919000000001''])"
    by (simp add: run_worker_success at_index_def)
  from processBulkMessage_single [OF no_faults_store text_message_fields(1) rw]
  obtain w where "processBulkMessage ?ev ?md empty_world = (Return (), w)"
    and "logs w = [change_log (SetSent (first_message_id (Some ?d)))
                     (queued_log (formatMobileNumber ''919000000001'') (data_type ?md))]"
    by blast
  then show ?thesis
    by (simp add: queued_log_def format_example first_message_id_def text_message_fields)
qed


subsection \<open>What a batch stores and what it sends\<close>


lemma apply_update_commute:
  "i \<noteq> j \<Longrightarrow>
   apply_update (UpdateOne i c) (apply_update (UpdateOne j d) ls) =
   apply_update (UpdateOne j d) (apply_update (UpdateOne i c) ls)"
  by (simp add: list_update_swap)









lemma chunk_loop_counts:
  "fst (chunk_loop worker p chunks (s, f, ups, evs)) +
   fst (snd (chunk_loop worker p chunks (s, f, ups, evs))) = s + f + length (concat chunks)"
proof (induction chunks arbitrary: p s f ups evs)
  case Nil
  show ?case by simp
next
  case (Cons chunk rest)
  have "length (filter is_success xs) + length (filter (\<lambda>r. \<not> is_success r) xs) = length xs"
    for xs :: "promise_result list"
    by (simp add: sum_length_filter_compl)
  from this [of "map fst (run_chunk worker p chunk)"]
  have "length (filter is_success (map fst (run_chunk worker p chunk))) +
        length (filter (\<lambda>r. \<not> is_success r) (map fst (run_chunk worker p chunk))) = length chunk"
    by (simp add: run_chunk_def)
  then show ?case
    by (simp add: Let_def Cons.IH)
qed





lemma route_worker_attempts:
  "Attempt q m \<in> set (snd (snd (route_worker ev media createdLogs batch p index n))) \<longleftrightarrow>
   q = p \<and> m = n"
  by (auto simp: route_worker_def Let_def split: sum.splits option.splits)



lemma processBatch_returns:
  assumes "insertMany_fault ev s = None" and "0 < CONCURRENCY_LIMIT cfg"
  shows "processBatchWithConcurrency ev numbers md s cfg w =
     (let createdLogs = [length (logs w) ..< length (logs w) + length numbers];
          w1 = w\<lparr>logs := logs w @
                 map (\<lambda>n. queued_log (formatMobileNumber n) (data_type md)) numbers\<rparr>;
          acc = chunk_loop (run_worker ev md createdLogs) s
                  (batch_loop numbers (CONCURRENCY_LIMIT cfg) 0) (0, 0, [], [])
      in (Return \<lparr>processed = length numbers, success = fst acc, failed = fst (snd acc)\<rparr>,
          write_updates ev s (fst (snd (snd acc))) (add_events (snd (snd (snd acc))) w1)))"
  using assms
  by (simp add: processBatchWithConcurrency_def insertMany_def batches_def Let_def
      split: prod.splits)






















subsection \<open>The counters of the operation\<close>

lemma fallback_loop_saves:
  "save_calls (fallback_loop ev key j us w) = save_calls w \<and>
   operation (fallback_loop ev key j us w) = operation w"
proof (induction us arbitrary: j w)
  case Nil
  show ?case by simp
next
  case (Cons u us)
  obtain i c where u: "u = UpdateOne i c" by (cases u)
  show ?case
    unfolding u
    by (simp add: Cons.IH add_events_def del: apply_update.simps split: option.splits)
qed

lemma write_updates_saves:
  "save_calls (write_updates ev key us w) = save_calls w \<and>
   operation (write_updates ev key us w) = operation w"
  by (simp add: write_updates_def bulkWrite_def fallback_loop_saves add_events_def
      split: option.splits prod.splits)

lemma route_write_updates_saves:
  "save_calls (route_write_updates ev key us w) = save_calls w \<and>
   operation (route_write_updates ev key us w) = operation w"
  by (simp add: route_write_updates_def bulkWrite_def add_events_def
      split: option.splits prod.splits)

lemma processBatch_cases:
  assumes "0 < CONCURRENCY_LIMIT cfg"
  shows "(\<exists>e. processBatchWithConcurrency ev numbers md s cfg w = (Throw e, w)) \<or>
         (\<exists>r w'. processBatchWithConcurrency ev numbers md s cfg w = (Return r, w') \<and>
            processed r = length numbers \<and> success r + failed r = length numbers \<and>
            save_calls w' = save_calls w \<and> operation w' = operation w)"
proof (cases "insertMany_fault ev s")
  case (Some e)
  then show ?thesis
    by (simp add: processBatchWithConcurrency_def insertMany_def)
next
  case None
  let ?createdLogs = "[length (logs w) ..< length (logs w) + length numbers]"
  let ?chunks = "batch_loop numbers (CONCURRENCY_LIMIT cfg) 0"
  let ?acc = "chunk_loop (run_worker ev md ?createdLogs) s ?chunks (0, 0, [], [])"
  have "fst ?acc + fst (snd ?acc) = 0 + 0 + length (concat ?chunks)"
    by (rule chunk_loop_counts)
  then have "fst ?acc + fst (snd ?acc) = length numbers"
    using assms by (simp add: concat_batch_loop)
  then show ?thesis
    using processBatch_returns [OF None assms, of numbers md w]
    by (simp add: Let_def write_updates_saves add_events_def)
qed

lemma save_result:
  "save ev doc w = (r, w') \<Longrightarrow> \<exists>ok. save_calls w' = save_calls w @ [(doc, ok)]"
  by (auto simp: save_def split: option.splits)

lemma run_batches_saves:
  assumes "0 < CONCURRENCY_LIMIT cfg"
    and "processedCount doc = pc" "successCount doc = sc" "failedCount doc = fc"
    and "pc = sc + fc"
    and "pc + length (concat bs) \<le> totalRecipients doc"
    and "run_batches ev md cfg n batchIndex bs doc (pc, sc, fc) w = (out, doc', w')"
  shows "out \<noteq> Hang \<and> totalRecipients doc' = totalRecipients doc \<and>
         processedCount doc' = successCount doc' + failedCount doc' \<and>
         processedCount doc' \<le> totalRecipients doc \<and> pc \<le> processedCount doc' \<and>
         (\<exists>new. save_calls w' = save_calls w @ new \<and>
            sorted (map (\<lambda>x. processedCount (fst x)) new) \<and>
            (\<forall>x \<in> set new.
               processedCount (fst x) = successCount (fst x) + failedCount (fst x) \<and>
               totalRecipients (fst x) = totalRecipients doc \<and>
               pc \<le> processedCount (fst x) \<and>
               processedCount (fst x) \<le> processedCount doc'))"
  using assms(2-)
proof (induction bs arbitrary: batchIndex doc pc sc fc w)
  case Nil
  then show ?case by auto
next
  case (Cons batch rest)
  let ?s = "batchIndex * BATCH_SIZE cfg"
  from processBatch_cases [OF assms(1), of ev batch md ?s w]
  show ?case
  proof (elim disjE exE conjE)
    fix e
    assume "processBatchWithConcurrency ev batch md ?s cfg w = (Throw e, w)"
    with Cons.prems show ?thesis by auto
  next
    fix r w1
    assume ret: "processBatchWithConcurrency ev batch md ?s cfg w = (Return r, w1)"
      and pr: "processed r = length batch" and sf: "success r + failed r = length batch"
      and sv: "save_calls w1 = save_calls w"
    let ?pc = "pc + processed r" and ?sc = "sc + success r" and ?fc = "fc + failed r"
    let ?doc = "doc\<lparr>processedCount := ?pc, successCount := ?sc, failedCount := ?fc\<rparr>"
    have inv: "?pc = ?sc + ?fc" using Cons.prems(4) pr sf by simp
    have bound: "?pc + length (concat rest) \<le> totalRecipients ?doc"
      using Cons.prems(5) pr by simp
    have p1: "processedCount ?doc = ?pc" and p2: "successCount ?doc = ?sc"
      and p3: "failedCount ?doc = ?fc" and tr: "totalRecipients ?doc = totalRecipients doc"
      by simp_all
    show ?thesis
    proof (cases "batchIndex mod 3 = 0 \<or> batchIndex + 1 = n")
      case False
      define w2 where
        "w2 = (if batchIndex + 1 < n then add_events [Wait (RATE_LIMIT_DELAY cfg)] w1 else w1)"
      have rec: "run_batches ev md cfg n (batchIndex + 1) rest ?doc (?pc, ?sc, ?fc) w2 =
          (out, doc', w')"
        using Cons.prems(6) ret False by (simp add: Let_def w2_def)
      have sv2: "save_calls w2 = save_calls w" using sv by (simp add: add_events_def w2_def)
      have ih: "out \<noteq> Hang \<and> totalRecipients doc' = totalRecipients doc \<and>
         processedCount doc' = successCount doc' + failedCount doc' \<and>
         processedCount doc' \<le> totalRecipients doc \<and> ?pc \<le> processedCount doc' \<and>
         (\<exists>new. save_calls w' = save_calls w2 @ new \<and>
            sorted (map (\<lambda>x. processedCount (fst x)) new) \<and>
            (\<forall>x \<in> set new.
               processedCount (fst x) = successCount (fst x) + failedCount (fst x) \<and>
               totalRecipients (fst x) = totalRecipients doc \<and>
               ?pc \<le> processedCount (fst x) \<and>
               processedCount (fst x) \<le> processedCount doc'))"
        using Cons.IH [OF p1 p2 p3 inv bound rec] unfolding tr .
      from ih obtain new where
        a: "out \<noteq> Hang" "totalRecipients doc' = totalRecipients doc"
          "processedCount doc' = successCount doc' + failedCount doc'"
          "processedCount doc' \<le> totalRecipients doc" "?pc \<le> processedCount doc'"
        and b: "save_calls w' = save_calls w2 @ new"
          "sorted (map (\<lambda>x. processedCount (fst x)) new)"
        and c: "\<forall>x \<in> set new.
             processedCount (fst x) = successCount (fst x) + failedCount (fst x) \<and>
             totalRecipients (fst x) = totalRecipients doc \<and>
             ?pc \<le> processedCount (fst x) \<and>
             processedCount (fst x) \<le> processedCount doc'"
        by blast
      have c': "\<forall>x \<in> set new.
             processedCount (fst x) = successCount (fst x) + failedCount (fst x) \<and>
             totalRecipients (fst x) = totalRecipients doc \<and>
             pc \<le> processedCount (fst x) \<and>
             processedCount (fst x) \<le> processedCount doc'"
      proof
        fix x assume "x \<in> set new"
        with c have "processedCount (fst x) = successCount (fst x) + failedCount (fst x) \<and>
             totalRecipients (fst x) = totalRecipients doc \<and>
             ?pc \<le> processedCount (fst x) \<and>
             processedCount (fst x) \<le> processedCount doc'" by blast
        then show "processedCount (fst x) = successCount (fst x) + failedCount (fst x) \<and>
             totalRecipients (fst x) = totalRecipients doc \<and>
             pc \<le> processedCount (fst x) \<and>
             processedCount (fst x) \<le> processedCount doc'" by simp
      qed
      have sw: "save_calls w' = save_calls w @ new" using b(1) sv2 by simp
      have a5: "pc \<le> processedCount doc'" using a(5) by simp
      from a(1-4) a5 sw b(2) c' show ?thesis by blast
    next
      case True
      obtain f w2 where s: "save ev ?doc w1 = (f, w2)" by (cases "save ev ?doc w1")
      from save_result [OF s] sv obtain ok where sv2: "save_calls w2 = save_calls w @ [(?doc, ok)]"
        by auto
      show ?thesis
      proof (cases f)
        case (Some e)
        then have "out = Throw e" "doc' = ?doc" "w' = w2"
          using Cons.prems(6) ret True s by (simp_all add: Let_def)
        then show ?thesis using sv2 inv bound by simp
      next
        case None
        define w3 where
          "w3 = (if batchIndex + 1 < n then add_events [Wait (RATE_LIMIT_DELAY cfg)] w2 else w2)"
        have rec: "run_batches ev md cfg n (batchIndex + 1) rest ?doc (?pc, ?sc, ?fc) w3 =
            (out, doc', w')"
          using Cons.prems(6) ret True s None by (simp add: Let_def w3_def)
        have sv3: "save_calls w3 = save_calls w @ [(?doc, ok)]"
          using sv2 by (simp add: add_events_def w3_def)
        have ih: "out \<noteq> Hang \<and> totalRecipients doc' = totalRecipients doc \<and>
         processedCount doc' = successCount doc' + failedCount doc' \<and>
         processedCount doc' \<le> totalRecipients doc \<and> ?pc \<le> processedCount doc' \<and>
         (\<exists>new. save_calls w' = save_calls w3 @ new \<and>
            sorted (map (\<lambda>x. processedCount (fst x)) new) \<and>
            (\<forall>x \<in> set new.
               processedCount (fst x) = successCount (fst x) + failedCount (fst x) \<and>
               totalRecipients (fst x) = totalRecipients doc \<and>
               ?pc \<le> processedCount (fst x) \<and>
               processedCount (fst x) \<le> processedCount doc'))"
          using Cons.IH [OF p1 p2 p3 inv bound rec] unfolding tr .
        from ih obtain new where
          a: "out \<noteq> Hang" "totalRecipients doc' = totalRecipients doc"
            "processedCount doc' = successCount doc' + failedCount doc'"
            "processedCount doc' \<le> totalRecipients doc" "?pc \<le> processedCount doc'"
          and b: "save_calls w' = save_calls w3 @ new"
            "sorted (map (\<lambda>x. processedCount (fst x)) new)"
          and c: "\<forall>x \<in> set new.
               processedCount (fst x) = successCount (fst x) + failedCount (fst x) \<and>
               totalRecipients (fst x) = totalRecipients doc \<and>
               ?pc \<le> processedCount (fst x) \<and>
               processedCount (fst x) \<le> processedCount doc'"
          by blast
        have a5: "pc \<le> processedCount doc'" using a(5) by simp
        have "save_calls w' = save_calls w @ ((?doc, ok) # new)"
          using b(1) sv3 by simp
        moreover have "sorted (map (\<lambda>x. processedCount (fst x)) ((?doc, ok) # new))"
        proof -
          have "\<forall>x \<in> set new. ?pc \<le> processedCount (fst x)" using c by blast
          with b(2) show ?thesis by simp
        qed
        moreover have "\<forall>x \<in> set ((?doc, ok) # new).
               processedCount (fst x) = successCount (fst x) + failedCount (fst x) \<and>
               totalRecipients (fst x) = totalRecipients doc \<and>
               pc \<le> processedCount (fst x) \<and>
               processedCount (fst x) \<le> processedCount doc'"
        proof
          fix x assume "x \<in> set ((?doc, ok) # new)"
          then consider "x = (?doc, ok)" | "x \<in> set new" by auto
          then show "processedCount (fst x) = successCount (fst x) + failedCount (fst x) \<and>
               totalRecipients (fst x) = totalRecipients doc \<and>
               pc \<le> processedCount (fst x) \<and>
               processedCount (fst x) \<le> processedCount doc'"
          proof cases
            case 1
            then show ?thesis using inv a(5) by simp
          next
            case 2
            with c have "processedCount (fst x) = successCount (fst x) + failedCount (fst x) \<and>
               totalRecipients (fst x) = totalRecipients doc \<and>
               ?pc \<le> processedCount (fst x) \<and>
               processedCount (fst x) \<le> processedCount doc'" by blast
            then show ?thesis by simp
          qed
        qed
        ultimately show ?thesis using a(1-4) a5 by blast
      qed
    qed
  qed
qed

lemma route_batches_Cons:
  "route_batches ev media n batchIndex (batch # rest) doc (pc, sc, fc) w =
     (case insertMany_fault ev (batchIndex * 10) of
        Some e \<Rightarrow> (Throw e, doc, w)
      | None \<Rightarrow>
          (let acc = chunk_loop
                 (route_worker ev media [length (logs w) ..< length (logs w) + length batch] batch)
                 (batchIndex * 10) (batch_loop batch 5 0) (sc, fc, [], []);
               w2 = route_write_updates ev (batchIndex * 10) (fst (snd (snd acc)))
                      (add_events (snd (snd (snd acc)))
                         (w\<lparr>logs := logs w @ map (\<lambda>m. queued_log m DOCUMENT) batch\<rparr>));
               doc' = doc\<lparr>processedCount := pc + length batch, successCount := fst acc,
                          failedCount := fst (snd acc)\<rparr>
           in
           case (if batchIndex mod 3 = 0 \<or> batchIndex + 1 = n then save ev doc' w2
                 else (None, w2)) of
             (Some e, w3) \<Rightarrow> (Throw e, doc', w3)
           | (None, w3) \<Rightarrow>
               route_batches ev media n (batchIndex + 1) rest doc'
                 (pc + length batch, fst acc, fst (snd acc))
                 (if batchIndex + 1 < n then add_events [Wait 50] w3 else w3)))"
  by (simp add: insertMany_def batches_def Let_def split: option.splits prod.splits)

lemma route_batches_saves:
  assumes "processedCount doc = pc" "successCount doc = sc" "failedCount doc = fc"
    and "pc = sc + fc"
    and "pc + length (concat bs) \<le> totalRecipients doc"
    and "route_batches ev media n batchIndex bs doc (pc, sc, fc) w = (out, doc', w')"
  shows "out \<noteq> Hang \<and> totalRecipients doc' = totalRecipients doc \<and>
         processedCount doc' = successCount doc' + failedCount doc' \<and>
         processedCount doc' \<le> totalRecipients doc \<and> pc \<le> processedCount doc' \<and>
         (\<exists>new. save_calls w' = save_calls w @ new \<and>
            sorted (map (\<lambda>x. processedCount (fst x)) new) \<and>
            (\<forall>x \<in> set new.
               processedCount (fst x) = successCount (fst x) + failedCount (fst x) \<and>
               totalRecipients (fst x) = totalRecipients doc \<and>
               pc \<le> processedCount (fst x) \<and>
               processedCount (fst x) \<le> processedCount doc'))"
  using assms
proof (induction bs arbitrary: batchIndex doc pc sc fc w)
  case Nil
  then show ?case by auto
next
  case (Cons batch rest)
  let ?s = "batchIndex * 10"
  show ?case
  proof (cases "insertMany_fault ev ?s")
    case (Some e)
    with Cons.prems show ?thesis by (auto simp: route_batches_Cons simp del: route_batches.simps)
  next
    case noins: None
    define acc where "acc = chunk_loop
        (route_worker ev media [length (logs w) ..< length (logs w) + length batch] batch)
        ?s (batch_loop batch 5 0) (sc, fc, [], [])"
    define w1 where "w1 = route_write_updates ev ?s (fst (snd (snd acc)))
        (add_events (snd (snd (snd acc)))
           (w\<lparr>logs := logs w @ map (\<lambda>m. queued_log m DOCUMENT) batch\<rparr>))"
    let ?pc = "pc + length batch" and ?sc = "fst acc" and ?fc = "fst (snd acc)"
    let ?doc = "doc\<lparr>processedCount := ?pc, successCount := ?sc, failedCount := ?fc\<rparr>"
    have step: "route_batches ev media n batchIndex (batch # rest) doc (pc, sc, fc) w =
        (case (if batchIndex mod 3 = 0 \<or> batchIndex + 1 = n then save ev ?doc w1
               else (None, w1)) of
           (Some e, w3) \<Rightarrow> (Throw e, ?doc, w3)
         | (None, w3) \<Rightarrow>
             route_batches ev media n (batchIndex + 1) rest ?doc (?pc, ?sc, ?fc)
               (if batchIndex + 1 < n then add_events [Wait 50] w3 else w3))"
      using noins unfolding route_batches_Cons acc_def w1_def by (simp add: Let_def)
    have sv: "save_calls w1 = save_calls w"
      by (simp add: w1_def route_write_updates_saves add_events_def)
    have "?sc + ?fc = sc + fc + length (concat (batch_loop batch 5 0))"
      unfolding acc_def by (rule chunk_loop_counts)
    then have inv: "?pc = ?sc + ?fc"
      using Cons.prems(4) by (simp add: concat_batch_loop)
    have bound: "?pc + length (concat rest) \<le> totalRecipients ?doc"
      using Cons.prems(5) by simp
    have p1: "processedCount ?doc = ?pc" and p2: "successCount ?doc = ?sc"
      and p3: "failedCount ?doc = ?fc" and tr: "totalRecipients ?doc = totalRecipients doc"
      by simp_all
    show ?thesis
    proof (cases "batchIndex mod 3 = 0 \<or> batchIndex + 1 = n")
      case False
      define w2 where "w2 = (if batchIndex + 1 < n then add_events [Wait 50] w1 else w1)"
      have rec: "route_batches ev media n (batchIndex + 1) rest ?doc (?pc, ?sc, ?fc) w2 =
          (out, doc', w')"
        using Cons.prems(6) False unfolding step by (simp add: w2_def)
      have sv2: "save_calls w2 = save_calls w" using sv by (simp add: add_events_def w2_def)
      have ih: "out \<noteq> Hang \<and> totalRecipients doc' = totalRecipients doc \<and>
         processedCount doc' = successCount doc' + failedCount doc' \<and>
         processedCount doc' \<le> totalRecipients doc \<and> ?pc \<le> processedCount doc' \<and>
         (\<exists>new. save_calls w' = save_calls w2 @ new \<and>
            sorted (map (\<lambda>x. processedCount (fst x)) new) \<and>
            (\<forall>x \<in> set new.
               processedCount (fst x) = successCount (fst x) + failedCount (fst x) \<and>
               totalRecipients (fst x) = totalRecipients doc \<and>
               ?pc \<le> processedCount (fst x) \<and>
               processedCount (fst x) \<le> processedCount doc'))"
        using Cons.IH [OF p1 p2 p3 inv bound rec] unfolding tr .
      from ih obtain new where
        a: "out \<noteq> Hang" "totalRecipients doc' = totalRecipients doc"
          "processedCount doc' = successCount doc' + failedCount doc'"
          "processedCount doc' \<le> totalRecipients doc" "?pc \<le> processedCount doc'"
        and b: "save_calls w' = save_calls w2 @ new"
          "sorted (map (\<lambda>x. processedCount (fst x)) new)"
        and c: "\<forall>x \<in> set new.
             processedCount (fst x) = successCount (fst x) + failedCount (fst x) \<and>
             totalRecipients (fst x) = totalRecipients doc \<and>
             ?pc \<le> processedCount (fst x) \<and>
             processedCount (fst x) \<le> processedCount doc'"
        by blast
      have c': "\<forall>x \<in> set new.
             processedCount (fst x) = successCount (fst x) + failedCount (fst x) \<and>
             totalRecipients (fst x) = totalRecipients doc \<and>
             pc \<le> processedCount (fst x) \<and>
             processedCount (fst x) \<le> processedCount doc'"
      proof
        fix x assume "x \<in> set new"
        with c have "processedCount (fst x) = successCount (fst x) + failedCount (fst x) \<and>
             totalRecipients (fst x) = totalRecipients doc \<and>
             ?pc \<le> processedCount (fst x) \<and>
             processedCount (fst x) \<le> processedCount doc'" by blast
        then show "processedCount (fst x) = successCount (fst x) + failedCount (fst x) \<and>
             totalRecipients (fst x) = totalRecipients doc \<and>
             pc \<le> processedCount (fst x) \<and>
             processedCount (fst x) \<le> processedCount doc'" by simp
      qed
      have sw: "save_calls w' = save_calls w @ new" using b(1) sv2 by simp
      have a5: "pc \<le> processedCount doc'" using a(5) by simp
      from a(1-4) a5 sw b(2) c' show ?thesis by blast
    next
      case True
      obtain f w2 where s: "save ev ?doc w1 = (f, w2)" by (cases "save ev ?doc w1")
      from save_result [OF s] sv obtain ok where sv2: "save_calls w2 = save_calls w @ [(?doc, ok)]"
        by auto
      show ?thesis
      proof (cases f)
        case (Some e)
        then have "out = Throw e" "doc' = ?doc" "w' = w2"
          using Cons.prems(6) True s unfolding step by simp_all
        then show ?thesis using sv2 inv bound by simp
      next
        case None
        define w3 where "w3 = (if batchIndex + 1 < n then add_events [Wait 50] w2 else w2)"
        have rec: "route_batches ev media n (batchIndex + 1) rest ?doc (?pc, ?sc, ?fc) w3 =
            (out, doc', w')"
          using Cons.prems(6) True s None unfolding step by (simp add: w3_def)
        have sv3: "save_calls w3 = save_calls w @ [(?doc, ok)]"
          using sv2 by (simp add: add_events_def w3_def)
        have ih: "out \<noteq> Hang \<and> totalRecipients doc' = totalRecipients doc \<and>
           processedCount doc' = successCount doc' + failedCount doc' \<and>
           processedCount doc' \<le> totalRecipients doc \<and> ?pc \<le> processedCount doc' \<and>
           (\<exists>new. save_calls w' = save_calls w3 @ new \<and>
              sorted (map (\<lambda>x. processedCount (fst x)) new) \<and>
              (\<forall>x \<in> set new.
                 processedCount (fst x) = successCount (fst x) + failedCount (fst x) \<and>
                 totalRecipients (fst x) = totalRecipients doc \<and>
                 ?pc \<le> processedCount (fst x) \<and>
                 processedCount (fst x) \<le> processedCount doc'))"
          using Cons.IH [OF p1 p2 p3 inv bound rec] unfolding tr .
        from ih obtain new where
          a: "out \<noteq> Hang" "totalRecipients doc' = totalRecipients doc"
            "processedCount doc' = successCount doc' + failedCount doc'"
            "processedCount doc' \<le> totalRecipients doc" "?pc \<le> processedCount doc'"
          and b: "save_calls w' = save_calls w3 @ new"
            "sorted (map (\<lambda>x. processedCount (fst x)) new)"
          and c: "\<forall>x \<in> set new.
               processedCount (fst x) = successCount (fst x) + failedCount (fst x) \<and>
               totalRecipients (fst x) = totalRecipients doc \<and>
               ?pc \<le> processedCount (fst x) \<and>
               processedCount (fst x) \<le> processedCount doc'"
          by blast
        have a5: "pc \<le> processedCount doc'" using a(5) by simp
        have "save_calls w' = save_calls w @ ((?doc, ok) # new)"
          using b(1) sv3 by simp
        moreover have "sorted (map (\<lambda>x. processedCount (fst x)) ((?doc, ok) # new))"
        proof -
          have "\<forall>x \<in> set new. ?pc \<le> processedCount (fst x)" using c by blast
          with b(2) show ?thesis by simp
        qed
        moreover have "\<forall>x \<in> set ((?doc, ok) # new).
               processedCount (fst x) = successCount (fst x) + failedCount (fst x) \<and>
               totalRecipients (fst x) = totalRecipients doc \<and>
               pc \<le> processedCount (fst x) \<and>
               processedCount (fst x) \<le> processedCount doc'"
        proof
          fix x assume "x \<in> set ((?doc, ok) # new)"
          then consider "x = (?doc, ok)" | "x \<in> set new" by auto
          then show "processedCount (fst x) = successCount (fst x) + failedCount (fst x) \<and>
               totalRecipients (fst x) = totalRecipients doc \<and>
               pc \<le> processedCount (fst x) \<and>
               processedCount (fst x) \<le> processedCount doc'"
          proof cases
            case 1
            then show ?thesis using inv a(5) by simp
          next
            case 2
            with c have "processedCount (fst x) = successCount (fst x) + failedCount (fst x) \<and>
               totalRecipients (fst x) = totalRecipients doc \<and>
               ?pc \<le> processedCount (fst x) \<and>
               processedCount (fst x) \<le> processedCount doc'" by blast
            then show ?thesis by simp
          qed
        qed
        ultimately show ?thesis using a(1-4) a5 by blast
      qed
    qed
  qed
qed

lemma sorted_extend:
  fixes f :: "'a \<Rightarrow> nat"
  assumes "sorted (map f new)" and "\<forall>x \<in> set new. f x \<le> m" and "\<forall>x \<in> set t. f x = m"
  shows "sorted (map f (new @ t))"
proof -
  have "sorted (map f t)"
    using assms(3) by (induction t) auto
  then show ?thesis
    using assms by (auto simp: sorted_append)
qed

lemma mark_failed_saves:
  "\<exists>d ok. save_calls (snd (mark_failed ev e doc w)) = save_calls w @ [(d, ok)] \<and>
     processedCount d = processedCount doc \<and> successCount d = successCount doc \<and>
     failedCount d = failedCount doc \<and> totalRecipients d = totalRecipients doc \<and>
     fst (mark_failed ev e doc w) \<noteq> Hang"
  by (auto simp: mark_failed_def save_def split: option.splits)

lemma batch_size_positive:
  "0 < BATCH_SIZE (getOptimalConfig k)" "0 < CONCURRENCY_LIMIT (getOptimalConfig k)"
  by (simp_all add: getOptimalConfig_def)

lemma background_saves:
  assumes "operation w = Some doc0"
    and "processedCount doc0 = 0" "successCount doc0 = 0" "failedCount doc0 = 0"
    and "totalRecipients doc0 = length numbers"
  shows "fst (processBulkMessagesInBackground ev numbers md w) \<noteq> Hang \<and>
     (\<exists>new. save_calls (snd (processBulkMessagesInBackground ev numbers md w)) =
              save_calls w @ new \<and>
        sorted (map (\<lambda>x. processedCount (fst x)) new) \<and>
        (\<forall>x \<in> set new.
           processedCount (fst x) = successCount (fst x) + failedCount (fst x) \<and>
           processedCount (fst x) \<le> totalRecipients (fst x)))"
proof -
  let ?docP = "doc0\<lparr>op_status := PROCESSING\<rparr>"
  let ?cfg = "getOptimalConfig (int (length numbers))"
  let ?bs = "batch_loop numbers (BATCH_SIZE ?cfg) 0"
  let ?f = "\<lambda>x :: BulkOperation \<times> bool. processedCount (fst x)"
  let ?P = "\<lambda>x :: BulkOperation \<times> bool.
     processedCount (fst x) = successCount (fst x) + failedCount (fst x) \<and>
     processedCount (fst x) \<le> totalRecipients (fst x)"
  obtain f0 w1 where s0: "save ev ?docP w = (f0, w1)" by (cases "save ev ?docP w")
  from save_result [OF s0] obtain ok0 where sv1: "save_calls w1 = save_calls w @ [(?docP, ok0)]"
    by auto
  have P0: "?P (?docP, ok0)" using assms by simp
  have bt: "batches numbers (BATCH_SIZE ?cfg) = Some ?bs"
    by (simp add: batches_def batch_size_positive)
  show ?thesis
  proof (cases f0)
    case (Some e)
    then have "processBulkMessagesInBackground ev numbers md w = (Throw e, w1)"
      using assms(1) s0 by (simp add: processBulkMessagesInBackground_def)
    then show ?thesis using sv1 P0 by simp
  next
    case None
    obtain out doc' w2 where rb:
      "run_batches ev md ?cfg (length ?bs) 0 ?bs ?docP (0, 0, 0) w1 = (out, doc', w2)"
      by (cases "run_batches ev md ?cfg (length ?bs) 0 ?bs ?docP (0, 0, 0) w1") auto
    have cat: "0 + length (concat ?bs) \<le> totalRecipients ?docP"
      using assms(5) by (simp add: concat_batch_loop batch_size_positive)
    have "out \<noteq> Hang \<and> totalRecipients doc' = totalRecipients ?docP \<and>
         processedCount doc' = successCount doc' + failedCount doc' \<and>
         processedCount doc' \<le> totalRecipients ?docP \<and> 0 \<le> processedCount doc' \<and>
         (\<exists>new. save_calls w2 = save_calls w1 @ new \<and>
            sorted (map ?f new) \<and>
            (\<forall>x \<in> set new.
               processedCount (fst x) = successCount (fst x) + failedCount (fst x) \<and>
               totalRecipients (fst x) = totalRecipients ?docP \<and>
               0 \<le> processedCount (fst x) \<and>
               processedCount (fst x) \<le> processedCount doc'))"
      by (rule run_batches_saves [OF batch_size_positive(2) _ _ _ _ cat rb])
        (use assms in simp_all)
    then obtain new where
      a: "out \<noteq> Hang" "totalRecipients doc' = totalRecipients ?docP"
        "processedCount doc' = successCount doc' + failedCount doc'"
        "processedCount doc' \<le> totalRecipients ?docP"
      and b: "save_calls w2 = save_calls w1 @ new" "sorted (map ?f new)"
      and c: "\<forall>x \<in> set new.
               processedCount (fst x) = successCount (fst x) + failedCount (fst x) \<and>
               totalRecipients (fst x) = totalRecipients ?docP \<and>
               0 \<le> processedCount (fst x) \<and>
               processedCount (fst x) \<le> processedCount doc'"
      by blast
    have Pnew: "\<forall>x \<in> set new. ?P x"
    proof
      fix x assume "x \<in> set new"
      with c have "processedCount (fst x) = successCount (fst x) + failedCount (fst x) \<and>
               totalRecipients (fst x) = totalRecipients ?docP \<and>
               processedCount (fst x) \<le> processedCount doc'" by blast
      with a(4) show "?P x" by simp
    qed
    have le_new: "\<forall>x \<in> set new. ?f x \<le> processedCount doc'"
      using c by blast
    have le: "\<forall>x \<in> set ((?docP, ok0) # new). ?f x \<le> processedCount doc'"
      using le_new assms(2) by simp
    have sorted0: "sorted (map ?f ((?docP, ok0) # new))"
      using b(2) assms(2) by simp
    have Pdoc: "?P (d, ok)"
      if "processedCount d = processedCount doc'" "successCount d = successCount doc'"
        "failedCount d = failedCount doc'" "totalRecipients d = totalRecipients doc'"
      for d ok
      using that a by simp
    have finish: "\<exists>new'. save_calls w' = save_calls w @ new' \<and> sorted (map ?f new') \<and>
        (\<forall>x \<in> set new'. ?P x)"
      if "save_calls w' = save_calls w2 @ t" and "\<forall>x \<in> set t. ?f x = processedCount doc'"
        and "\<forall>x \<in> set t. ?P x"
      for w' t
    proof -
      have "save_calls w' = save_calls w @ (((?docP, ok0) # new) @ t)"
        using that(1) b(1) sv1 by simp
      moreover have "sorted (map ?f (((?docP, ok0) # new) @ t))"
        using sorted0 le that(2) by (rule sorted_extend)
      moreover have "\<forall>x \<in> set (((?docP, ok0) # new) @ t). ?P x"
        using P0 Pnew that(3) by auto
      ultimately show ?thesis by blast
    qed
    let ?docC = "doc'\<lparr>op_status := COMPLETED,
        completedAt := Some (now ev (length (save_calls w2)))\<rparr>"
    show ?thesis
    proof (cases out)
      case Hang
      with a(1) show ?thesis by simp
    next
      case (Throw e)
      then have eq: "processBulkMessagesInBackground ev numbers md w = mark_failed ev e doc' w2"
        using assms(1) s0 None bt rb by (simp add: processBulkMessagesInBackground_def Let_def)
      from mark_failed_saves [of ev e doc' w2] obtain d ok where
        m: "save_calls (snd (mark_failed ev e doc' w2)) = save_calls w2 @ [(d, ok)]"
          "processedCount d = processedCount doc'" "successCount d = successCount doc'"
          "failedCount d = failedCount doc'" "totalRecipients d = totalRecipients doc'"
          "fst (mark_failed ev e doc' w2) \<noteq> Hang"
        by blast
      from finish [OF m(1)] Pdoc [OF m(2-5)] m(2) m(6) show ?thesis
        unfolding eq by simp
    next
      case (Return u)
      obtain fC w3 where sC: "save ev ?docC w2 = (fC, w3)" by (cases "save ev ?docC w2")
      from save_result [OF sC] obtain okC where
        sv3: "save_calls w3 = save_calls w2 @ [(?docC, okC)]" by auto
      have PC: "?P (?docC, okC)" by (rule Pdoc) simp_all
      show ?thesis
      proof (cases fC)
        case None
        then have eq: "processBulkMessagesInBackground ev numbers md w = (Return (), w3)"
          using assms(1) s0 \<open>f0 = None\<close> bt rb Return sC
          by (simp add: processBulkMessagesInBackground_def Let_def)
        from finish [OF sv3] PC show ?thesis unfolding eq by simp
      next
        case (Some e)
        then have eq: "processBulkMessagesInBackground ev numbers md w =
            mark_failed ev e ?docC w3"
          using assms(1) s0 \<open>f0 = None\<close> bt rb Return sC
          by (simp add: processBulkMessagesInBackground_def Let_def)
        from mark_failed_saves [of ev e ?docC w3] obtain d ok where
          m: "save_calls (snd (mark_failed ev e ?docC w3)) = save_calls w3 @ [(d, ok)]"
            "processedCount d = processedCount ?docC" "successCount d = successCount ?docC"
            "failedCount d = failedCount ?docC" "totalRecipients d = totalRecipients ?docC"
            "fst (mark_failed ev e ?docC w3) \<noteq> Hang"
          by blast
        have Pd: "?P (d, ok)" by (rule Pdoc) (use m in simp_all)
        have "save_calls (snd (mark_failed ev e ?docC w3)) =
            save_calls w2 @ [(?docC, okC), (d, ok)]"
          using m(1) sv3 by simp
        from finish [OF this] PC Pd m(2) m(6) show ?thesis
          unfolding eq by simp
      qed
    qed
  qed
qed

lemma processBulkMessage_saves:
  "fst (processBulkMessage ev md w) \<noteq> Hang \<and>
     (\<exists>new. save_calls (snd (processBulkMessage ev md w)) = save_calls w @ new \<and>
        sorted (map (\<lambda>x. processedCount (fst x)) new) \<and>
        (\<forall>x \<in> set new.
           processedCount (fst x) = successCount (fst x) + failedCount (fst x) \<and>
           processedCount (fst x) \<le> totalRecipients (fst x)))"
proof (cases "create_fault ev")
  case (Some e)
  then show ?thesis by (simp add: processBulkMessage_def)
next
  case None
  let ?doc = "\<lparr>totalRecipients = length (mobileNumbers md), processedCount = 0,
      successCount = 0, failedCount = 0, op_status = PENDING, op_error = None,
      completedAt = None\<rparr>"
  let ?w0 = "w\<lparr>operation := Some ?doc, save_calls := save_calls w @ [(?doc, True)]\<rparr>"
  have eq: "processBulkMessage ev md w =
      processBulkMessagesInBackground ev (mobileNumbers md) md ?w0"
    using None by (simp add: processBulkMessage_def Let_def)
  from background_saves [of ?w0 ?doc "mobileNumbers md" ev md]
  obtain new where
    h: "fst (processBulkMessagesInBackground ev (mobileNumbers md) md ?w0) \<noteq> Hang"
    and n: "save_calls (snd (processBulkMessagesInBackground ev (mobileNumbers md) md ?w0)) =
        save_calls ?w0 @ new"
      "sorted (map (\<lambda>x. processedCount (fst x)) new)"
      "\<forall>x \<in> set new.
         processedCount (fst x) = successCount (fst x) + failedCount (fst x) \<and>
         processedCount (fst x) \<le> totalRecipients (fst x)"
    by auto
  have "save_calls (snd (processBulkMessage ev md w)) = save_calls w @ ((?doc, True) # new)"
    using n(1) eq by simp
  moreover have "sorted (map (\<lambda>x. processedCount (fst x)) ((?doc, True) # new))"
    using n(2) by simp
  moreover have "\<forall>x \<in> set ((?doc, True) # new).
         processedCount (fst x) = successCount (fst x) + failedCount (fst x) \<and>
         processedCount (fst x) \<le> totalRecipients (fst x)"
    using n(3) by auto
  moreover have "fst (processBulkMessage ev md w) \<noteq> Hang"
    using h eq by simp
  ultimately show ?thesis by blast
qed

lemma csv_bulk_document_saves:
  "fst (csv_bulk_document ev numbers media w) \<noteq> Hang \<and>
     (\<exists>new. save_calls (snd (csv_bulk_document ev numbers media w)) = save_calls w @ new \<and>
        sorted (map (\<lambda>x. processedCount (fst x)) new) \<and>
        (\<forall>x \<in> set new.
           processedCount (fst x) = successCount (fst x) + failedCount (fst x) \<and>
           processedCount (fst x) \<le> totalRecipients (fst x)))"
proof (cases "numbers = [] \<or> create_fault ev \<noteq> None")
  case True
  then show ?thesis by (auto simp: csv_bulk_document_def)
next
  case False
  then have some: "numbers \<noteq> []" and nocreate: "create_fault ev = None" by simp_all
  let ?doc = "\<lparr>totalRecipients = length numbers, processedCount = 0,
      successCount = 0, failedCount = 0, op_status = PENDING, op_error = None,
      completedAt = None\<rparr>"
  let ?w0 = "w\<lparr>operation := Some ?doc, save_calls := save_calls w @ [(?doc, True)]\<rparr>"
  let ?docP = "?doc\<lparr>op_status := PROCESSING\<rparr>"
  let ?bs = "batch_loop numbers 10 0"
  let ?f = "\<lambda>x :: BulkOperation \<times> bool. processedCount (fst x)"
  let ?P = "\<lambda>x :: BulkOperation \<times> bool.
     processedCount (fst x) = successCount (fst x) + failedCount (fst x) \<and>
     processedCount (fst x) \<le> totalRecipients (fst x)"
  obtain f0 w1 where s0: "save ev ?docP ?w0 = (f0, w1)" by (cases "save ev ?docP ?w0")
  from save_result [OF s0] obtain ok0 where
    sv1: "save_calls w1 = save_calls w @ [(?doc, True), (?docP, ok0)]"
    by auto
  have bt: "batches numbers 10 = Some ?bs"
    by (simp add: batches_def)
  show ?thesis
  proof (cases f0)
    case (Some e)
    then have "csv_bulk_document ev numbers media w = (Throw e, w1)"
      using some nocreate s0 by (simp add: csv_bulk_document_def)
    then show ?thesis using sv1 by simp
  next
    case None
    obtain out doc' w2 where rb:
      "route_batches ev media (length ?bs) 0 ?bs ?docP (0, 0, 0) w1 = (out, doc', w2)"
      by (cases "route_batches ev media (length ?bs) 0 ?bs ?docP (0, 0, 0) w1") auto
    have cat: "0 + length (concat ?bs) \<le> totalRecipients ?docP"
      by (simp add: concat_batch_loop)
    have "out \<noteq> Hang \<and> totalRecipients doc' = totalRecipients ?docP \<and>
         processedCount doc' = successCount doc' + failedCount doc' \<and>
         processedCount doc' \<le> totalRecipients ?docP \<and> 0 \<le> processedCount doc' \<and>
         (\<exists>new. save_calls w2 = save_calls w1 @ new \<and>
            sorted (map ?f new) \<and>
            (\<forall>x \<in> set new.
               processedCount (fst x) = successCount (fst x) + failedCount (fst x) \<and>
               totalRecipients (fst x) = totalRecipients ?docP \<and>
               0 \<le> processedCount (fst x) \<and>
               processedCount (fst x) \<le> processedCount doc'))"
      by (rule route_batches_saves [OF _ _ _ _ cat rb]) simp_all
    then obtain new where
      a: "out \<noteq> Hang" "totalRecipients doc' = totalRecipients ?docP"
        "processedCount doc' = successCount doc' + failedCount doc'"
        "processedCount doc' \<le> totalRecipients ?docP"
      and b: "save_calls w2 = save_calls w1 @ new" "sorted (map ?f new)"
      and c: "\<forall>x \<in> set new.
               processedCount (fst x) = successCount (fst x) + failedCount (fst x) \<and>
               totalRecipients (fst x) = totalRecipients ?docP \<and>
               0 \<le> processedCount (fst x) \<and>
               processedCount (fst x) \<le> processedCount doc'"
      by blast
    have Pnew: "\<forall>x \<in> set new. ?P x"
    proof
      fix x assume "x \<in> set new"
      with c have "processedCount (fst x) = successCount (fst x) + failedCount (fst x) \<and>
               totalRecipients (fst x) = totalRecipients ?docP \<and>
               processedCount (fst x) \<le> processedCount doc'" by blast
      with a(4) show "?P x" by simp
    qed
    have le_new: "\<forall>x \<in> set new. ?f x \<le> processedCount doc'"
      using c by blast
    have le: "\<forall>x \<in> set ((?doc, True) # (?docP, ok0) # new). ?f x \<le> processedCount doc'"
      using le_new by simp
    have sorted0: "sorted (map ?f ((?doc, True) # (?docP, ok0) # new))"
      using b(2) by simp
    have P0: "\<forall>x \<in> set ((?doc, True) # (?docP, ok0) # new). ?P x"
    proof
      fix x assume "x \<in> set ((?doc, True) # (?docP, ok0) # new)"
      then consider "x = (?doc, True)" | "x = (?docP, ok0)" | "x \<in> set new" by auto
      then show "?P x"
      proof cases
        case 3
        with Pnew show ?thesis by blast
      qed simp_all
    qed
    have finish: "\<exists>new'. save_calls w' = save_calls w @ new' \<and> sorted (map ?f new') \<and>
        (\<forall>x \<in> set new'. ?P x)"
      if "save_calls w' = save_calls w2 @ t" and "\<forall>x \<in> set t. ?f x = processedCount doc'"
        and "\<forall>x \<in> set t. ?P x"
      for w' t
    proof -
      have "save_calls w' = save_calls w @ (((?doc, True) # (?docP, ok0) # new) @ t)"
        using that(1) b(1) sv1 by simp
      moreover have "sorted (map ?f (((?doc, True) # (?docP, ok0) # new) @ t))"
        using sorted0 le that(2) by (rule sorted_extend)
      moreover have "\<forall>x \<in> set (((?doc, True) # (?docP, ok0) # new) @ t). ?P x"
        using P0 that(3) by auto
      ultimately show ?thesis by blast
    qed
    let ?docC = "doc'\<lparr>op_status := COMPLETED,
        completedAt := Some (now ev (length (save_calls w2)))\<rparr>"
    show ?thesis
    proof (cases out)
      case Hang
      with a(1) show ?thesis by simp
    next
      case (Throw e)
      then have eq: "csv_bulk_document ev numbers media w = (Throw e, w2)"
        using some nocreate s0 None bt rb by (simp add: csv_bulk_document_def Let_def)
      from finish [of w2 "[]"] show ?thesis unfolding eq by simp
    next
      case (Return u)
      obtain fC w3 where sC: "save ev ?docC w2 = (fC, w3)" by (cases "save ev ?docC w2")
      from save_result [OF sC] obtain okC where
        sv3: "save_calls w3 = save_calls w2 @ [(?docC, okC)]" by auto
      have PC: "?P (?docC, okC)" using a by simp
      have "csv_bulk_document ev numbers media w =
          ((case fC of None \<Rightarrow> Return () | Some e \<Rightarrow> Throw e), w3)"
        using some nocreate s0 None bt rb Return sC
        by (simp add: csv_bulk_document_def Let_def split: option.splits)
      then have eq: "snd (csv_bulk_document ev numbers media w) = w3"
        and nh: "fst (csv_bulk_document ev numbers media w) \<noteq> Hang"
        by (simp_all split: option.splits)
      from finish [OF sv3] PC nh show ?thesis unfolding eq by simp
    qed
  qed
qed

lemma checkpoints_append:
  "save_calls w' = save_calls w @ new \<Longrightarrow>
   checkpoints w' = checkpoints w @ map fst (filter snd new)"
  by (simp add: checkpoints_def)

lemma sorted_settled:
  assumes "sorted (map (\<lambda>x. processedCount (fst x)) new)"
    and "\<forall>x \<in> set new.
           processedCount (fst x) = successCount (fst x) + failedCount (fst x) \<and>
           processedCount (fst x) \<le> totalRecipients (fst x)"
  shows "sorted (map (\<lambda>x. successCount (fst x) + failedCount (fst x)) new) \<and>
         sorted (map (\<lambda>d. successCount d + failedCount d) (map fst (filter snd new)))"
proof -
  have eq: "map (\<lambda>x. successCount (fst x) + failedCount (fst x)) new =
      map (\<lambda>x. processedCount (fst x)) new"
    using assms(2) by (intro map_cong) auto
  have s: "sorted (map (\<lambda>x. successCount (fst x) + failedCount (fst x)) new)"
    unfolding eq by (rule assms(1))
  from sorted_filter [OF s, of snd]
  have "sorted (map (\<lambda>d. successCount d + failedCount d) (map fst (filter snd new)))"
    by (simp add: comp_def)
  with s show ?thesis by simp
qed

text \<open>
  C3. In both paths, started from any state, every document handed to \<open>save\<close> (the
  checkpoints during the batches and the terminal states; the documents the store took
  are among them) has \<open>processedCount = successCount + failedCount\<close> and
  \<open>processedCount \<le> totalRecipients\<close>, and along the saves of a run, and so along its
  checkpoints, \<open>successCount + failedCount\<close> never decreases.
\<close>

theorem counters_consistent_at_every_save:
  "(\<exists>new. save_calls (snd (processBulkMessage ev md w)) = save_calls w @ new \<and>
      checkpoints (snd (processBulkMessage ev md w)) = checkpoints w @ map fst (filter snd new) \<and>
      (\<forall>x \<in> set new.
         processedCount (fst x) = successCount (fst x) + failedCount (fst x) \<and>
         processedCount (fst x) \<le> totalRecipients (fst x)) \<and>
      sorted (map (\<lambda>x. successCount (fst x) + failedCount (fst x)) new) \<and>
      sorted (map (\<lambda>d. successCount d + failedCount d) (map fst (filter snd new)))) \<and>
   (\<exists>new. save_calls (snd (csv_bulk_document ev numbers media w)) = save_calls w @ new \<and>
      checkpoints (snd (csv_bulk_document ev numbers media w)) =
        checkpoints w @ map fst (filter snd new) \<and>
      (\<forall>x \<in> set new.
         processedCount (fst x) = successCount (fst x) + failedCount (fst x) \<and>
         processedCount (fst x) \<le> totalRecipients (fst x)) \<and>
      sorted (map (\<lambda>x. successCount (fst x) + failedCount (fst x)) new) \<and>
      sorted (map (\<lambda>d. successCount d + failedCount d) (map fst (filter snd new))))"
proof
  from processBulkMessage_saves [of ev md w] obtain new where
    n: "save_calls (snd (processBulkMessage ev md w)) = save_calls w @ new"
      "sorted (map (\<lambda>x. processedCount (fst x)) new)"
      "\<forall>x \<in> set new.
         processedCount (fst x) = successCount (fst x) + failedCount (fst x) \<and>
         processedCount (fst x) \<le> totalRecipients (fst x)"
    by blast
  from n(1) checkpoints_append [OF n(1)] n(3) sorted_settled [OF n(2) n(3)]
  show "\<exists>new. save_calls (snd (processBulkMessage ev md w)) = save_calls w @ new \<and>
      checkpoints (snd (processBulkMessage ev md w)) = checkpoints w @ map fst (filter snd new) \<and>
      (\<forall>x \<in> set new.
         processedCount (fst x) = successCount (fst x) + failedCount (fst x) \<and>
         processedCount (fst x) \<le> totalRecipients (fst x)) \<and>
      sorted (map (\<lambda>x. successCount (fst x) + failedCount (fst x)) new) \<and>
      sorted (map (\<lambda>d. successCount d + failedCount d) (map fst (filter snd new)))"
    by blast
next
  from csv_bulk_document_saves [of ev numbers media w] obtain new where
    n: "save_calls (snd (csv_bulk_document ev numbers media w)) = save_calls w @ new"
      "sorted (map (\<lambda>x. processedCount (fst x)) new)"
      "\<forall>x \<in> set new.
         processedCount (fst x) = successCount (fst x) + failedCount (fst x) \<and>
         processedCount (fst x) \<le> totalRecipients (fst x)"
    by blast
  from n(1) checkpoints_append [OF n(1)] n(3) sorted_settled [OF n(2) n(3)]
  show "\<exists>new. save_calls (snd (csv_bulk_document ev numbers media w)) = save_calls w @ new \<and>
      checkpoints (snd (csv_bulk_document ev numbers media w)) =
        checkpoints w @ map fst (filter snd new) \<and>
      (\<forall>x \<in> set new.
         processedCount (fst x) = successCount (fst x) + failedCount (fst x) \<and>
         processedCount (fst x) \<le> totalRecipients (fst x)) \<and>
      sorted (map (\<lambda>x. successCount (fst x) + failedCount (fst x)) new) \<and>
      sorted (map (\<lambda>d. successCount d + failedCount d) (map fst (filter snd new)))"
    by blast
qed

lemma single_run_saves:
  assumes "create_fault ev = None" "\<forall>k. save_fault ev k = None"
    and "insertMany_fault ev 0 = None" "bulkWrite_fault ev 0 = None"
    and "mobileNumbers md = [n]"
    and "run_worker ev md [0] 0 0 n = (res, [UpdateOne 0 c], evs)"
  shows "map (\<lambda>x. (processedCount (fst x), successCount (fst x), failedCount (fst x),
                   op_status (fst x), snd x))
           (save_calls (snd (processBulkMessage ev md empty_world))) =
     [(0, 0, 0, PENDING, True), (0, 0, 0, PROCESSING, True),
      (1, if is_success res then 1 else 0, if is_success res then 0 else 1, PROCESSING, True),
      (1, if is_success res then 1 else 0, if is_success res then 0 else 1, COMPLETED, True)]"
proof -
  let ?doc = "\<lparr>totalRecipients = 1, processedCount = 0, successCount = 0, failedCount = 0,
      op_status = PENDING, op_error = None, completedAt = None\<rparr>"
  let ?w0 = "empty_world\<lparr>operation := Some ?doc,
      save_calls := save_calls empty_world @ [(?doc, True)]\<rparr>"
  let ?w1 = "snd (save ev (?doc\<lparr>op_status := PROCESSING\<rparr>) ?w0)"
  have w1: "save ev (?doc\<lparr>op_status := PROCESSING\<rparr>) ?w0 = (None, ?w1)"
    using assms(2) by (simp add: save_def)
  have l1: "logs ?w1 = []" "events ?w1 = []"
    using assms(2) by (simp_all add: save_def empty_world_def)
  have b: "processBatchWithConcurrency ev [n] md 0
      \<lparr>CONCURRENCY_LIMIT = 2, BATCH_SIZE = 5, RATE_LIMIT_DELAY = 200\<rparr> ?w1 =
     (Return \<lparr>processed = 1, success = (if is_success res then 1 else 0),
               failed = (if is_success res then 0 else 1)\<rparr>,
      ?w1\<lparr>logs := logs ?w1 @
               [change_log c (queued_log (formatMobileNumber n) (data_type md))],
        events := events ?w1 @ evs\<rparr>)"
    by (rule processBatch_single) (use assms l1 in simp_all)
  show ?thesis
    using assms(1,2,5) w1 b l1
    by (simp add: processBulkMessage_def processBulkMessagesInBackground_def batches_singleton
        getOptimalConfig_1 Let_def save_def empty_world_def)
qed

lemma run_worker_delivered:
  "wid \<noteq> [] \<Longrightarrow>
   run_worker (no_faults (\<lambda>p k req. delivered wid)) (text_message ns) [i] p 0 n =
     (Fulfilled (Sent n (Some wid)), [UpdateOne i (SetSent (Some wid))], [Attempt p n])"
proof -
  assume wid: "wid \<noteq> []"
  let ?ev = "no_faults (\<lambda>p k req. delivered wid)"
  have "send_by_type (text_message ns) (gateway ?ev p 0) n =
      Inr \<lparr>messages = Some [\<lparr>msg_id = Some wid\<rparr>]\<rparr>"
    using wid by (simp add: no_faults_def send_text_delivered)
  then have "retry_loop (\<lambda>retries. send_by_type (text_message ns) (gateway ?ev p retries) n)
      p n 0 = (Inr (Some \<lparr>messages = Some [\<lparr>msg_id = Some wid\<rparr>]\<rparr>), [Attempt p n])"
    by (intro retry_loop_success) (simp_all add: maxRetries_def)
  then show ?thesis
    by (simp add: run_worker_success at_index_def first_message_id_def)
qed

theorem counters_consistent_at_every_save_witness:
  "map (\<lambda>x. (processedCount (fst x), successCount (fst x), failedCount (fst x),
              op_status (fst x), snd x))
     (save_calls (snd (processBulkMessage (no_faults (\<lambda>p k req. delivered ''wamid.1''))
        (text_message [''919000000001'']) empty_world))) =
     [(0, 0, 0, PENDING, True), (0, 0, 0, PROCESSING, True), (1, 1, 0, PROCESSING, True),
      (1, 1, 0, COMPLETED, True)] \<and>
   (\<exists>new. save_calls (snd (processBulkMessage (no_faults (\<lambda>p k req. delivered ''wamid.1''))
        (text_message [''919000000001'']) empty_world)) = save_calls empty_world @ new \<and>
      checkpoints (snd (processBulkMessage (no_faults (\<lambda>p k req. delivered ''wamid.1''))
        (text_message [''919000000001'']) empty_world)) =
        checkpoints empty_world @ map fst (filter snd new) \<and>
      (\<forall>x \<in> set new.
         processedCount (fst x) = successCount (fst x) + failedCount (fst x) \<and>
         processedCount (fst x) \<le> totalRecipients (fst x)) \<and>
      sorted (map (\<lambda>x. successCount (fst x) + failedCount (fst x)) new) \<and>
      sorted (map (\<lambda>d. successCount d + failedCount d) (map fst (filter snd new)))) \<and>
   (\<exists>new. save_calls (snd (csv_bulk_document (no_faults (\<lambda>p k req. delivered ''wamid.1''))
        [''919000000001''] ''media1'' empty_world)) = save_calls empty_world @ new \<and>
      checkpoints (snd (csv_bulk_document (no_faults (\<lambda>p k req. delivered ''wamid.1''))
        [''919000000001''] ''media1'' empty_world)) =
        checkpoints empty_world @ map fst (filter snd new) \<and>
      (\<forall>x \<in> set new.
         processedCount (fst x) = successCount (fst x) + failedCount (fst x) \<and>
         processedCount (fst x) \<le> totalRecipients (fst x)) \<and>
      sorted (map (\<lambda>x. successCount (fst x) + failedCount (fst x)) new) \<and>
      sorted (map (\<lambda>d. successCount d + failedCount d) (map fst (filter snd new))))"
proof -
  let ?ev = "no_faults (\<lambda>p k req. delivered ''wamid.1'')"
  let ?md = "text_message [''919000000001'']"
  have rw: "run_worker ?ev ?md [0] 0 0 ''919000000001'' =
      (Fulfilled (Sent ''919000000001'' (Some ''wamid.1'')),
       [UpdateOne 0 (SetSent (Some ''wamid.1''))], [Attempt 0 ''919000000001''])"
    by (rule run_worker_delivered) simp
  have one: "map (\<lambda>x. (processedCount (fst x), successCount (fst x), failedCount (fst x),
              op_status (fst x), snd x))
     (save_calls (snd (processBulkMessage ?ev ?md empty_world))) =
     [(0, 0, 0, PENDING, True), (0, 0, 0, PROCESSING, True), (1, 1, 0, PROCESSING, True),
      (1, 1, 0, COMPLETED, True)]"
    using single_run_saves [OF no_faults_store text_message_fields(1) rw] by simp
  from one counters_consistent_at_every_save [of ?ev ?md empty_world "[''919000000001'']"
      "''media1''"]
  show ?thesis by (intro conjI) simp_all
qed

subsection \<open>The terminal transition of the operation\<close>

lemma processBatch_throw:
  "processBatchWithConcurrency ev numbers md s cfg w = (Throw e, w') \<Longrightarrow>
   insertMany_fault ev s = Some e"
  by (auto simp: processBatchWithConcurrency_def insertMany_def split: option.splits prod.splits)

lemma save_cases:
  assumes "save ev doc w = (f, w')"
  shows "(f = None \<and> save_calls w' = save_calls w @ [(doc, True)] \<and> operation w' = Some doc) \<or>
         (\<exists>e. f = Some e \<and> save_fault ev (length (save_calls w)) = Some e \<and>
              save_calls w' = save_calls w @ [(doc, False)])"
  using assms by (auto simp: save_def split: option.splits)

lemma run_batches_status:
  assumes "0 < CONCURRENCY_LIMIT cfg"
    and "run_batches ev md cfg n batchIndex bs doc (pc, sc, fc) w = (out, doc', w')"
  shows "unchanged_state doc' doc \<and>
         (\<exists>new. save_calls w' = save_calls w @ new \<and>
                (\<forall>x \<in> set new. unchanged_state (fst x) doc)) \<and>
         (out = Return () \<or> (\<exists>e. out = Throw e \<and> store_fault ev e))"
  using assms(2)
proof (induction bs arbitrary: batchIndex doc pc sc fc w)
  case Nil
  then show ?case by auto
next
  case (Cons batch rest)
  let ?s = "batchIndex * BATCH_SIZE cfg"
  from processBatch_cases [OF assms(1), of ev batch md ?s w]
  show ?case
  proof (elim disjE exE conjE)
    fix e
    assume t: "processBatchWithConcurrency ev batch md ?s cfg w = (Throw e, w)"
    from processBatch_throw [OF t] have "store_fault ev e" by blast
    moreover have "out = Throw e" "doc' = doc" "w' = w" using Cons.prems t by simp_all
    ultimately show ?thesis by simp
  next
    fix r w1
    assume ret: "processBatchWithConcurrency ev batch md ?s cfg w = (Return r, w1)"
      and sv: "save_calls w1 = save_calls w"
    let ?pc = "pc + processed r" and ?sc = "sc + success r" and ?fc = "fc + failed r"
    let ?doc = "doc\<lparr>processedCount := ?pc, successCount := ?sc, failedCount := ?fc\<rparr>"
    have un: "unchanged_state ?doc doc" by simp
    show ?thesis
    proof (cases "batchIndex mod 3 = 0 \<or> batchIndex + 1 = n")
      case False
      define w2 where
        "w2 = (if batchIndex + 1 < n then add_events [Wait (RATE_LIMIT_DELAY cfg)] w1 else w1)"
      have rec: "run_batches ev md cfg n (batchIndex + 1) rest ?doc (?pc, ?sc, ?fc) w2 =
          (out, doc', w')"
        using Cons.prems ret False by (simp add: Let_def w2_def)
      have sv2: "save_calls w2 = save_calls w" using sv by (simp add: add_events_def w2_def)
      from Cons.IH [OF rec] obtain new where
        a: "unchanged_state doc' ?doc"
        and b: "save_calls w' = save_calls w2 @ new"
        and c: "\<forall>x \<in> set new. unchanged_state (fst x) ?doc"
        and d: "out = Return () \<or> (\<exists>e. out = Throw e \<and> store_fault ev e)"
        by blast
      have "save_calls w' = save_calls w @ new" using b sv2 by simp
      moreover have "\<forall>x \<in> set new. unchanged_state (fst x) doc" using c by simp
      moreover have "unchanged_state doc' doc" using a by simp
      ultimately show ?thesis using d by blast
    next
      case True
      obtain f w2 where s: "save ev ?doc w1 = (f, w2)" by (cases "save ev ?doc w1")
      from save_cases [OF s]
      show ?thesis
      proof (elim disjE exE conjE)
        fix e
        assume f: "f = Some e" and fault: "save_fault ev (length (save_calls w1)) = Some e"
          and sv2: "save_calls w2 = save_calls w1 @ [(?doc, False)]"
        have "out = Throw e" "doc' = ?doc" "w' = w2"
          using Cons.prems ret True s f by (simp_all add: Let_def)
        moreover have "store_fault ev e" using fault by blast
        ultimately show ?thesis using sv2 sv by simp
      next
        assume f: "f = None" and sv2: "save_calls w2 = save_calls w1 @ [(?doc, True)]"
        define w3 where
          "w3 = (if batchIndex + 1 < n then add_events [Wait (RATE_LIMIT_DELAY cfg)] w2 else w2)"
        have rec: "run_batches ev md cfg n (batchIndex + 1) rest ?doc (?pc, ?sc, ?fc) w3 =
            (out, doc', w')"
          using Cons.prems ret True s f by (simp add: Let_def w3_def)
        have sv3: "save_calls w3 = save_calls w @ [(?doc, True)]"
          using sv2 sv by (simp add: add_events_def w3_def)
        from Cons.IH [OF rec] obtain new where
          a: "unchanged_state doc' ?doc"
          and b: "save_calls w' = save_calls w3 @ new"
          and c: "\<forall>x \<in> set new. unchanged_state (fst x) ?doc"
          and d: "out = Return () \<or> (\<exists>e. out = Throw e \<and> store_fault ev e)"
          by blast
        have "save_calls w' = save_calls w @ ((?doc, True) # new)" using b sv3 by simp
        moreover have "\<forall>x \<in> set ((?doc, True) # new). unchanged_state (fst x) doc"
          using c by simp
        moreover have "unchanged_state doc' doc" using a by simp
        ultimately show ?thesis using d by blast
      qed
    qed
  qed
qed

lemma String_error_nonempty: "String_error e \<noteq> []"
proof -
  have "class_name k \<noteq> []" for k by (cases k) simp_all
  then show ?thesis by (simp add: String_error_def)
qed

lemma mark_failed_shape:
  "\<exists>f ok. save_calls (snd (mark_failed ev e doc w)) = save_calls w @ [(f, ok)] \<and>
     failed_with f e"
  by (auto simp: mark_failed_def save_def String_error_nonempty split: option.splits)

lemma shapeI:
  assumes "calls = before @ pre @ fin" and "\<forall>x \<in> set pre. P x" and "Q fin"
  shows "\<exists>pre fin. calls = before @ pre @ fin \<and> (\<forall>x \<in> set pre. P x) \<and> Q fin"
  using assms by blast

lemma processBulkMessage_shape:
  "\<exists>pre fin. save_calls (snd (processBulkMessage ev md w)) = save_calls w @ pre @ fin \<and>
     (\<forall>x \<in> set pre. running (fst x)) \<and>
     ((fin = [] \<and> (create_fault ev \<noteq> None \<or> (\<exists>k e. save_fault ev k = Some e))) \<or>
      (\<exists>c. fin = [(c, True)] \<and> completed c \<and>
           processBulkMessage ev md w = (Return (), snd (processBulkMessage ev md w)) \<and>
           operation (snd (processBulkMessage ev md w)) = Some c) \<or>
      (\<exists>f ok e. fin = [(f, ok)] \<and> failed_with f e \<and> store_fault ev e) \<or>
      (\<exists>c f ok e. fin = [(c, False), (f, ok)] \<and> completed c \<and> failed_with f e \<and>
           store_fault ev e))"
proof (cases "create_fault ev")
  case (Some e)
  then have "processBulkMessage ev md w = (Throw e, w)" by (simp add: processBulkMessage_def)
  then have "save_calls (snd (processBulkMessage ev md w)) = save_calls w @ [] @ []" by simp
  moreover have "\<forall>x \<in> set ([] :: (BulkOperation \<times> bool) list). running (fst x)" by simp
  moreover have "(([] :: (BulkOperation \<times> bool) list) = [] \<and> (create_fault ev \<noteq> None \<or> (\<exists>k e. save_fault ev k = Some e))) \<or>
      (\<exists>c. ([] :: (BulkOperation \<times> bool) list) = [(c, True)] \<and> completed c \<and>
           processBulkMessage ev md w = (Return (), snd (processBulkMessage ev md w)) \<and>
           operation (snd (processBulkMessage ev md w)) = Some c) \<or>
      (\<exists>f ok e. ([] :: (BulkOperation \<times> bool) list) = [(f, ok)] \<and> failed_with f e \<and> store_fault ev e) \<or>
      (\<exists>c f ok e. ([] :: (BulkOperation \<times> bool) list) = [(c, False), (f, ok)] \<and> completed c \<and> failed_with f e \<and>
           store_fault ev e)"
    using Some by simp
  ultimately show ?thesis by (rule shapeI)
next
  case nocreate: None
  let ?numbers = "mobileNumbers md"
  let ?doc = "\<lparr>totalRecipients = length ?numbers, processedCount = 0,
      successCount = 0, failedCount = 0, op_status = PENDING, op_error = None,
      completedAt = None\<rparr>"
  let ?w0 = "w\<lparr>operation := Some ?doc, save_calls := save_calls w @ [(?doc, True)]\<rparr>"
  let ?docP = "?doc\<lparr>op_status := PROCESSING\<rparr>"
  let ?cfg = "getOptimalConfig (int (length ?numbers))"
  let ?bs = "batch_loop ?numbers (BATCH_SIZE ?cfg) 0"
  have eq0: "processBulkMessage ev md w = processBulkMessagesInBackground ev ?numbers md ?w0"
    using nocreate by (simp add: processBulkMessage_def Let_def)
  have bt: "batches ?numbers (BATCH_SIZE ?cfg) = Some ?bs"
    by (simp add: batches_def batch_size_positive)
  obtain f0 w1 where s0: "save ev ?docP ?w0 = (f0, w1)" by (cases "save ev ?docP ?w0")
  from save_cases [OF s0]
  show ?thesis
  proof (elim disjE exE conjE)
    fix e
    assume f: "f0 = Some e" and fault: "save_fault ev (length (save_calls ?w0)) = Some e"
      and sv1: "save_calls w1 = save_calls ?w0 @ [(?docP, False)]"
    have "processBulkMessage ev md w = (Throw e, w1)"
      using s0 f unfolding eq0 by (simp add: processBulkMessagesInBackground_def)
    then have "save_calls (snd (processBulkMessage ev md w)) =
        save_calls w @ [(?doc, True), (?docP, False)] @ []"
      using sv1 by simp
    moreover have "\<forall>x \<in> set [(?doc, True), (?docP, False)]. running (fst x)" by simp
    moreover have "(([] :: (BulkOperation \<times> bool) list) = [] \<and> (create_fault ev \<noteq> None \<or> (\<exists>k e. save_fault ev k = Some e))) \<or>
      (\<exists>c. ([] :: (BulkOperation \<times> bool) list) = [(c, True)] \<and> completed c \<and>
           processBulkMessage ev md w = (Return (), snd (processBulkMessage ev md w)) \<and>
           operation (snd (processBulkMessage ev md w)) = Some c) \<or>
      (\<exists>f ok e. ([] :: (BulkOperation \<times> bool) list) = [(f, ok)] \<and> failed_with f e \<and> store_fault ev e) \<or>
      (\<exists>c f ok e. ([] :: (BulkOperation \<times> bool) list) = [(c, False), (f, ok)] \<and> completed c \<and> failed_with f e \<and>
           store_fault ev e)"
      using fault by blast
    ultimately show ?thesis by (rule shapeI)
  next
    assume f: "f0 = None" and sv1: "save_calls w1 = save_calls ?w0 @ [(?docP, True)]"
    obtain out doc' w2 where rb:
      "run_batches ev md ?cfg (length ?bs) 0 ?bs ?docP (0, 0, 0) w1 = (out, doc', w2)"
      by (cases "run_batches ev md ?cfg (length ?bs) 0 ?bs ?docP (0, 0, 0) w1") auto
    from run_batches_status [OF batch_size_positive(2) rb] obtain new where
      a: "unchanged_state doc' ?docP"
      and b: "save_calls w2 = save_calls w1 @ new"
      and c: "\<forall>x \<in> set new. unchanged_state (fst x) ?docP"
      and d: "out = Return () \<or> (\<exists>e. out = Throw e \<and> store_fault ev e)"
      by blast
    let ?pre = "(?doc, True) # (?docP, True) # new"
    have pre: "\<forall>x \<in> set ?pre. running (fst x)" using c by simp
    have sv2: "save_calls w2 = save_calls w @ ?pre" using b sv1 by simp
    let ?docC = "doc'\<lparr>op_status := COMPLETED,
        completedAt := Some (now ev (length (save_calls w2)))\<rparr>"
    have compl: "completed ?docC" using a by simp
    from d consider (thrown) e where "out = Throw e" "store_fault ev e"
      | (returned) "out = Return ()" by blast
    then show ?thesis
    proof cases
      case (thrown e)
      then have out: "out = Throw e" and fault: "store_fault ev e" by simp_all
      have eq: "processBulkMessage ev md w = mark_failed ev e doc' w2"
        using s0 f bt rb out unfolding eq0
        by (simp add: processBulkMessagesInBackground_def Let_def)
      from mark_failed_shape [of ev e doc' w2] obtain fd okf where
        "save_calls (snd (mark_failed ev e doc' w2)) = save_calls w2 @ [(fd, okf)]"
        and fw: "failed_with fd e" by blast
      then have "save_calls (snd (processBulkMessage ev md w)) = save_calls w @ ?pre @ [(fd, okf)]"
        using eq sv2 by simp
      moreover note pre
      moreover have "([(fd, okf)] = [] \<and> (create_fault ev \<noteq> None \<or> (\<exists>k e. save_fault ev k = Some e))) \<or>
      (\<exists>c. [(fd, okf)] = [(c, True)] \<and> completed c \<and>
           processBulkMessage ev md w = (Return (), snd (processBulkMessage ev md w)) \<and>
           operation (snd (processBulkMessage ev md w)) = Some c) \<or>
      (\<exists>f ok e. [(fd, okf)] = [(f, ok)] \<and> failed_with f e \<and> store_fault ev e) \<or>
      (\<exists>c f ok e. [(fd, okf)] = [(c, False), (f, ok)] \<and> completed c \<and> failed_with f e \<and>
           store_fault ev e)"
      proof -
        have "\<exists>f ok' e. [(fd, okf)] = [(f, ok')] \<and> failed_with f e \<and> store_fault ev e"
          using fw fault by blast
        then show ?thesis by blast
      qed
      ultimately show ?thesis by (rule shapeI)
    next
      case returned
      then have out: "out = Return ()" .
      obtain fC w3 where sC: "save ev ?docC w2 = (fC, w3)" by (cases "save ev ?docC w2")
      from save_cases [OF sC]
      show ?thesis
      proof (elim disjE exE conjE)
        assume fC: "fC = None" and sv3: "save_calls w3 = save_calls w2 @ [(?docC, True)]"
          and op: "operation w3 = Some ?docC"
        have eq: "processBulkMessage ev md w = (Return (), w3)"
          using s0 f bt rb out sC fC unfolding eq0
          by (simp add: processBulkMessagesInBackground_def Let_def)
        have "save_calls (snd (processBulkMessage ev md w)) = save_calls w @ ?pre @ [(?docC, True)]"
          using eq sv3 sv2 by simp
        moreover note pre
        moreover have "([(?docC, True)] = [] \<and> (create_fault ev \<noteq> None \<or> (\<exists>k e. save_fault ev k = Some e))) \<or>
      (\<exists>c. [(?docC, True)] = [(c, True)] \<and> completed c \<and>
           processBulkMessage ev md w = (Return (), snd (processBulkMessage ev md w)) \<and>
           operation (snd (processBulkMessage ev md w)) = Some c) \<or>
      (\<exists>f ok e. [(?docC, True)] = [(f, ok)] \<and> failed_with f e \<and> store_fault ev e) \<or>
      (\<exists>c f ok e. [(?docC, True)] = [(c, False), (f, ok)] \<and> completed c \<and> failed_with f e \<and>
           store_fault ev e)"
          
        proof -
          have "\<exists>c. [(?docC, True)] = [(c, True)] \<and> completed c \<and>
              processBulkMessage ev md w = (Return (), snd (processBulkMessage ev md w)) \<and>
              operation (snd (processBulkMessage ev md w)) = Some c"
            using eq op compl by simp
          then show ?thesis by blast
        qed
        ultimately show ?thesis by (rule shapeI)
      next
        fix e
        assume fC: "fC = Some e" and fault: "save_fault ev (length (save_calls w2)) = Some e"
          and sv3: "save_calls w3 = save_calls w2 @ [(?docC, False)]"
        have eq: "processBulkMessage ev md w = mark_failed ev e ?docC w3"
          using s0 f bt rb out sC fC unfolding eq0
          by (simp add: processBulkMessagesInBackground_def Let_def)
        from mark_failed_shape [of ev e ?docC w3] obtain fd okf where
          "save_calls (snd (mark_failed ev e ?docC w3)) = save_calls w3 @ [(fd, okf)]"
          and fw: "failed_with fd e" by blast
        then have "save_calls (snd (processBulkMessage ev md w)) =
            save_calls w @ ?pre @ [(?docC, False), (fd, okf)]"
          using eq sv3 sv2 by simp
        moreover note pre
        moreover have "([(?docC, False), (fd, okf)] = [] \<and> (create_fault ev \<noteq> None \<or> (\<exists>k e. save_fault ev k = Some e))) \<or>
      (\<exists>c. [(?docC, False), (fd, okf)] = [(c, True)] \<and> completed c \<and>
           processBulkMessage ev md w = (Return (), snd (processBulkMessage ev md w)) \<and>
           operation (snd (processBulkMessage ev md w)) = Some c) \<or>
      (\<exists>f ok e. [(?docC, False), (fd, okf)] = [(f, ok)] \<and> failed_with f e \<and> store_fault ev e) \<or>
      (\<exists>c f ok e. [(?docC, False), (fd, okf)] = [(c, False), (f, ok)] \<and> completed c \<and> failed_with f e \<and>
           store_fault ev e)"
        proof -
          have sf: "store_fault ev e" using fault by blast
          have "\<exists>c f ok' e. [(?docC, False), (fd, okf)] = [(c, False), (f, ok')] \<and>
              completed c \<and> failed_with f e \<and> store_fault ev e"
            using compl fw sf by blast
          then show ?thesis by blast
        qed
        ultimately show ?thesis by (rule shapeI)
      qed
    qed
  qed
qed

lemma terminal_cases:
  "\<lbrakk>stopped \<or> stored \<or> failed1 \<or> failed2; stopped \<Longrightarrow> goal; stored \<Longrightarrow> goal;
    failed1 \<Longrightarrow> goal; failed2 \<Longrightarrow> goal\<rbrakk> \<Longrightarrow> goal"
  by blast

lemma single_run_terminal:
  assumes "create_fault ev = None"
    and "\<forall>k. save_fault ev k = (if k = 3 then fault else None)"
    and "insertMany_fault ev 0 = None" "bulkWrite_fault ev 0 = None"
    and "mobileNumbers md = [n]"
    and "run_worker ev md [0] 0 0 n = (res, [UpdateOne 0 c], evs)"
    and "\<forall>k. now ev k = k"
  shows "map (\<lambda>x. (op_status (fst x), failedCount (fst x), op_error (fst x),
                   completedAt (fst x), snd x))
           (save_calls (snd (processBulkMessage ev md empty_world))) =
     [(PENDING, 0, None, None, True), (PROCESSING, 0, None, None, True),
      (PROCESSING, if is_success res then 0 else 1, None, None, True)] @
     (case fault of
        None \<Rightarrow> [(COMPLETED, if is_success res then 0 else 1, None, Some 3, True)]
      | Some e \<Rightarrow>
          [(COMPLETED, if is_success res then 0 else 1, None, Some 3, False),
           (OPERATION_FAILED, if is_success res then 0 else 1, Some (String_error e), Some 4,
            True)])"
proof -
  let ?doc = "\<lparr>totalRecipients = 1, processedCount = 0, successCount = 0, failedCount = 0,
      op_status = PENDING, op_error = None, completedAt = None\<rparr>"
  let ?w0 = "empty_world\<lparr>operation := Some ?doc,
      save_calls := save_calls empty_world @ [(?doc, True)]\<rparr>"
  let ?w1 = "snd (save ev (?doc\<lparr>op_status := PROCESSING\<rparr>) ?w0)"
  have w1: "save ev (?doc\<lparr>op_status := PROCESSING\<rparr>) ?w0 = (None, ?w1)"
    using assms(2) by (simp add: save_def empty_world_def)
  have l1: "logs ?w1 = []" "events ?w1 = []"
    using assms(2) by (simp_all add: save_def empty_world_def)
  have b: "processBatchWithConcurrency ev [n] md 0
      \<lparr>CONCURRENCY_LIMIT = 2, BATCH_SIZE = 5, RATE_LIMIT_DELAY = 200\<rparr> ?w1 =
     (Return \<lparr>processed = 1, success = (if is_success res then 1 else 0),
               failed = (if is_success res then 0 else 1)\<rparr>,
      ?w1\<lparr>logs := logs ?w1 @
               [change_log c (queued_log (formatMobileNumber n) (data_type md))],
        events := events ?w1 @ evs\<rparr>)"
    by (rule processBatch_single) (use assms l1 in simp_all)
  show ?thesis
    using assms(1,2,5,7) w1 b l1
    by (simp add: processBulkMessage_def processBulkMessagesInBackground_def batches_singleton
        getOptimalConfig_1 Let_def save_def empty_world_def mark_failed_def
        split: option.splits)
qed

lemma run_worker_gateway:
  "gateway ev = gateway ev' \<Longrightarrow>
   run_worker ev md createdLogs p index n = run_worker ev' md createdLogs p index n"
  by (simp add: run_worker_def)

lemma run_worker_timeout:
  "run_worker (no_faults (\<lambda>p k req. Rejected timeout_error)) (text_message ns) [i] p 0 n =
     (Fulfilled (NotSent n (error_detail timeout_error)),
      [UpdateOne i (SetFailed (error_detail timeout_error))],
      [Attempt p n, Wait (2 ^ 1 * 1000), Attempt p n, Wait (2 ^ 2 * 1000), Attempt p n])"
proof -
  let ?ev = "no_faults (\<lambda>p k req. Rejected timeout_error)"
  have "send_by_type (text_message ns) (gateway ?ev p k) n = Inl timeout_error" for k
    by (simp add: no_faults_def send_text_timeout)
  then have "retry_loop (\<lambda>retries. send_by_type (text_message ns) (gateway ?ev p retries) n)
      p n 0 = (Inl timeout_error,
        [Attempt p n, Wait (2 ^ 1 * 1000), Attempt p n, Wait (2 ^ 2 * 1000), Attempt p n])"
    by (intro retry_loop_all_fail) simp_all
  then show ?thesis
    by (simp add: run_worker_failure at_index_def)
qed

text \<open>
  The end of a run. Whatever the gateway answers, a run whose store does not fault
  (\<open>create\<close>, every \<open>save\<close>, every \<open>insertMany\<close>) returns and leaves the operation
  \<open>COMPLETED\<close>, without error and with \<open>completedAt\<close> set: the failures of recipients never
  mark the operation failed. The documents a run hands to \<open>save\<close> are documents \<open>PENDING\<close> or
  \<open>PROCESSING\<close>, without error and without \<open>completedAt\<close>, followed by nothing (a fault of
  \<open>create\<close> or of a \<open>save\<close> ended the run), or by the \<open>COMPLETED\<close> document, stored, or by one
  \<open>FAILED\<close> document, or by the \<open>COMPLETED\<close> document, whose \<open>save\<close> faulted, and the \<open>FAILED\<close>
  document. A \<open>FAILED\<close> document has \<open>completedAt\<close> set and carries \<open>String(e)\<close>, which is not
  empty, for a fault \<open>e\<close> of a \<open>save\<close> or of \<open>insertMany\<close>. So \<open>completedAt\<close> is assigned at
  most twice, the second time over the first, and the store takes at most one document
  that has it.
\<close>

theorem failed_only_on_store_fault:
  "(create_fault ev = None \<and> (\<forall>k. save_fault ev k = None) \<and>
    (\<forall>s. insertMany_fault ev s = None) \<longrightarrow>
      (\<exists>c. processBulkMessage ev md w = (Return (), snd (processBulkMessage ev md w)) \<and>
           operation (snd (processBulkMessage ev md w)) = Some c \<and> completed c)) \<and>
   (\<exists>pre fin. save_calls (snd (processBulkMessage ev md w)) = save_calls w @ pre @ fin \<and>
     (\<forall>x \<in> set pre. running (fst x)) \<and>
     ((fin = [] \<and> (create_fault ev \<noteq> None \<or> (\<exists>k e. save_fault ev k = Some e))) \<or>
      (\<exists>c. fin = [(c, True)] \<and> completed c \<and>
           processBulkMessage ev md w = (Return (), snd (processBulkMessage ev md w)) \<and>
           operation (snd (processBulkMessage ev md w)) = Some c) \<or>
      (\<exists>f ok e. fin = [(f, ok)] \<and> failed_with f e \<and> store_fault ev e) \<or>
      (\<exists>c f ok e. fin = [(c, False), (f, ok)] \<and> completed c \<and> failed_with f e \<and>
           store_fault ev e)))"
proof (rule conjI)
  show "create_fault ev = None \<and> (\<forall>k. save_fault ev k = None) \<and>
    (\<forall>s. insertMany_fault ev s = None) \<longrightarrow>
      (\<exists>c. processBulkMessage ev md w = (Return (), snd (processBulkMessage ev md w)) \<and>
           operation (snd (processBulkMessage ev md w)) = Some c \<and> completed c)"
  proof
    assume nf: "create_fault ev = None \<and> (\<forall>k. save_fault ev k = None) \<and>
      (\<forall>s. insertMany_fault ev s = None)"
    then have n1: "\<not> (create_fault ev \<noteq> None \<or> (\<exists>k e. save_fault ev k = Some e))"
      and n2: "\<And>e. \<not> store_fault ev e"
      by simp_all
    from processBulkMessage_shape [of ev md w] obtain pre fin where
      "save_calls (snd (processBulkMessage ev md w)) = save_calls w @ pre @ fin"
      and "\<forall>x \<in> set pre. running (fst x)"
      and d: "(fin = [] \<and> (create_fault ev \<noteq> None \<or> (\<exists>k e. save_fault ev k = Some e))) \<or>
      (\<exists>c. fin = [(c, True)] \<and> completed c \<and>
           processBulkMessage ev md w = (Return (), snd (processBulkMessage ev md w)) \<and>
           operation (snd (processBulkMessage ev md w)) = Some c) \<or>
      (\<exists>f ok e. fin = [(f, ok)] \<and> failed_with f e \<and> store_fault ev e) \<or>
      (\<exists>c f ok e. fin = [(c, False), (f, ok)] \<and> completed c \<and> failed_with f e \<and>
           store_fault ev e)"
      by blast
    from d show "\<exists>c. processBulkMessage ev md w = (Return (), snd (processBulkMessage ev md w)) \<and>
           operation (snd (processBulkMessage ev md w)) = Some c \<and> completed c"
    proof (rule terminal_cases)
      assume "fin = [] \<and> (create_fault ev \<noteq> None \<or> (\<exists>k e. save_fault ev k = Some e))"
      then show ?thesis by (simp add: nf)
    next
      assume "\<exists>c. fin = [(c, True)] \<and> completed c \<and>
           processBulkMessage ev md w = (Return (), snd (processBulkMessage ev md w)) \<and>
           operation (snd (processBulkMessage ev md w)) = Some c"
      then obtain c where "completed c"
        and "processBulkMessage ev md w = (Return (), snd (processBulkMessage ev md w))"
        and "operation (snd (processBulkMessage ev md w)) = Some c"
        by blast
      then show ?thesis by (intro exI [of _ c]) simp
    next
      assume "\<exists>f ok e. fin = [(f, ok)] \<and> failed_with f e \<and> store_fault ev e"
      then show ?thesis by (simp add: nf)
    next
      assume "\<exists>c f ok e. fin = [(c, False), (f, ok)] \<and> completed c \<and> failed_with f e \<and>
           store_fault ev e"
      then show ?thesis by (simp add: nf)
    qed
  qed
next
  show "\<exists>pre fin. save_calls (snd (processBulkMessage ev md w)) = save_calls w @ pre @ fin \<and>
     (\<forall>x \<in> set pre. running (fst x)) \<and>
     ((fin = [] \<and> (create_fault ev \<noteq> None \<or> (\<exists>k e. save_fault ev k = Some e))) \<or>
      (\<exists>c. fin = [(c, True)] \<and> completed c \<and>
           processBulkMessage ev md w = (Return (), snd (processBulkMessage ev md w)) \<and>
           operation (snd (processBulkMessage ev md w)) = Some c) \<or>
      (\<exists>f ok e. fin = [(f, ok)] \<and> failed_with f e \<and> store_fault ev e) \<or>
      (\<exists>c f ok e. fin = [(c, False), (f, ok)] \<and> completed c \<and> failed_with f e \<and>
           store_fault ev e))"
    by (rule processBulkMessage_shape)
qed

theorem failed_only_on_store_fault_witness:
  "map (\<lambda>x. (op_status (fst x), failedCount (fst x), op_error (fst x), completedAt (fst x),
              snd x))
     (save_calls (snd (processBulkMessage (no_faults (\<lambda>p k req. Rejected timeout_error))
        (text_message [''919000000001'']) empty_world))) =
     [(PENDING, 0, None, None, True), (PROCESSING, 0, None, None, True),
      (PROCESSING, 1, None, None, True), (COMPLETED, 1, None, Some 3, True)] \<and>
   (\<exists>c. processBulkMessage (no_faults (\<lambda>p k req. Rejected timeout_error))
          (text_message [''919000000001'']) empty_world =
        (Return (), snd (processBulkMessage (no_faults (\<lambda>p k req. Rejected timeout_error))
          (text_message [''919000000001'']) empty_world)) \<and>
      operation (snd (processBulkMessage (no_faults (\<lambda>p k req. Rejected timeout_error))
          (text_message [''919000000001'']) empty_world)) = Some c \<and>
      completed c)"
proof
  let ?ev = "no_faults (\<lambda>p k req. Rejected timeout_error)"
  let ?md = "text_message [''919000000001'']"
  have f: "\<forall>k. save_fault ?ev k = (if k = 3 then None else None)" "\<forall>k. now ?ev k = k"
    by (simp_all add: no_faults_def)
  from single_run_terminal [OF no_faults_store(1) f(1) no_faults_store(3,4)
      text_message_fields(1) run_worker_timeout f(2)]
  show "map (\<lambda>x. (op_status (fst x), failedCount (fst x), op_error (fst x), completedAt (fst x),
              snd x))
     (save_calls (snd (processBulkMessage ?ev ?md empty_world))) =
     [(PENDING, 0, None, None, True), (PROCESSING, 0, None, None, True),
      (PROCESSING, 1, None, None, True), (COMPLETED, 1, None, Some 3, True)]"
    by simp
  have nf: "create_fault ?ev = None \<and> (\<forall>k. save_fault ?ev k = None) \<and>
      (\<forall>s. insertMany_fault ?ev s = None)"
    by (simp add: no_faults_def)
  from failed_only_on_store_fault [of ?ev ?md empty_world, THEN conjunct1, THEN mp, OF nf]
  show "\<exists>c. processBulkMessage ?ev ?md empty_world =
        (Return (), snd (processBulkMessage ?ev ?md empty_world)) \<and>
      operation (snd (processBulkMessage ?ev ?md empty_world)) = Some c \<and> completed c" .
qed

subsection \<open>Which record a callback updates\<close>

lemma run_worker_echo:
  assumes "at_index createdLogs index = Some i"
  shows "run_worker (no_faults echo) (text_message ns) createdLogs p index n =
     (Fulfilled (Sent n (Some (''wamid.'' @ n))),
      [UpdateOne i (SetSent (Some (''wamid.'' @ n)))], [Attempt p n])"
proof -
  have "send_by_type (text_message ns) (gateway (no_faults echo) p 0) n =
      Inr \<lparr>messages = Some [\<lparr>msg_id = Some (''wamid.'' @ n)\<rparr>]\<rparr>"
    by (simp add: no_faults_def echo_def send_by_type_def text_message_def sendText_def
        post_and_check_def delivered_def check_response_def truthy_def)
  then have "retry_loop (\<lambda>retries. send_by_type (text_message ns)
        (gateway (no_faults echo) p retries) n) p n 0 =
      (Inr (Some \<lparr>messages = Some [\<lparr>msg_id = Some (''wamid.'' @ n)\<rparr>]\<rparr>), [Attempt p n])"
    by (intro retry_loop_success) (simp_all add: maxRetries_def)
  then show ?thesis
    using assms by (simp add: run_worker_success first_message_id_def)
qed

lemma chunks_of_three: "batches [a, b, c] 2 = Some [[a, b], [c]]"
  by (simp add: batches_def batch_loop_step batch_loop_stop slice_def)

lemma batch_of_three: "batches [a, b, c] 5 = Some [[a, b, c]]"
  by (simp add: batches_def batch_loop_step batch_loop_stop slice_def)

lemma getOptimalConfig_3:
  "getOptimalConfig 3 = \<lparr>CONCURRENCY_LIMIT = 2, BATCH_SIZE = 5, RATE_LIMIT_DELAY = 200\<rparr>"
  by (simp add: getOptimalConfig_def)

lemma processBatch_three:
  assumes "logs w = []"
  shows "processBatchWithConcurrency (no_faults echo) [a, b, c] (text_message ns) 0
      \<lparr>CONCURRENCY_LIMIT = 2, BATCH_SIZE = 5, RATE_LIMIT_DELAY = 200\<rparr> w =
     (Return \<lparr>processed = 3, success = 3, failed = 0\<rparr>,
      w\<lparr>logs :=
          [change_log (SetSent (Some (''wamid.'' @ c)))
             (change_log (SetSent (Some (''wamid.'' @ a))) (queued_log (formatMobileNumber a) TEXT)),
           change_log (SetSent (Some (''wamid.'' @ b))) (queued_log (formatMobileNumber b) TEXT),
           queued_log (formatMobileNumber c) TEXT],
        events := events w @ [Attempt 0 a, Attempt 1 b, Wait 25, Attempt 2 c]\<rparr>)"
proof -
  have rw: "run_worker (no_faults echo) (text_message ns) [0, Suc 0, Suc (Suc 0)] p 0 n =
     (Fulfilled (Sent n (Some (''wamid.'' @ n))),
      [UpdateOne 0 (SetSent (Some (''wamid.'' @ n)))], [Attempt p n])"
    "run_worker (no_faults echo) (text_message ns) [0, Suc 0, Suc (Suc 0)] p (Suc 0) n =
     (Fulfilled (Sent n (Some (''wamid.'' @ n))),
      [UpdateOne (Suc 0) (SetSent (Some (''wamid.'' @ n)))], [Attempt p n])" for p n
    by (rule run_worker_echo, simp add: at_index_def)+
  have upt: "[0..<3] = [0, 1, 2]" by (simp add: upt_rec)
  show ?thesis
    using assms
    by (simp add: processBatchWithConcurrency_def insertMany_def no_faults_store chunks_of_three
        run_chunk_def rw write_updates_def bulkWrite_def add_events_def upt text_message_fields)
qed

lemma processBulkMessage_three:
  "\<exists>w. processBulkMessage (no_faults echo) (text_message [a, b, c]) empty_world = (Return (), w) \<and>
     logs w =
       [change_log (SetSent (Some (''wamid.'' @ c)))
          (change_log (SetSent (Some (''wamid.'' @ a))) (queued_log (formatMobileNumber a) TEXT)),
        change_log (SetSent (Some (''wamid.'' @ b))) (queued_log (formatMobileNumber b) TEXT),
        queued_log (formatMobileNumber c) TEXT] \<and>
     map_option (\<lambda>d. (op_status d, processedCount d, successCount d, failedCount d))
       (operation w) = Some (COMPLETED, 3, 3, 0) \<and>
     events w = [Attempt 0 a, Attempt 1 b, Wait 25, Attempt 2 c]"
proof -
  let ?ev = "no_faults echo"
  let ?md = "text_message [a, b, c]"
  let ?doc = "\<lparr>totalRecipients = length [a, b, c], processedCount = 0, successCount = 0, failedCount = 0,
      op_status = PENDING, op_error = None, completedAt = None\<rparr>"
  let ?w0 = "empty_world\<lparr>operation := Some ?doc,
      save_calls := save_calls empty_world @ [(?doc, True)]\<rparr>"
  let ?w1 = "snd (save ?ev (?doc\<lparr>op_status := PROCESSING\<rparr>) ?w0)"
  have w1: "save ?ev (?doc\<lparr>op_status := PROCESSING\<rparr>) ?w0 = (None, ?w1)"
    by (simp add: save_def no_faults_store)
  have l1: "logs ?w1 = []" "events ?w1 = []"
    by (simp_all add: save_def empty_world_def no_faults_store)
  note b = processBatch_three [of ?w1 a b c "[a, b, c]", OF l1(1)]
  show ?thesis
    using w1 b l1
    by (simp add: processBulkMessage_def processBulkMessagesInBackground_def batch_of_three
        getOptimalConfig_3 Let_def save_def empty_world_def no_faults_store text_message_fields)
qed

lemma route_batch_of_three: "batches [a, b, c] 10 = Some [[a, b, c]]"
  by (simp add: batches_def batch_loop_step batch_loop_stop slice_def)

lemma route_worker_sent:
  assumes "indexOf batch n = Some j" and "at_index createdLogs j = Some i"
  shows "route_worker (no_faults echo) media createdLogs batch p index n =
     (Fulfilled (Sent n (Some (''wamid.'' @ n))),
      [UpdateOne i (SetSent (Some (''wamid.'' @ n)))], [Attempt p n])"
  using assms
  by (simp add: route_worker_def no_faults_def echo_def sendDocumentByMediaId_def
      post_and_check_def delivered_def check_response_def truthy_def first_message_id_def)

lemma route_three:
  assumes "a \<noteq> b" "a \<noteq> c" "b \<noteq> c"
  shows "\<exists>w. csv_bulk_document (no_faults echo) [a, b, c] media empty_world = (Return (), w) \<and>
     logs w =
       [change_log (SetSent (Some (''wamid.'' @ a))) (queued_log a DOCUMENT),
        change_log (SetSent (Some (''wamid.'' @ b))) (queued_log b DOCUMENT),
        change_log (SetSent (Some (''wamid.'' @ c))) (queued_log c DOCUMENT)]"
proof -
  have upt: "[0..<3] = [0, Suc 0, Suc (Suc 0)]" by (simp add: upt_rec)
  have rw: "route_worker (no_faults echo) media [0, Suc 0, Suc (Suc 0)] [a, b, c] p index a =
     (Fulfilled (Sent a (Some (''wamid.'' @ a))),
      [UpdateOne 0 (SetSent (Some (''wamid.'' @ a)))], [Attempt p a])"
    "route_worker (no_faults echo) media [0, Suc 0, Suc (Suc 0)] [a, b, c] p index b =
     (Fulfilled (Sent b (Some (''wamid.'' @ b))),
      [UpdateOne (Suc 0) (SetSent (Some (''wamid.'' @ b)))], [Attempt p b])"
    "route_worker (no_faults echo) media [0, Suc 0, Suc (Suc 0)] [a, b, c] p index c =
     (Fulfilled (Sent c (Some (''wamid.'' @ c))),
      [UpdateOne (Suc (Suc 0)) (SetSent (Some (''wamid.'' @ c)))], [Attempt p c])"
    for p index
    using assms by (simp_all add: route_worker_sent at_index_def)
  show ?thesis
    by (simp add: csv_bulk_document_def no_faults_store route_batch_of_three batch_of_three
        Let_def save_def empty_world_def insertMany_def run_chunk_def rw upt
        route_write_updates_def bulkWrite_def add_events_def)
qed

text \<open>
  C1 at three recipients, every message sent; the gateway answers each request with an
  id made of its recipient. In the background path the callback reads
  \<open>createdLogs[index]\<close> with the index in the chunk of two: the third recipient, first of
  its chunk, updates the record of the first recipient, which ends with the third
  recipient's message id after two updates, and the third record stays \<open>QUEUED\<close>, while
  the operation counts three sent. The route, which reads
  \<open>createdLogs[batch.indexOf(mobileNumber)]\<close>, updates each of the three records with its
  own id.
\<close>

theorem third_recipient_updates_first_record:
  "map (\<lambda>l. (log_to l, log_status l, waMessageId l))
     (logs (snd (processBulkMessage (no_faults echo)
        (text_message [''919000000001'', ''919000000002'', ''919000000003'']) empty_world))) =
     [(''919000000001'', SENT, Some ''wamid.919000000003''),
      (''919000000002'', SENT, Some ''wamid.919000000002''),
      (''919000000003'', QUEUED, None)] \<and>
   events (snd (processBulkMessage (no_faults echo)
        (text_message [''919000000001'', ''919000000002'', ''919000000003'']) empty_world)) =
     [Attempt 0 ''919000000001'', Attempt 1 ''919000000002'', Wait 25,
      Attempt 2 ''919000000003''] \<and>
   map_option (\<lambda>d. (op_status d, processedCount d, successCount d, failedCount d))
     (operation (snd (processBulkMessage (no_faults echo)
        (text_message [''919000000001'', ''919000000002'', ''919000000003'']) empty_world))) =
     Some (COMPLETED, 3, 3, 0) \<and>
   map (\<lambda>l. (log_to l, log_status l, waMessageId l))
     (logs (snd (csv_bulk_document (no_faults echo)
        [''919000000001'', ''919000000002'', ''919000000003''] ''media1'' empty_world))) =
     [(''919000000001'', SENT, Some ''wamid.919000000001''),
      (''919000000002'', SENT, Some ''wamid.919000000002''),
      (''919000000003'', SENT, Some ''wamid.919000000003'')]"
proof -
  have "''919000000001'' \<noteq> ''919000000002''" "''919000000001'' \<noteq> ''919000000003''"
    "''919000000002'' \<noteq> ''919000000003''"
    by simp_all
  from route_three [OF this, of "''media1''"] obtain v where
    rr: "csv_bulk_document (no_faults echo)
        [''919000000001'', ''919000000002'', ''919000000003''] ''media1'' empty_world =
        (Return (), v)"
    and rl: "logs v =
       [change_log (SetSent (Some (''wamid.'' @ ''919000000001'')))
          (queued_log ''919000000001'' DOCUMENT),
        change_log (SetSent (Some (''wamid.'' @ ''919000000002'')))
          (queued_log ''919000000002'' DOCUMENT),
        change_log (SetSent (Some (''wamid.'' @ ''919000000003'')))
          (queued_log ''919000000003'' DOCUMENT)]"
    by (elim exE conjE)
  from processBulkMessage_three [of "''919000000001''" "''919000000002''" "''919000000003''"]
  obtain w where
    r: "processBulkMessage (no_faults echo)
        (text_message [''919000000001'', ''919000000002'', ''919000000003'']) empty_world =
        (Return (), w)"
    and l: "logs w =
       [change_log (SetSent (Some (''wamid.'' @ ''919000000003'')))
          (change_log (SetSent (Some (''wamid.'' @ ''919000000001'')))
             (queued_log (formatMobileNumber ''919000000001'') TEXT)),
        change_log (SetSent (Some (''wamid.'' @ ''919000000002'')))
          (queued_log (formatMobileNumber ''919000000002'') TEXT),
        queued_log (formatMobileNumber ''919000000003'') TEXT]"
    and o: "map_option (\<lambda>d. (op_status d, processedCount d, successCount d, failedCount d))
       (operation w) = Some (COMPLETED, 3, 3, 0)"
    and e: "events w = [Attempt 0 ''919000000001'', Attempt 1 ''919000000002'', Wait 25,
      Attempt 2 ''919000000003'']"
    by (elim exE conjE)
  show ?thesis
    unfolding r rr snd_conv l o e rl
    by (simp add: queued_log_def formatMobileNumber_def is_digit_def)
qed

subsection \<open>Where the failure of a recipient is recorded\<close>

lemma run_worker_refuse:
  assumes "at_index createdLogs index = Some i"
  shows "run_worker (no_faults refuse) (text_message ns) createdLogs p index n =
     (Fulfilled (NotSent n (''AxiosError: no route to '' @ n)),
      [UpdateOne i (SetFailed (''AxiosError: no route to '' @ n))],
      [Attempt p n, Wait (2 ^ 1 * 1000), Attempt p n, Wait (2 ^ 2 * 1000), Attempt p n])"
proof -
  have "send_by_type (text_message ns) (gateway (no_faults refuse) p k) n = Inl (no_route n)" for k
    by (simp add: no_faults_def refuse_def send_by_type_def text_message_def sendText_def
        post_and_check_def catch_send_def no_route_def)
  then have "retry_loop (\<lambda>retries. send_by_type (text_message ns)
        (gateway (no_faults refuse) p retries) n) p n 0 =
      (Inl (no_route n),
       [Attempt p n, Wait (2 ^ 1 * 1000), Attempt p n, Wait (2 ^ 2 * 1000), Attempt p n])"
    by (intro retry_loop_all_fail)
  moreover have "error_detail (no_route n) = ''AxiosError: no route to '' @ n"
    by (simp add: error_detail_def String_error_def no_route_def)
  ultimately show ?thesis
    using assms by (simp add: run_worker_failure)
qed

lemma processBatch_three_refused:
  assumes "logs w = []"
  shows "processBatchWithConcurrency (no_faults refuse) [a, b, c] (text_message ns) 0
      \<lparr>CONCURRENCY_LIMIT = 2, BATCH_SIZE = 5, RATE_LIMIT_DELAY = 200\<rparr> w =
     (Return \<lparr>processed = 3, success = 0, failed = 3\<rparr>,
      w\<lparr>logs :=
          [change_log (SetFailed (''AxiosError: no route to '' @ c))
             (change_log (SetFailed (''AxiosError: no route to '' @ a))
                (queued_log (formatMobileNumber a) TEXT)),
           change_log (SetFailed (''AxiosError: no route to '' @ b))
             (queued_log (formatMobileNumber b) TEXT),
           queued_log (formatMobileNumber c) TEXT],
        events := events w @
          [Attempt 0 a, Wait 2000, Attempt 0 a, Wait 4000, Attempt 0 a,
           Attempt 1 b, Wait 2000, Attempt 1 b, Wait 4000, Attempt 1 b, Wait 25,
           Attempt 2 c, Wait 2000, Attempt 2 c, Wait 4000, Attempt 2 c]\<rparr>)"
proof -
  have rw: "run_worker (no_faults refuse) (text_message ns) [0, Suc 0, Suc (Suc 0)] p 0 n =
     (Fulfilled (NotSent n (''AxiosError: no route to '' @ n)),
      [UpdateOne 0 (SetFailed (''AxiosError: no route to '' @ n))],
      [Attempt p n, Wait (2 ^ 1 * 1000), Attempt p n, Wait (2 ^ 2 * 1000), Attempt p n])"
    "run_worker (no_faults refuse) (text_message ns) [0, Suc 0, Suc (Suc 0)] p (Suc 0) n =
     (Fulfilled (NotSent n (''AxiosError: no route to '' @ n)),
      [UpdateOne (Suc 0) (SetFailed (''AxiosError: no route to '' @ n))],
      [Attempt p n, Wait (2 ^ 1 * 1000), Attempt p n, Wait (2 ^ 2 * 1000), Attempt p n])" for p n
    by (rule run_worker_refuse, simp add: at_index_def)+
  have upt: "[0..<3] = [0, 1, 2]" by (simp add: upt_rec)
  show ?thesis
    using assms
    by (simp add: processBatchWithConcurrency_def insertMany_def no_faults_store chunks_of_three
        run_chunk_def rw write_updates_def bulkWrite_def add_events_def upt text_message_fields)
qed

lemma processBulkMessage_three_refused:
  "\<exists>w. processBulkMessage (no_faults refuse) (text_message [a, b, c]) empty_world = (Return (), w) \<and>
     logs w =
       [change_log (SetFailed (''AxiosError: no route to '' @ c))
          (change_log (SetFailed (''AxiosError: no route to '' @ a))
             (queued_log (formatMobileNumber a) TEXT)),
        change_log (SetFailed (''AxiosError: no route to '' @ b))
          (queued_log (formatMobileNumber b) TEXT),
        queued_log (formatMobileNumber c) TEXT] \<and>
     map_option (\<lambda>d. (op_status d, processedCount d, successCount d, failedCount d, op_error d))
       (operation w) = Some (COMPLETED, 3, 0, 3, None)"
proof -
  let ?ev = "no_faults refuse"
  let ?md = "text_message [a, b, c]"
  let ?doc = "\<lparr>totalRecipients = length [a, b, c], processedCount = 0, successCount = 0,
      failedCount = 0, op_status = PENDING, op_error = None, completedAt = None\<rparr>"
  let ?w0 = "empty_world\<lparr>operation := Some ?doc,
      save_calls := save_calls empty_world @ [(?doc, True)]\<rparr>"
  let ?w1 = "snd (save ?ev (?doc\<lparr>op_status := PROCESSING\<rparr>) ?w0)"
  have w1: "save ?ev (?doc\<lparr>op_status := PROCESSING\<rparr>) ?w0 = (None, ?w1)"
    by (simp add: save_def no_faults_store)
  have l1: "logs ?w1 = []" "events ?w1 = []"
    by (simp_all add: save_def empty_world_def no_faults_store)
  note b = processBatch_three_refused [of ?w1 a b c "[a, b, c]", OF l1(1)]
  show ?thesis
    using w1 b l1
    by (simp add: processBulkMessage_def processBulkMessagesInBackground_def batch_of_three
        getOptimalConfig_3 Let_def save_def empty_world_def no_faults_store text_message_fields)
qed

lemma route_worker_refused:
  assumes "indexOf batch n = Some j" and "at_index createdLogs j = Some i"
  shows "route_worker (no_faults refuse) media createdLogs batch p index n =
     (Fulfilled (NotSent n (''AxiosError: no route to '' @ n)),
      [UpdateOne i (SetFailed (''AxiosError: no route to '' @ n))], [Attempt p n])"
  using assms
  by (simp add: route_worker_def no_faults_def refuse_def sendDocumentByMediaId_def
      post_and_check_def catch_send_def no_route_def error_detail_def String_error_def)

lemma route_three_refused:
  assumes "a \<noteq> b" "a \<noteq> c" "b \<noteq> c"
  shows "\<exists>w. csv_bulk_document (no_faults refuse) [a, b, c] media empty_world = (Return (), w) \<and>
     logs w =
       [change_log (SetFailed (''AxiosError: no route to '' @ a)) (queued_log a DOCUMENT),
        change_log (SetFailed (''AxiosError: no route to '' @ b)) (queued_log b DOCUMENT),
        change_log (SetFailed (''AxiosError: no route to '' @ c)) (queued_log c DOCUMENT)]"
proof -
  have upt: "[0..<3] = [0, Suc 0, Suc (Suc 0)]" by (simp add: upt_rec)
  have rw: "route_worker (no_faults refuse) media [0, Suc 0, Suc (Suc 0)] [a, b, c] p index a =
     (Fulfilled (NotSent a (''AxiosError: no route to '' @ a)),
      [UpdateOne 0 (SetFailed (''AxiosError: no route to '' @ a))], [Attempt p a])"
    "route_worker (no_faults refuse) media [0, Suc 0, Suc (Suc 0)] [a, b, c] p index b =
     (Fulfilled (NotSent b (''AxiosError: no route to '' @ b)),
      [UpdateOne (Suc 0) (SetFailed (''AxiosError: no route to '' @ b))], [Attempt p b])"
    "route_worker (no_faults refuse) media [0, Suc 0, Suc (Suc 0)] [a, b, c] p index c =
     (Fulfilled (NotSent c (''AxiosError: no route to '' @ c)),
      [UpdateOne (Suc (Suc 0)) (SetFailed (''AxiosError: no route to '' @ c))], [Attempt p c])"
    for p index
    using assms by (simp_all add: route_worker_refused at_index_def)
  show ?thesis
    by (simp add: csv_bulk_document_def no_faults_store route_batch_of_three batch_of_three
        Let_def save_def empty_world_def insertMany_def run_chunk_def rw upt
        route_write_updates_def bulkWrite_def add_events_def)
qed

text \<open>
  C6 at three recipients, every send refused by the gateway with an error that names the
  recipient. The failures do not reach the operation, which ends \<open>COMPLETED\<close> with three
  failed and no error. But in the background path the failure of the third recipient is
  written on the record of the first recipient, and the record of the third recipient
  stays \<open>QUEUED\<close>: not every failed send becomes a \<open>FAILED\<close> record. The route writes each
  failure on the record of its own recipient.
\<close>

theorem failed_recipient_record_stays_queued:
  "map (\<lambda>l. (log_to l, log_status l, log_error l))
     (logs (snd (processBulkMessage (no_faults refuse)
        (text_message [''919000000001'', ''919000000002'', ''919000000003'']) empty_world))) =
     [(''919000000001'', FAILED, Some ''AxiosError: no route to 919000000003''),
      (''919000000002'', FAILED, Some ''AxiosError: no route to 919000000002''),
      (''919000000003'', QUEUED, None)] \<and>
   map_option (\<lambda>d. (op_status d, processedCount d, successCount d, failedCount d, op_error d))
     (operation (snd (processBulkMessage (no_faults refuse)
        (text_message [''919000000001'', ''919000000002'', ''919000000003'']) empty_world))) =
     Some (COMPLETED, 3, 0, 3, None) \<and>
   map (\<lambda>l. (log_to l, log_status l, log_error l))
     (logs (snd (csv_bulk_document (no_faults refuse)
        [''919000000001'', ''919000000002'', ''919000000003''] ''media1'' empty_world))) =
     [(''919000000001'', FAILED, Some ''AxiosError: no route to 919000000001''),
      (''919000000002'', FAILED, Some ''AxiosError: no route to 919000000002''),
      (''919000000003'', FAILED, Some ''AxiosError: no route to 919000000003'')]"
proof -
  from processBulkMessage_three_refused
    [of "''919000000001''" "''919000000002''" "''919000000003''"]
  obtain w where
    r: "processBulkMessage (no_faults refuse)
        (text_message [''919000000001'', ''919000000002'', ''919000000003'']) empty_world =
        (Return (), w)"
    and l: "logs w =
       [change_log (SetFailed (''AxiosError: no route to '' @ ''919000000003''))
          (change_log (SetFailed (''AxiosError: no route to '' @ ''919000000001''))
             (queued_log (formatMobileNumber ''919000000001'') TEXT)),
        change_log (SetFailed (''AxiosError: no route to '' @ ''919000000002''))
          (queued_log (formatMobileNumber ''919000000002'') TEXT),
        queued_log (formatMobileNumber ''919000000003'') TEXT]"
    and o: "map_option (\<lambda>d. (op_status d, processedCount d, successCount d, failedCount d,
          op_error d)) (operation w) = Some (COMPLETED, 3, 0, 3, None)"
    by (elim exE conjE)
  have "''919000000001'' \<noteq> ''919000000002''" "''919000000001'' \<noteq> ''919000000003''"
    "''919000000002'' \<noteq> ''919000000003''"
    by simp_all
  from route_three_refused [OF this, of "''media1''"] obtain v where
    rr: "csv_bulk_document (no_faults refuse)
        [''919000000001'', ''919000000002'', ''919000000003''] ''media1'' empty_world =
        (Return (), v)"
    and rl: "logs v =
       [change_log (SetFailed (''AxiosError: no route to '' @ ''919000000001''))
          (queued_log ''919000000001'' DOCUMENT),
        change_log (SetFailed (''AxiosError: no route to '' @ ''919000000002''))
          (queued_log ''919000000002'' DOCUMENT),
        change_log (SetFailed (''AxiosError: no route to '' @ ''919000000003''))
          (queued_log ''919000000003'' DOCUMENT)]"
    by (elim exE conjE)
  show ?thesis
    unfolding r rr snd_conv l o rl
    by (simp add: queued_log_def formatMobileNumber_def is_digit_def)
qed

subsection \<open>A bulk update that fails\<close>

lemma fallback_loop_applies:
  "\<forall>j. findByIdAndUpdate_fault ev key j = None \<Longrightarrow>
   logs (fallback_loop ev key j ups w) = fold apply_update ups (logs w)"
proof (induction ups arbitrary: j w)
  case Nil
  show ?case by simp
next
  case (Cons u ups)
  obtain i c where u: "u = UpdateOne i c" by (cases u)
  show ?case
    using Cons.prems by (simp add: u Cons.IH [OF Cons.prems] del: apply_update.simps)
qed

lemma write_updates_falls_back:
  assumes "bulkWrite_fault ev key = Some (k, e)"
    and "\<forall>j. findByIdAndUpdate_fault ev key j = None"
  shows "logs (write_updates ev key ups w) =
     fold apply_update ups (fold apply_update (take k ups) (logs w))"
  using assms(1)
  by (simp add: write_updates_def bulkWrite_def add_events_def
      fallback_loop_applies [OF assms(2)])

lemma route_write_updates_gives_up:
  assumes "bulkWrite_fault ev key = Some (k, e)" and "ups \<noteq> []"
  shows "route_write_updates ev key ups w =
     w\<lparr>logs := fold apply_update (take k ups) (logs w),
       events := events w @ [BatchUpdateError e]\<rparr>"
  using assms by (simp add: route_write_updates_def bulkWrite_def add_events_def)

lemma bulkWrite_down_store:
  "create_fault (bulkWrite_down g) = None" "save_fault (bulkWrite_down g) k = None"
  "insertMany_fault (bulkWrite_down g) s = None"
  "bulkWrite_fault (bulkWrite_down g) s = Some (0, storage_error)"
  "findByIdAndUpdate_fault (bulkWrite_down g) s j = None"
  "gateway (bulkWrite_down g) = g" "now (bulkWrite_down g) k = k"
  by (simp_all add: bulkWrite_down_def no_faults_def)

lemma route_worker_echo:
  "route_worker (bulkWrite_down echo) media [i] [n] p 0 n =
     (Fulfilled (Sent n (Some (''wamid.'' @ n))),
      [UpdateOne i (SetSent (Some (''wamid.'' @ n)))], [Attempt p n])"
  by (simp add: route_worker_def bulkWrite_down_store echo_def sendDocumentByMediaId_def
      post_and_check_def delivered_def check_response_def truthy_def at_index_def
      first_message_id_def)

lemma route_single_bulkWrite_down:
  "\<exists>w. csv_bulk_document (bulkWrite_down echo) [n] media empty_world = (Return (), w) \<and>
     logs w = [queued_log n DOCUMENT] \<and>
     events w = [Attempt 0 n, BatchUpdateError storage_error] \<and>
     map_option (\<lambda>d. (op_status d, processedCount d, successCount d, failedCount d))
       (operation w) = Some (COMPLETED, 1, 1, 0)"
  by (simp add: csv_bulk_document_def bulkWrite_down_store batches_singleton Let_def save_def
      empty_world_def insertMany_def run_chunk_def route_worker_echo
      route_write_updates_gives_up [where k = 0 and e = storage_error] add_events_def)

lemma run_worker_bulkWrite_down:
  "run_worker (bulkWrite_down echo) (text_message ns) [i] p 0 n =
     (Fulfilled (Sent n (Some (''wamid.'' @ n))),
      [UpdateOne i (SetSent (Some (''wamid.'' @ n)))], [Attempt p n])"
proof -
  have "run_worker (bulkWrite_down echo) (text_message ns) [i] p 0 n =
      run_worker (no_faults echo) (text_message ns) [i] p 0 n"
    by (rule run_worker_gateway) (simp add: bulkWrite_down_store no_faults_def)
  then show ?thesis by (simp add: run_worker_echo at_index_def)
qed

lemma background_single_bulkWrite_down:
  "\<exists>w. processBulkMessage (bulkWrite_down echo) (text_message [n]) empty_world = (Return (), w) \<and>
     logs w = [change_log (SetSent (Some (''wamid.'' @ n))) (queued_log (formatMobileNumber n) TEXT)] \<and>
     events w = [Attempt 0 n, BatchUpdateError storage_error] \<and>
     map_option (\<lambda>d. (op_status d, processedCount d, successCount d, failedCount d))
       (operation w) = Some (COMPLETED, 1, 1, 0)"
  by (simp add: processBulkMessage_def processBulkMessagesInBackground_def bulkWrite_down_store
      batches_singleton getOptimalConfig_1 Let_def save_def empty_world_def
      processBatchWithConcurrency_def insertMany_def run_chunk_def run_worker_bulkWrite_down
      write_updates_def bulkWrite_def add_events_def text_message_fields)

text \<open>
  C9 at one recipient, the message sent, and a \<open>bulkWrite\<close> that throws before any update.
  The route logs the error and goes on: the record stays \<open>QUEUED\<close> and the operation ends
  \<open>COMPLETED\<close> with one sent. The background path, with the same store, logs the error
  and applies the update with \<open>findByIdAndUpdate\<close>: the record ends \<open>SENT\<close>.
\<close>

theorem route_leaves_failed_bulk_update:
  "map (\<lambda>l. (log_to l, log_status l))
     (logs (snd (csv_bulk_document (bulkWrite_down echo) [''919000000001''] ''media1''
        empty_world))) = [(''919000000001'', QUEUED)] \<and>
   events (snd (csv_bulk_document (bulkWrite_down echo) [''919000000001''] ''media1''
        empty_world)) = [Attempt 0 ''919000000001'', BatchUpdateError storage_error] \<and>
   map_option (\<lambda>d. (op_status d, processedCount d, successCount d, failedCount d))
     (operation (snd (csv_bulk_document (bulkWrite_down echo) [''919000000001''] ''media1''
        empty_world))) = Some (COMPLETED, 1, 1, 0) \<and>
   map (\<lambda>l. (log_to l, log_status l))
     (logs (snd (processBulkMessage (bulkWrite_down echo) (text_message [''919000000001''])
        empty_world))) = [(''919000000001'', SENT)] \<and>
   events (snd (processBulkMessage (bulkWrite_down echo) (text_message [''919000000001''])
        empty_world)) = [Attempt 0 ''919000000001'', BatchUpdateError storage_error]"
proof -
  from route_single_bulkWrite_down [of "''919000000001''" "''media1''"] obtain w where
    r: "csv_bulk_document (bulkWrite_down echo) [''919000000001''] ''media1'' empty_world =
        (Return (), w)"
    and rl: "logs w = [queued_log ''919000000001'' DOCUMENT]"
    and re: "events w = [Attempt 0 ''919000000001'', BatchUpdateError storage_error]"
    and ro: "map_option (\<lambda>d. (op_status d, processedCount d, successCount d, failedCount d))
       (operation w) = Some (COMPLETED, 1, 1, 0)"
    by (elim exE conjE)
  from background_single_bulkWrite_down [of "''919000000001''"] obtain v where
    b: "processBulkMessage (bulkWrite_down echo) (text_message [''919000000001''])
        empty_world = (Return (), v)"
    and bl: "logs v = [change_log (SetSent (Some (''wamid.'' @ ''919000000001'')))
        (queued_log (formatMobileNumber ''919000000001'') TEXT)]"
    and be: "events v = [Attempt 0 ''919000000001'', BatchUpdateError storage_error]"
    by (elim exE conjE)
  show ?thesis
    unfolding r b snd_conv rl re ro bl be
    by (simp add: queued_log_def formatMobileNumber_def is_digit_def)
qed

end
